(* ===== verification/Prelude.thy ===== *)
theory Prelude
  imports Main "HOL-Library.Word" "HOL-Library.Sublist"
begin

text \<open>
  Shared vocabulary of the development: the error type of the \<^verbatim>\<open>anyhow\<close> results the code
  returns, the \<^verbatim>\<open>?\<close> operator and \<^verbatim>\<open>ensure!\<close>, Rust's checked and saturating integer
  operations at their width, UTF-8 string predicates, decimal printing, \<^verbatim>\<open>str::split\<close>, and
  the generic lemmas on them that the component theories use.
\<close>

named_theorems result_simps \<open>equations that decide the success of a chain of fallible steps\<close>
named_theorems num_simps \<open>facts on checked and saturating machine arithmetic\<close>

section \<open>Results\<close>

text \<open>
  \<^verbatim>\<open>anyhow::Error\<close>: a message (\<^verbatim>\<open>bail!\<close>, \<^verbatim>\<open>ensure!\<close>), or an error wrapped by \<^verbatim>\<open>.context\<close>.
\<close>

datatype error = Bail string | Context string error

type_synonym 'a result = "error + 'a"

text \<open>The \<^verbatim>\<open>?\<close> operator: go on with the value or return the error.\<close>

definition and_then :: "'e + 'a \<Rightarrow> ('a \<Rightarrow> 'e + 'b) \<Rightarrow> 'e + 'b" where
  "and_then r f = (case r of Inl e \<Rightarrow> Inl e | Inr x \<Rightarrow> f x)"

definition ensure :: "bool \<Rightarrow> string \<Rightarrow> unit result" where
  "ensure b msg = (if b then Inr () else Inl (Bail msg))"

text \<open>\<^verbatim>\<open>Option::context\<close> and \<^verbatim>\<open>Result::context\<close>.\<close>

definition ok_or :: "'a option \<Rightarrow> string \<Rightarrow> 'a result" where
  "ok_or x msg = (case x of None \<Rightarrow> Inl (Bail msg) | Some v \<Rightarrow> Inr v)"

definition with_context :: "'a result \<Rightarrow> string \<Rightarrow> 'a result" where
  "with_context r msg = (case r of Inl e \<Rightarrow> Inl (Context msg e) | Inr v \<Rightarrow> Inr v)"

definition is_ok :: "'e + 'a \<Rightarrow> bool" where
  "is_ok r = (case r of Inl _ \<Rightarrow> False | Inr _ \<Rightarrow> True)"

text \<open>\<^verbatim>\<open>Result::ok\<close>.\<close>

definition ok :: "'e + 'a \<Rightarrow> 'a option" where
  "ok r = (case r of Inl _ \<Rightarrow> None | Inr x \<Rightarrow> Some x)"

text \<open>The alternate rendering of an error with its causes, \<^verbatim>\<open>{error:#}\<close>.\<close>

fun show_error :: "error \<Rightarrow> string" where
  "show_error (Bail msg) = msg"
| "show_error (Context msg e) = msg @ '': '' @ show_error e"

lemma and_then_simps [simp]:
  "and_then (Inl e) f = Inl e"
  "and_then (Inr x) f = f x"
  by (simp_all add: and_then_def)

lemma ensure_simps [simp]: "ensure True msg = Inr ()" "ensure False msg = Inl (Bail msg)"
  by (simp_all add: ensure_def)

lemma and_then_ensure [simp]:
  "and_then (ensure b msg) f = (if b then f () else Inl (Bail msg))"
  by (simp add: ensure_def)

lemma result_pair_cases:
  obtains e where "r = Inl e" | x y where "r = Inr (x, y)"
  by (cases r) auto

lemma and_then_eq_Inr [result_simps]:
  "and_then r f = Inr y \<longleftrightarrow> (\<exists>x. r = Inr x \<and> f x = Inr y)"
  by (cases r) auto

lemma ensure_eq_Inr [simp]: "ensure b msg = Inr u \<longleftrightarrow> b"
  by (simp add: ensure_def)

lemma ensure_eq_Inl [simp]: "ensure b msg = Inl e \<longleftrightarrow> \<not> b \<and> e = Bail msg"
  by (auto simp: ensure_def)

lemma ok_or_eq_Inr [simp]: "ok_or x msg = Inr v \<longleftrightarrow> x = Some v"
  by (auto simp: ok_or_def split: option.splits)

lemma ok_or_simps [simp]:
  "ok_or None msg = Inl (Bail msg)"
  "ok_or (Some v) msg = Inr v"
  by (simp_all add: ok_or_def)

lemma with_context_eq_Inr [simp]: "with_context r msg = Inr v \<longleftrightarrow> r = Inr v"
  by (cases r) (auto simp: with_context_def)

lemma with_context_simps [simp]:
  "with_context (Inr v) msg = Inr v"
  "with_context (Inl e) msg = Inl (Context msg e)"
  by (simp_all add: with_context_def)

lemma is_ok_simps [simp]: "is_ok (Inr x)" "\<not> is_ok (Inl e)"
  by (simp_all add: is_ok_def)

lemma is_ok_iff: "is_ok r \<longleftrightarrow> (\<exists>x. r = Inr x)"
  by (cases r) auto

lemma is_ok_unit: "is_ok (r :: 'e + unit) \<longleftrightarrow> r = Inr ()"
  by (cases r) auto

lemma is_ok_and_then [result_simps]: "is_ok (and_then r f) \<longleftrightarrow> (\<exists>x. r = Inr x \<and> is_ok (f x))"
  by (cases r) auto

lemma ok_simps [simp]: "ok (Inr x) = Some x" "ok (Inl e) = None"
  by (simp_all add: ok_def)

lemma ok_eq_Some [simp]: "ok r = Some x \<longleftrightarrow> r = Inr x"
  by (cases r) auto

text \<open>\<^verbatim>\<open>for x in xs { f(x)?; }\<close>: the first error stops the loop.\<close>

fun check_all :: "('a \<Rightarrow> unit result) \<Rightarrow> 'a list \<Rightarrow> unit result" where
  "check_all f [] = Inr ()"
| "check_all f (x # xs) = and_then (f x) (\<lambda>_. check_all f xs)"

lemma check_all_eq_Inr [result_simps]: "check_all f xs = Inr u \<longleftrightarrow> (\<forall>x \<in> set xs. f x = Inr ())"
  by (induction xs) (auto simp: and_then_eq_Inr)

section \<open>Machine integers\<close>

type_synonym u64 = "64 word"
type_synonym u32 = "32 word"
type_synonym u16 = "16 word"

text \<open>
  Signed 64-bit values (timestamps, PostgreSQL \<^verbatim>\<open>BIGINT\<close>) are integers whose range is
  written out at every operation that can leave it.
\<close>

type_synonym i64 = int

abbreviation i64_max :: i64 where "i64_max \<equiv> 9223372036854775807"
abbreviation i64_min :: i64 where "i64_min \<equiv> - 9223372036854775808"

definition i64_ok :: "int \<Rightarrow> bool" where
  "i64_ok x \<longleftrightarrow> i64_min \<le> x \<and> x \<le> i64_max"

definition checked_add :: "u64 \<Rightarrow> u64 \<Rightarrow> u64 option" where
  "checked_add a b = (if unat a + unat b < 2 ^ 64 then Some (a + b) else None)"

definition saturating_add :: "u64 \<Rightarrow> u64 \<Rightarrow> u64" where
  "saturating_add a b = (if unat a + unat b < 2 ^ 64 then a + b else - 1)"

definition saturating_sub :: "u64 \<Rightarrow> u64 \<Rightarrow> u64" where
  "saturating_sub a b = (if a < b then 0 else a - b)"

definition i64_saturating :: "int \<Rightarrow> i64" where
  "i64_saturating x = (if x < i64_min then i64_min else if x > i64_max then i64_max else x)"

definition i64_checked :: "int \<Rightarrow> i64 option" where
  "i64_checked x = (if i64_ok x then Some x else None)"

text \<open>\<^verbatim>\<open>i64::try_from(u64)\<close> and \<^verbatim>\<open>u64::try_from(i64)\<close>.\<close>

definition i64_of_u64 :: "u64 \<Rightarrow> i64 option" where
  "i64_of_u64 x = (if uint x \<le> i64_max then Some (uint x) else None)"

definition u64_of_i64 :: "i64 \<Rightarrow> u64 option" where
  "u64_of_i64 x = (if 0 \<le> x then Some (word_of_int x) else None)"

lemma checked_add_Some [num_simps]: "checked_add a b = Some c \<Longrightarrow> unat c = unat a + unat b"
  by (auto simp: checked_add_def unat_word_ariths split: if_splits)

lemma u64_succ_fits: "unat (a :: u64) + 1 < 2 ^ 64 \<longleftrightarrow> a \<noteq> - 1"
proof -
  have "unat (- 1 :: u64) = 2 ^ 64 - 1"
    by (simp add: unsigned_minus_1_eq_mask mask_eq_exp_minus_1)
  then show ?thesis
    using unsigned_less [of a, where 'a = nat] unsigned_word_eqI [of a "- 1", where ?'a = nat] by fastforce
qed

lemma checked_add_one_Some [num_simps]: "checked_add a 1 = Some c \<longleftrightarrow> a \<noteq> - 1 \<and> c = a + 1"
  using u64_succ_fits [of a] by (auto simp: checked_add_def)

lemma checked_add_one: "a \<noteq> - 1 \<Longrightarrow> checked_add a 1 = Some (a + 1)"
  by (simp add: checked_add_one_Some)

lemma u64_less_succ: "(a :: u64) \<noteq> - 1 \<Longrightarrow> a < a + 1"
  using u64_succ_fits [of a] by (simp add: word_less_nat_alt unat_word_ariths)

lemma u64_le_succ: "(a :: u64) \<le> b \<Longrightarrow> b \<noteq> - 1 \<Longrightarrow> a \<le> b + 1"
  using u64_less_succ [of b] by simp

lemma saturating_add_one [num_simps]: "a \<noteq> - 1 \<Longrightarrow> saturating_add a 1 = a + 1"
  using u64_succ_fits [of a] by (simp add: saturating_add_def)

lemma checked_add_gt: "checked_add a b = Some c \<Longrightarrow> 0 < b \<Longrightarrow> a < c"
  by (drule checked_add_Some) (simp add: word_less_nat_alt)

lemma u64_i64_roundtrip [simp]: "i64_of_u64 x = Some y \<Longrightarrow> u64_of_i64 y = Some x"
  by (auto simp: i64_of_u64_def u64_of_i64_def split: if_splits)

lemma i64_of_u64_inj: "i64_of_u64 x = Some y \<Longrightarrow> i64_of_u64 x' = Some y \<Longrightarrow> x = x'"
  by (metis option.inject u64_i64_roundtrip)

lemma i64_of_u64_ok: "i64_of_u64 x = Some y \<Longrightarrow> i64_ok y \<and> 0 \<le> y"
  by (auto simp: i64_of_u64_def i64_ok_def intro: order_trans [OF _ uint_ge_0] split: if_splits)

lemma uint_word_of_i64: "0 \<le> x \<Longrightarrow> i64_ok x \<Longrightarrow> uint (word_of_int x :: u64) = x"
  by (simp add: i64_ok_def take_bit_int_eq_self uint_word_of_int_eq)

lemma u64_of_i64_less: "0 \<le> x \<Longrightarrow> i64_ok x \<Longrightarrow> 0 \<le> y \<Longrightarrow> i64_ok y \<Longrightarrow>
    (word_of_int x :: u64) < word_of_int y \<longleftrightarrow> x < y"
  by (simp add: word_less_def uint_word_of_i64)

lemma u64_of_i64_eq: "0 \<le> x \<Longrightarrow> i64_ok x \<Longrightarrow> 0 \<le> y \<Longrightarrow> i64_ok y \<Longrightarrow>
    (word_of_int x :: u64) = word_of_int y \<longleftrightarrow> x = y"
  by (metis uint_word_of_i64)

lemma word_of_i64_eq: "0 \<le> x \<Longrightarrow> i64_ok x \<Longrightarrow> (word_of_int x :: u64) = w \<longleftrightarrow> x = uint w"
  by (metis uint_word_of_i64 word_of_int_uint)

lemma i64_of_word: "0 \<le> x \<Longrightarrow> i64_ok x \<Longrightarrow> i64_of_u64 (word_of_int x) = Some x"
  by (simp add: i64_of_u64_def uint_word_of_i64) (simp add: i64_ok_def)

section \<open>Strings\<close>

text \<open>
  A Rust string is its UTF-8 bytes; an Isabelle \<^typ>\<open>char\<close> is one byte, so \<^const>\<open>length\<close> is
  \<^verbatim>\<open>str::len\<close>. Predicates on characters are written on the bytes of their encoding.
\<close>

abbreviation byte :: "char \<Rightarrow> nat" where "byte c \<equiv> of_char c"

definition is_ascii_digit :: "char \<Rightarrow> bool" where
  "is_ascii_digit c \<longleftrightarrow> 48 \<le> byte c \<and> byte c \<le> 57"

definition is_ascii_lowercase :: "char \<Rightarrow> bool" where
  "is_ascii_lowercase c \<longleftrightarrow> 97 \<le> byte c \<and> byte c \<le> 122"

definition is_ascii_alphanumeric :: "char \<Rightarrow> bool" where
  "is_ascii_alphanumeric c \<longleftrightarrow>
     is_ascii_digit c \<or> is_ascii_lowercase c \<or> 65 \<le> byte c \<and> byte c \<le> 90"

definition is_ascii_hexdigit :: "char \<Rightarrow> bool" where
  "is_ascii_hexdigit c \<longleftrightarrow>
     is_ascii_digit c \<or> 97 \<le> byte c \<and> byte c \<le> 102 \<or> 65 \<le> byte c \<and> byte c \<le> 70"

lemmas ascii_defs = is_ascii_alphanumeric_def is_ascii_hexdigit_def is_ascii_digit_def is_ascii_lowercase_def

text \<open>
  \<^verbatim>\<open>s.chars().any(char::is_control)\<close>: the category Cc is U+0000--U+001F and U+007F, one byte
  each, and U+0080--U+009F, the byte C2 followed by 80--9F.
\<close>

fun has_control :: "string \<Rightarrow> bool" where
  "has_control [] = False"
| "has_control (c # cs) =
     (byte c < 32 \<or> byte c = 127
      \<or> (byte c = 194 \<and> (case cs of [] \<Rightarrow> False | d # _ \<Rightarrow> 128 \<le> byte d \<and> byte d \<le> 159))
      \<or> has_control cs)"

text \<open>\<^verbatim>\<open>s.chars().count()\<close>: every byte but the continuation bytes 80--BF starts a character.\<close>

definition char_count :: "string \<Rightarrow> nat" where
  "char_count s = length (filter (\<lambda>c. \<not> (128 \<le> byte c \<and> byte c \<le> 191)) s)"

text \<open>
  The UTF-8 encodings of the characters with the Unicode property White\_Space, which
  \<^verbatim>\<open>str::trim\<close> removes at both ends. A string equals its trimmed self exactly when it neither
  starts nor ends with one of them.
\<close>

definition whitespace_encodings :: "string list" where
  "whitespace_encodings = map (map char_of)
     ([[9], [10], [11], [12], [13], [32], [194, 133], [194, 160], [225, 154, 128]]
      @ map (\<lambda>b. [226, 128, b]) [128, 129, 130, 131, 132, 133, 134, 135, 136, 137, 138, 168, 169, 175]
      @ [[226, 129, 159], [227, 128, 128 :: nat]])"

definition is_trimmed :: "string \<Rightarrow> bool" where
  "is_trimmed s \<longleftrightarrow> (\<forall>w \<in> set whitespace_encodings. \<not> prefix w s \<and> \<not> suffix w s)"

text \<open>A text that begins and ends with a visible ASCII character is trimmed.\<close>

definition graphic :: "char \<Rightarrow> bool" where
  "graphic c \<longleftrightarrow> 33 \<le> byte c \<and> byte c < 127"

lemma whitespace_not_graphic:
  "list_all (\<lambda>w. w \<noteq> [] \<and> \<not> graphic (List.hd w) \<and> \<not> graphic (last w)) whitespace_encodings"
  by code_simp

lemma graphic_trimmed: "s \<noteq> [] \<Longrightarrow> graphic (List.hd s) \<Longrightarrow> graphic (last s) \<Longrightarrow> is_trimmed s"
  using whitespace_not_graphic by (auto simp: is_trimmed_def list_all_iff prefix_def suffix_def)

text \<open>\<^verbatim>\<open>str::strip_prefix\<close>.\<close>

definition strip_prefix :: "string \<Rightarrow> string \<Rightarrow> string option" where
  "strip_prefix p s = (if prefix p s then Some (drop (length p) s) else None)"

lemma strip_prefix_Some [simp]: "strip_prefix p s = Some t \<longleftrightarrow> s = p @ t"
  by (auto simp: strip_prefix_def prefix_def)

text \<open>\<^verbatim>\<open>str::split(c)\<close>, which yields one part more than there are separators.\<close>

fun split_on :: "char \<Rightarrow> string \<Rightarrow> string list" where
  "split_on c [] = [[]]"
| "split_on c (x # xs) =
     (if x = c then [] # split_on c xs
      else case split_on c xs of [] \<Rightarrow> [[x]] | w # ws \<Rightarrow> (x # w) # ws)"

fun join_with :: "char \<Rightarrow> string list \<Rightarrow> string" where
  "join_with c [] = []"
| "join_with c [w] = w"
| "join_with c (w # ws) = w @ c # join_with c ws"

lemma split_on_not_Nil [simp]: "split_on c s \<noteq> []"
  by (induction s) (auto split: list.splits)

lemma split_on_word: "c \<notin> set w \<Longrightarrow> split_on c w = [w]"
  by (induction w) auto

lemma split_on_append: "c \<notin> set w \<Longrightarrow> split_on c (w @ c # s) = w # split_on c s"
  by (induction w) auto

lemma join_split [simp]: "join_with c (split_on c s) = s"
proof (induction s)
  case (Cons x xs)
  obtain w ws where "split_on c xs = w # ws" by (cases "split_on c xs") auto
  with Cons show ?case by (cases ws) auto
qed simp

text \<open>\<^verbatim>\<open>format!("{n}")\<close> of an unsigned integer.\<close>

definition digit_char :: "nat \<Rightarrow> char" where
  "digit_char d = char_of (48 + d)"

fun show_nat :: "nat \<Rightarrow> string" where
  "show_nat n = (if n < 10 then [digit_char n] else show_nat (n div 10) @ [digit_char (n mod 10)])"

declare show_nat.simps [simp del]

abbreviation show_u64 :: "u64 \<Rightarrow> string" where "show_u64 n \<equiv> show_nat (unat n)"

lemma byte_digit_char: "d < 10 \<Longrightarrow> byte (digit_char d) = 48 + d"
  by (simp add: digit_char_def)

lemma digit_char_eval [simp]:
  "digit_char 0 = CHR ''0''" "digit_char 1 = CHR ''1''" "digit_char 2 = CHR ''2''" "digit_char 3 = CHR ''3''"
  "digit_char 4 = CHR ''4''" "digit_char 5 = CHR ''5''" "digit_char 6 = CHR ''6''" "digit_char 7 = CHR ''7''"
  "digit_char 8 = CHR ''8''" "digit_char 9 = CHR ''9''"
  by (simp_all add: digit_char_def char_of_eq_iff)

lemma digit_char_inj: "d < 10 \<Longrightarrow> e < 10 \<Longrightarrow> digit_char d = digit_char e \<Longrightarrow> d = e"
  by (metis byte_digit_char add_left_cancel)

lemma show_nat_digits: "\<forall>c \<in> set (show_nat n). is_ascii_digit c"
proof (induction n rule: show_nat.induct)
  case (1 n)
  have "is_ascii_digit (digit_char (n mod 10))"
    by (simp add: is_ascii_digit_def byte_digit_char)
  with 1 show ?case
    by (cases "n < 10") (auto simp: show_nat.simps [of n] is_ascii_digit_def byte_digit_char)
qed

lemma show_nat_not_Nil: "show_nat n \<noteq> []"
  by (simp add: show_nat.simps [of n])

lemma show_nat_inj: "show_nat m = show_nat n \<Longrightarrow> m = n"
proof (induction m arbitrary: n rule: show_nat.induct)
  case (1 m)
  show ?case
  proof (cases "m < 10")
    case True
    with "1.prems" have "n < 10"
      using show_nat_not_Nil [of "n div 10"] by (cases "n < 10") (auto simp: show_nat.simps [of m] show_nat.simps [of n])
    with True "1.prems" show ?thesis
      by (auto simp: show_nat.simps [of m] show_nat.simps [of n] dest: digit_char_inj)
  next
    case False
    with "1.prems" have n: "\<not> n < 10"
      using show_nat_not_Nil [of "m div 10"] by (cases "n < 10") (auto simp: show_nat.simps [of m] show_nat.simps [of n])
    with False "1.prems" have "show_nat (m div 10) = show_nat (n div 10)" "digit_char (m mod 10) = digit_char (n mod 10)"
      by (auto simp: show_nat.simps [of m] show_nat.simps [of n])
    then have "m div 10 = n div 10" "m mod 10 = n mod 10"
      using "1.IH" [OF False] by (auto intro!: digit_char_inj)
    then show ?thesis by (metis div_mult_mod_eq)
  qed
qed

lemma dot_join_inj:
  "c \<notin> set xs \<Longrightarrow> c \<notin> set xs' \<Longrightarrow> xs @ c # ys = xs' @ c # ys' \<longleftrightarrow> xs = xs' \<and> ys = ys'"
proof (induction xs arbitrary: xs')
  case Nil
  then show ?case by (cases xs') auto
next
  case (Cons x xs)
  then show ?case by (cases xs') auto
qed

lemma has_control_iff_ascii:
  "\<forall>c \<in> set s. byte c < 128 \<Longrightarrow> has_control s \<longleftrightarrow> (\<exists>c \<in> set s. byte c < 32 \<or> byte c = 127)"
  by (induction s) (auto split: list.splits)

text \<open>
  Lines of a byte stream: \<^verbatim>\<open>read_until\<close> reads up to and including the next newline, or to the end of
  the stream.
\<close>

definition newline :: char where "newline = CHR 0x0A"

definition first_line :: "string \<Rightarrow> string" where
  "first_line stream = takeWhile (\<lambda>c. c \<noteq> newline) stream @ (if newline \<in> set stream then [newline] else [])"

lemma first_line_prefix: "take (length (first_line s)) s = first_line s"
  by (induction s) (auto simp: first_line_def)

lemma first_line_Nil [simp]: "first_line s = [] \<longleftrightarrow> s = []"
  by (cases s) (auto simp: first_line_def)

lemma first_line_append:
  assumes "newline \<notin> set d"
  shows "first_line (d @ newline # rest) = d @ [newline]"
  using assms by (auto simp: first_line_def takeWhile_append)

lemma first_line_length: "length (first_line s) \<le> length s"
  by (metis first_line_prefix length_take min.cobounded1 min.absorb_iff1 nat_le_linear take_all_iff)

section \<open>JSON values\<close>

text \<open>
  \<^verbatim>\<open>serde_json::Value\<close>: its public constructors. A number is its literal; an object is its
  entries in key order, as the crate's default ordered map keeps them. Serialisation is code
  outside the repository and stays a parameter wherever it is used.
\<close>

datatype json =
    Null
  | JBool bool
  | JNumber string
  | JString string
  | JArray "json list"
  | JObject "(string \<times> json) list"

definition is_object :: "json \<Rightarrow> bool" where
  "is_object v = (case v of JObject _ \<Rightarrow> True | _ \<Rightarrow> False)"

end
