(* ===== verification/Actor_Protocol.thy ===== *)
theory Actor_Protocol
  imports Prelude "HOL-Library.Char_ord" "HOL-Library.List_Lexorder"
begin

text \<open>
  Identities and messages (\<^verbatim>\<open>src/actor/protocol.rs\<close>, \<^verbatim>\<open>src/actor_state.rs\<close>,
  \<^verbatim>\<open>src/host.rs\<close>, the data types of \<^verbatim>\<open>src/actor/executor_connection.rs\<close>): actor keys and
  the storage key that coordination records use, host identities, invocations, their failures
  and results, and the socket messages, events and effects. The lemmas characterise the
  validation functions and say when the storage key identifies the actor.
\<close>

section \<open>Storage keys and host identities\<close>

datatype actor_storage_key = ActorStorageKey (key_str: string)

definition storage_key_validate :: "actor_storage_key \<Rightarrow> unit result" where
  "storage_key_validate key =
     and_then (ensure (key_str key \<noteq> []) ''actor storage key must not be empty'') (\<lambda>_.
     and_then (ensure (length (key_str key) \<le> 255) ''actor storage key must be at most 255 bytes'') (\<lambda>_.
     and_then (ensure (key_str key \<noteq> ''.'' \<and> key_str key \<noteq> ''..'')
       ''actor storage key must not be a relative path component'') (\<lambda>_.
     ensure (\<not> (CHR ''/'' \<in> set (key_str key) \<or> CHR 0x5C \<in> set (key_str key) \<or> has_control (key_str key)))
       ''actor storage key must not contain path separators or control characters'')))"

datatype host_id = HostId (host_str: string)

lemma host_str_inject [simp]: "host_str a = host_str b \<longleftrightarrow> a = b"
  by (auto intro: host_id.expand)

text \<open>The derived \<^verbatim>\<open>Ord\<close> of \<^verbatim>\<open>HostId\<close> compares the strings.\<close>

instantiation host_id :: linorder
begin

definition less_eq_host_id :: "host_id \<Rightarrow> host_id \<Rightarrow> bool" where
  "less_eq_host_id a b \<longleftrightarrow> host_str a \<le> host_str b"

definition less_host_id :: "host_id \<Rightarrow> host_id \<Rightarrow> bool" where
  "less_host_id a b \<longleftrightarrow> host_str a < host_str b"

instance
  by standard (auto simp: less_eq_host_id_def less_host_id_def less_le)

end

datatype process_role = Workflow | Host

record host_endpoint =
  endpoint_id :: host_id
  endpoint_route :: string

section \<open>Actor keys\<close>

abbreviation max_namespace_id_bytes :: nat where "max_namespace_id_bytes \<equiv> 96"
abbreviation max_actor_type_bytes :: nat where "max_actor_type_bytes \<equiv> 48"
abbreviation max_actor_id_bytes :: nat where "max_actor_id_bytes \<equiv> 128"
abbreviation max_method_bytes :: nat where "max_method_bytes \<equiv> 128"

definition component_char :: "char \<Rightarrow> bool" where
  "component_char c \<longleftrightarrow> is_ascii_alphanumeric c \<or> c = CHR ''-'' \<or> c = CHR ''_'' \<or> c = CHR ''.''"

definition validate_component :: "string \<Rightarrow> string \<Rightarrow> nat \<Rightarrow> unit result" where
  "validate_component name value max_bytes =
     and_then (ensure (value \<noteq> []) (name @ '' must not be empty'')) (\<lambda>_.
     and_then (ensure (length value \<le> max_bytes)
       (name @ '' must be at most '' @ show_nat max_bytes @ '' bytes'')) (\<lambda>_.
     ensure (\<forall>c \<in> set value. component_char c)
       (name @ '' may contain only ASCII letters, digits, '.', '-', and '_'')))"

record actor_key =
  namespace_id :: string
  actor_type :: string
  actor_id :: string

record actor_scope =
  scope_namespace_id :: string

definition scope_validate :: "actor_scope \<Rightarrow> unit result" where
  "scope_validate scope = validate_component ''namespace ID'' (scope_namespace_id scope) max_namespace_id_bytes"

definition scope_contains :: "actor_scope \<Rightarrow> actor_key \<Rightarrow> bool" where
  "scope_contains scope actor \<longleftrightarrow> namespace_id actor = scope_namespace_id scope"

definition storage_key :: "actor_key \<Rightarrow> actor_storage_key" where
  "storage_key actor = ActorStorageKey
     (''object.v1.'' @ namespace_id actor @ ''.'' @ actor_type actor @ ''.'' @ actor_id actor)"

definition actor_validate :: "actor_key \<Rightarrow> unit result" where
  "actor_validate actor =
     and_then (validate_component ''namespace ID'' (namespace_id actor) max_namespace_id_bytes) (\<lambda>_.
     and_then (validate_component ''actor type'' (actor_type actor) max_actor_type_bytes) (\<lambda>_.
     and_then (validate_component ''actor ID'' (actor_id actor) max_actor_id_bytes) (\<lambda>_.
     storage_key_validate (storage_key actor))))"

section \<open>Invocations and results\<close>

record actor_invocation =
  inv_request_id :: string
  inv_actor :: actor_key
  inv_method :: string
  inv_args :: "json list"

definition invocation_validate :: "actor_invocation \<Rightarrow> unit result" where
  "invocation_validate invocation =
     and_then (ensure (inv_request_id invocation \<noteq> []) ''request ID must not be empty'') (\<lambda>_.
     and_then (ensure (length (inv_request_id invocation) \<le> 255) ''request ID must be at most 255 bytes'') (\<lambda>_.
     and_then (actor_validate (inv_actor invocation)) (\<lambda>_.
     validate_component ''actor method'' (inv_method invocation) max_method_bytes)))"

record actor_invocation_failure =
  failure_code :: string
  failure_message :: string

definition outcome_unknown_after_execution :: actor_invocation_failure where
  "outcome_unknown_after_execution =
     \<lparr>failure_code = ''outcome_unknown'',
      failure_message = ''actor execution completed, but its durable publication outcome could not be confirmed''\<rparr>"

record actor_socket_connection =
  conn_id :: string
  conn_metadata :: json
  conn_tags :: "string list"

datatype actor_socket_message = Text string | Binary string

datatype actor_socket_event =
    Connect actor_socket_connection
  | Message (event_connection_id: string) actor_socket_message
  | Disconnect actor_socket_connection u16 string bool

datatype actor_socket_effect =
    Send string actor_socket_message
  | Broadcast actor_socket_message "string list" "string list"
  | Close string u16 string
  | Reject string u16 string
  | SetMetadata string json
  | SetTags string "string list"

datatype actor_execution_result =
    Completed json "actor_socket_effect list"
  | Failed actor_invocation_failure
  | Reroute
  | HostUnavailable

record actor_socket_invocation =
  sock_request_id :: string
  sock_actor :: actor_key
  sock_event :: actor_socket_event
  sock_connections :: "actor_socket_connection list"
  sock_state :: "json option"

record actor_method_invocation =
  meth_request_id :: string
  meth_actor :: actor_key
  meth_method :: string
  meth_args :: "json list"
  meth_state :: "json option"
  meth_connections :: "actor_socket_connection list"

datatype actor_method_outcome =
    MethodCompleted json json "actor_socket_effect list"
  | MethodFailed actor_invocation_failure

datatype actor_socket_outcome =
    SocketHandled json "actor_socket_effect list"
  | SocketFailed actor_invocation_failure

section \<open>Validation\<close>

lemma validate_component_iff [result_simps]:
  "validate_component name value n = Inr u \<longleftrightarrow>
     value \<noteq> [] \<and> length value \<le> n \<and> (\<forall>c \<in> set value. component_char c)"
  by (auto simp: validate_component_def)

lemma component_char_byte: "component_char c \<Longrightarrow> 45 \<le> byte c \<and> byte c \<le> 122 \<and> byte c \<noteq> 47 \<and> byte c \<noteq> 92"
  by (auto simp: component_char_def ascii_defs)

lemma component_char_safe:
  "component_char c \<Longrightarrow> c \<noteq> CHR ''/'' \<and> c \<noteq> CHR 0x5C"
  by (auto dest: component_char_byte)

lemma component_no_slash: "\<forall>c \<in> set s. component_char c \<Longrightarrow> CHR ''/'' \<notin> set s"
  using component_char_safe by blast

lemma component_no_control: "\<forall>c \<in> set s. component_char c \<Longrightarrow> \<not> has_control s"
  by (subst has_control_iff_ascii) (auto dest!: component_char_byte bspec)

lemma storage_key_chars:
  assumes "\<forall>c \<in> set (namespace_id k) \<union> set (actor_type k) \<union> set (actor_id k). component_char c"
  shows "\<forall>c \<in> set (key_str (storage_key k)). component_char c"
  using assms by (auto simp: storage_key_def component_char_def ascii_defs)

lemma length_storage_key:
  "length (key_str (storage_key k)) = 12 + length (namespace_id k) + length (actor_type k) + length (actor_id k)"
  by (simp add: storage_key_def)

lemma storage_key_validate_actor:
  assumes chars: "\<forall>c \<in> set (namespace_id k) \<union> set (actor_type k) \<union> set (actor_id k). component_char c"
  shows "storage_key_validate (storage_key k) = Inr () \<longleftrightarrow>
      length (namespace_id k) + length (actor_type k) + length (actor_id k) \<le> 243"
proof -
  note cs = storage_key_chars [OF chars]
  have "CHR 0x5C \<notin> set (key_str (storage_key k))"
    using cs component_char_safe by blast
  then show ?thesis
    using component_no_slash [OF cs] component_no_control [OF cs] length_storage_key [of k]
    by (auto simp: storage_key_validate_def storage_key_def)
qed

text \<open>
  An actor key is accepted exactly when its three parts are non-empty, within
  96, 48 and 128 bytes, made of ASCII letters, digits, dots, dashes and underscores, and at most
  243 bytes together: the last bound is the 255-byte limit on the storage key, which is the only
  one of its checks the parts do not already imply.
\<close>

theorem actor_validate_iff:
  "is_ok (actor_validate k) \<longleftrightarrow>
     namespace_id k \<noteq> [] \<and> actor_type k \<noteq> [] \<and> actor_id k \<noteq> [] \<and>
     length (namespace_id k) \<le> 96 \<and> length (actor_type k) \<le> 48 \<and> length (actor_id k) \<le> 128 \<and>
     length (namespace_id k) + length (actor_type k) + length (actor_id k) \<le> 243 \<and>
     list_all component_char (namespace_id k @ actor_type k @ actor_id k)"
  using storage_key_validate_actor [of k] by (auto simp: is_ok_unit actor_validate_def result_simps list_all_iff)

lemma actor_validI:
  assumes "namespace_id k \<noteq> []" "actor_type k \<noteq> []" "actor_id k \<noteq> []"
    "length (namespace_id k) \<le> 96" "length (actor_type k) \<le> 48" "length (actor_id k) \<le> 96"
    "\<forall>c \<in> set (namespace_id k @ actor_type k @ actor_id k). component_char c"
  shows "actor_validate k = Inr ()"
  using assms by (auto simp: actor_validate_def result_simps storage_key_validate_actor)

section \<open>What the storage key identifies\<close>

text \<open>
  Keys whose namespace and actor type contain no dot have distinct storage keys:
  coordination records of such actors are never shared.
\<close>

theorem storage_key_injective:
  assumes "CHR ''.'' \<notin> set (namespace_id a @ actor_type a)"
    and "CHR ''.'' \<notin> set (namespace_id b @ actor_type b)"
  shows "storage_key a = storage_key b \<longleftrightarrow> a = b"
  using assms by (auto simp: storage_key_def dot_join_inj intro: actor_key.equality)

theorem storage_key_injective_witness:
  "storage_key \<lparr>namespace_id = ''ns'', actor_type = ''Counter'', actor_id = ''Log.b''\<rparr>
   \<noteq> storage_key \<lparr>namespace_id = ''ns'', actor_type = ''Counter-Log'', actor_id = ''b''\<rparr>"
  by (subst storage_key_injective) simp_all

text \<open>
  Without that restriction the storage key does not identify the actor, nor even its
  namespace: two keys that pass validation, in different namespaces, share one storage key.
\<close>

theorem storage_key_collision:
  "\<exists>a b. is_ok (actor_validate a) \<and> is_ok (actor_validate b) \<and>
     namespace_id a \<noteq> namespace_id b \<and> storage_key a = storage_key b"
proof -
  let ?a = "\<lparr>namespace_id = ''acme'', actor_type = ''prod.Counter'', actor_id = ''one''\<rparr>"
  let ?b = "\<lparr>namespace_id = ''acme.prod'', actor_type = ''Counter'', actor_id = ''one''\<rparr>"
  have "is_ok (actor_validate ?a)" "is_ok (actor_validate ?b)"
    by (simp_all add: is_ok_unit actor_validI component_char_def ascii_defs)
  moreover have "storage_key ?a = storage_key ?b" by (simp add: storage_key_def)
  ultimately show ?thesis by (intro exI [of _ ?a] exI [of _ ?b]) simp
qed

lemma scope_contains_iff [simp]:
  "scope_contains \<lparr>scope_namespace_id = ns\<rparr> actor \<longleftrightarrow> namespace_id actor = ns"
  by (simp add: scope_contains_def)

lemma invocation_validate_iff [result_simps]:
  "invocation_validate invocation = Inr u \<longleftrightarrow>
     inv_request_id invocation \<noteq> [] \<and> length (inv_request_id invocation) \<le> 255 \<and>
     actor_validate (inv_actor invocation) = Inr () \<and>
     validate_component ''actor method'' (inv_method invocation) max_method_bytes = Inr ()"
  by (auto simp: invocation_validate_def result_simps)

end
