(* ===== verification/Executor.thy ===== *)
theory Executor
  imports Actor_Protocol
begin

text \<open>
  The connection to the customer's actor process (\<^verbatim>\<open>src/actor/executor_connection.rs\<close>): one JSON
  document per line over a Unix socket, many commands in flight at a time, told apart by message ids,
  and the residency protocol that spares sending a state the process still holds. The serializer and
  the socket are parameters. The lemmas show that the framing is lossless and ends, that a reply
  reaches exactly the caller of its command, that no caller is left waiting when the connection ends,
  and that an actor always runs on the state the host holds for it.
\<close>

abbreviation actor_executor_protocol_version :: u32 where "actor_executor_protocol_version \<equiv> 13"
abbreviation max_actor_executor_message_bytes :: nat where "max_actor_executor_message_bytes \<equiv> 33554432"
abbreviation max_residents :: nat where "max_residents \<equiv> 4096"

datatype executor_command =
    Invoke actor_method_invocation
  | WebsocketEvent actor_socket_invocation
  | Evict actor_key

datatype executor_reply =
    StateRequired
  | Invoked json json "actor_socket_effect list"
  | WebsocketHandled json "actor_socket_effect list"
  | ReplyFailed string string
  | Evicted

record executor_command_envelope =
  env_command :: executor_command
  env_state :: "json option"
  env_resident_only :: bool

datatype server_message = Attached u32 | Command u64 executor_command_envelope

datatype client_message = Attach u32 "string list" | Reply u64 executor_reply

record executor_codec =
  server_to_vec :: "server_message \<Rightarrow> string result"
  client_from_slice :: "string \<Rightarrow> client_message result"

section \<open>Framing\<close>

definition is_ascii_space :: "char \<Rightarrow> bool" where
  "is_ascii_space c \<longleftrightarrow> byte c = 32 \<or> byte c = 9 \<or> byte c = 10 \<or> byte c = 12 \<or> byte c = 13"

definition trim_ascii_end :: "string \<Rightarrow> string" where
  "trim_ascii_end document = rev (dropWhile is_ascii_space (rev document))"

text \<open>
  The bytes the peer will still send, and whether the socket then fails instead of ending. A read
  that stops before a newline has seen the end of them.
\<close>

record in_stream =
  in_bytes :: string
  in_broken :: bool

definition read_client_message ::
    "(string \<Rightarrow> client_message result) \<Rightarrow> in_stream \<Rightarrow> client_message option result \<times> in_stream" where
  "read_client_message from_slice stream =
     (let document = first_line (take (max_actor_executor_message_bytes + 1) (in_bytes stream));
          rest = stream\<lparr>in_bytes := drop (length document) (in_bytes stream)\<rparr>
      in if in_broken stream \<and> in_bytes rest = [] \<and> newline \<notin> set document \<and> length document \<le> max_actor_executor_message_bytes
         then (Inl (Bail ''connection reset''), rest)
         else if document = [] then (Inr None, rest)
         else (and_then (ensure (length document \<le> max_actor_executor_message_bytes)
                 ''customer actor executor message exceeds 33554432 bytes'') (\<lambda>_.
               and_then (with_context (from_slice (trim_ascii_end document)) ''decode customer actor executor message'') (\<lambda>m.
               Inr (Some m))), rest))"

datatype write_error = MessageTooLarge | WriteFailed error

definition too_large_message :: string where
  "too_large_message = ''actor executor command exceeds 33554432 bytes''"

text \<open>\<open>put\<close> writes the bytes to the socket.\<close>

definition write_server_message ::
    "(server_message \<Rightarrow> string result) \<Rightarrow> (string \<Rightarrow> 'w \<Rightarrow> unit result \<times> 'w) \<Rightarrow> server_message \<Rightarrow> 'w
     \<Rightarrow> (write_error + unit) \<times> 'w" where
  "write_server_message to_vec put message w =
     (case to_vec message of
        Inl e \<Rightarrow> (Inl (WriteFailed e), w)
      | Inr bytes \<Rightarrow>
          if length (bytes @ [newline]) > max_actor_executor_message_bytes then (Inl MessageTooLarge, w)
          else (case put (bytes @ [newline]) w of
                  (Inl e, w') \<Rightarrow> (Inl (WriteFailed e), w')
                | (Inr _, w') \<Rightarrow> (Inr (), w')))"

section \<open>Attaching\<close>

datatype path_kind = SocketFile | OtherFile | NoFile | PathError error

text \<open>\<open>remove\<close> is the outcome of removing the file.\<close>

definition prepare_socket_path :: "path_kind \<Rightarrow> unit result \<Rightarrow> string \<Rightarrow> unit result" where
  "prepare_socket_path kind remove path =
     (case kind of
        SocketFile \<Rightarrow> remove
      | OtherFile \<Rightarrow> Inl (Bail (''refusing to replace non-socket actor executor path '' @ path))
      | NoFile \<Rightarrow> Inr ()
      | PathError e \<Rightarrow> Inl e)"

text \<open>\<open>parent\<close> is the path's directory, if it has one, with the outcome of creating it; \<open>bound\<close> that of binding.\<close>

definition bind_executor :: "unit result \<Rightarrow> (string \<times> unit result) option \<Rightarrow> 'l result \<Rightarrow> string \<Rightarrow> 'l result" where
  "bind_executor prepared parent bound path =
     and_then prepared (\<lambda>_.
     and_then (case parent of
                 None \<Rightarrow> Inr ()
               | Some (dir, created) \<Rightarrow> with_context created (''create actor executor directory '' @ dir)) (\<lambda>_.
     with_context bound (''bind actor executor socket '' @ path)))"

datatype removal = Removed | NotFound | RemovalError error

definition remove_socket :: "removal \<Rightarrow> unit result" where
  "remove_socket outcome = (case outcome of RemovalError e \<Rightarrow> Inl e | _ \<Rightarrow> Inr ())"

definition attach_message :: "client_message option \<Rightarrow> string list result" where
  "attach_message message =
     (case message of
        Some (Attach protocol actor_types) \<Rightarrow>
          and_then (ensure (protocol = actor_executor_protocol_version)
            (''customer actor executor uses unsupported protocol version '' @ show_nat (unat protocol))) (\<lambda>_.
          and_then (ensure (actor_types \<noteq> []) ''customer actor executor did not advertise any actor types'') (\<lambda>_.
          Inr actor_types))
      | Some (Reply _ _) \<Rightarrow> Inl (Bail ''first customer actor executor message must attach the process'')
      | None \<Rightarrow> Inl (Bail ''customer actor executor disconnected before attaching''))"

section \<open>Commands in flight\<close>

text \<open>
  \<open>ex_pending\<close> holds the waiting caller of each message id, a task; \<open>ex_outcome\<close> what a caller's
  receiver was given: a reply, or \<open>None\<close> when its sender was dropped.
\<close>

record executor_state =
  ex_actor_types :: "string set"
  ex_next_message_id :: u64
  ex_pending :: "u64 \<rightharpoonup> nat"
  ex_outcome :: "nat \<rightharpoonup> executor_reply option"
  ex_residents :: "actor_key set"

definition executor_new :: "string list \<Rightarrow> executor_state" where
  "executor_new actor_types = \<lparr>ex_actor_types = set actor_types, ex_next_message_id = 1, ex_pending = Map.empty,
     ex_outcome = Map.empty, ex_residents = {}\<rparr>"

definition accept_connection ::
    "(string \<Rightarrow> client_message result) \<Rightarrow> in_stream result \<Rightarrow> string \<Rightarrow> (executor_state \<times> in_stream) result" where
  "accept_connection from_slice accepted path =
     and_then (with_context accepted (''accept actor executor at '' @ path)) (\<lambda>stream.
     case read_client_message from_slice stream of
       (message, rest) \<Rightarrow>
         and_then message (\<lambda>m.
         and_then (attach_message m) (\<lambda>actor_types. Inr (executor_new actor_types, rest))))"

definition accept :: "'a result \<Rightarrow> unit result \<Rightarrow> 'a result" where
  "accept connection cleanup =
     (case connection of
        Inl e \<Rightarrow> Inl e
      | Inr c \<Rightarrow> (case cleanup of Inl e \<Rightarrow> Inl e | Inr _ \<Rightarrow> Inr c))"

definition supports :: "string \<Rightarrow> executor_state \<Rightarrow> bool" where
  "supports ty s \<longleftrightarrow> ty \<in> ex_actor_types s"

text \<open>A dropped sender wakes its receiver with an error.\<close>

definition drop_sender :: "nat option \<Rightarrow> executor_state \<Rightarrow> executor_state" where
  "drop_sender sender s = (case sender of None \<Rightarrow> s | Some t \<Rightarrow> s\<lparr>ex_outcome := (ex_outcome s)(t \<mapsto> None)\<rparr>)"

text \<open>The first half of \<^verbatim>\<open>exchange\<close>: the next id is drawn, wrapping, and the sender is inserted.\<close>

definition start_exchange :: "nat \<Rightarrow> executor_state \<Rightarrow> u64 \<times> executor_state" where
  "start_exchange task s =
     (let message_id = ex_next_message_id s;
          s1 = drop_sender (ex_pending s message_id) s
      in (message_id, s1\<lparr>ex_next_message_id := message_id + 1, ex_pending := (ex_pending s)(message_id \<mapsto> task)\<rparr>))"

definition remove_pending :: "u64 \<Rightarrow> executor_state \<Rightarrow> executor_state" where
  "remove_pending message_id s =
     (drop_sender (ex_pending s message_id) s)\<lparr>ex_pending := (ex_pending s)(message_id := None)\<rparr>"

definition deliver :: "u64 \<Rightarrow> executor_reply \<Rightarrow> executor_state \<Rightarrow> unit result \<times> executor_state" where
  "deliver message_id reply s =
     (case ex_pending s message_id of
        None \<Rightarrow> (Inl (Bail (''actor executor replied to unknown message '' @ show_nat (unat message_id))), s)
      | Some t \<Rightarrow> (Inr (), s\<lparr>ex_pending := (ex_pending s)(message_id := None), ex_outcome := (ex_outcome s)(t \<mapsto> Some reply)\<rparr>))"

definition disconnect :: "executor_state \<Rightarrow> executor_state" where
  "disconnect s = s\<lparr>ex_pending := Map.empty,
     ex_outcome := (\<lambda>t. if t \<in> ran (ex_pending s) then Some None else ex_outcome s t)\<rparr>"

text \<open>The reader task: it stops at the first failure and then disconnects every caller.\<close>

lemma read_client_message_consumes:
  "read_client_message from_slice stream = (Inr (Some m), rest) \<Longrightarrow> length (in_bytes rest) < length (in_bytes stream)"
proof -
  assume "read_client_message from_slice stream = (Inr (Some m), rest)"
  then have "first_line (take (max_actor_executor_message_bytes + 1) (in_bytes stream)) \<noteq> []"
    and "in_bytes rest = drop (length (first_line (take (max_actor_executor_message_bytes + 1) (in_bytes stream)))) (in_bytes stream)"
    by (auto simp: read_client_message_def Let_def split: if_splits)
  then show ?thesis by (cases "in_bytes stream") auto
qed

function read_loop :: "(string \<Rightarrow> client_message result) \<Rightarrow> in_stream \<Rightarrow> executor_state \<Rightarrow> error \<times> executor_state" where
  "read_loop from_slice stream s =
     (case read_client_message from_slice stream of
        (Inl e, _) \<Rightarrow> (e, s)
      | (Inr None, _) \<Rightarrow> (Bail ''customer JavaScript actor executor disconnected'', s)
      | (Inr (Some (Attach _ _)), _) \<Rightarrow> (Bail ''customer actor executor attached more than once'', s)
      | (Inr (Some (Reply message_id reply)), rest) \<Rightarrow>
          (case deliver message_id reply s of
             (Inl e, s') \<Rightarrow> (e, s')
           | (Inr _, s') \<Rightarrow> read_loop from_slice rest s'))"
  by pat_completeness auto
termination
  by (relation "measure (\<lambda>(_, stream, _). length (in_bytes stream))") (auto dest!: read_client_message_consumes [OF sym])

declare read_loop.simps [simp del]

definition read_executor_messages :: "(string \<Rightarrow> client_message result) \<Rightarrow> in_stream \<Rightarrow> executor_state \<Rightarrow> error \<times> executor_state" where
  "read_executor_messages from_slice stream s =
     (case read_loop from_slice stream s of (e, s') \<Rightarrow> (e, disconnect s'))"

section \<open>Exchanges\<close>

text \<open>
  A whole exchange of one caller on the world \<open>'w\<close> of the process and the other tasks: \<open>put\<close> writes to
  the socket, \<open>await\<close> is what the caller's receiver yields.
\<close>

record 'w executor_io =
  io_put :: "string \<Rightarrow> executor_state \<times> 'w \<Rightarrow> unit result \<times> executor_state \<times> 'w"
  io_await :: "nat \<Rightarrow> executor_state \<times> 'w \<Rightarrow> executor_reply option \<times> executor_state \<times> 'w"

definition exchange ::
    "executor_codec \<Rightarrow> 'w executor_io \<Rightarrow> nat \<Rightarrow> executor_command \<Rightarrow> json option \<Rightarrow> bool \<Rightarrow> executor_state \<times> 'w
     \<Rightarrow> executor_reply result \<times> executor_state \<times> 'w" where
  "exchange codec io task command state resident_only st =
     (case st of (s, w) \<Rightarrow>
        (case start_exchange task s of (message_id, s1) \<Rightarrow>
           (case write_server_message (server_to_vec codec) (io_put io)
                   (Command message_id \<lparr>env_command = command, env_state = state, env_resident_only = resident_only\<rparr>) (s1, w) of
              (Inl MessageTooLarge, (s2, w2)) \<Rightarrow>
                (Inr (ReplyFailed ''resource_exhausted'' too_large_message), remove_pending message_id s2, w2)
            | (Inl (WriteFailed e), (s2, w2)) \<Rightarrow>
                (Inl (Context ''send command to customer actor executor'' e), remove_pending message_id s2, w2)
            | (Inr _, st2) \<Rightarrow>
                (case io_await io task st2 of (reply, st3) \<Rightarrow>
                   (ok_or reply ''customer actor executor disconnected before replying'', st3)))))"

definition add_resident :: "actor_key \<Rightarrow> executor_state \<Rightarrow> executor_state" where
  "add_resident actor s =
     (let residents = (if card (ex_residents s) \<ge> max_residents then {} else ex_residents s)
      in s\<lparr>ex_residents := insert actor residents\<rparr>)"

text \<open>
  \<open>exch\<close> is one exchange of a command. The residency mark is taken out before the exchange and only a
  handled command puts it back.
\<close>

definition exchange_with_state ::
    "(executor_command \<Rightarrow> json option \<Rightarrow> bool \<Rightarrow> executor_state \<times> 'w \<Rightarrow> executor_reply result \<times> executor_state \<times> 'w)
     \<Rightarrow> executor_command \<Rightarrow> actor_key \<Rightarrow> json option \<Rightarrow> executor_state \<times> 'w \<Rightarrow> executor_reply result \<times> executor_state \<times> 'w" where
  "exchange_with_state exch command actor state st =
     (case st of (s, w) \<Rightarrow>
        (let resident = actor \<in> ex_residents s;
             explicit = Some (case state of None \<Rightarrow> Null | Some v \<Rightarrow> v);
             first = exch command (if resident then None else explicit) resident (s\<lparr>ex_residents := ex_residents s - {actor}\<rparr>, w)
         in case (case first of
                    (Inr StateRequired, st1) \<Rightarrow> if resident then exch command explicit False st1 else (Inr StateRequired, st1)
                  | other \<Rightarrow> other) of
              (Inl e, st2) \<Rightarrow> (Inl e, st2)
            | (Inr StateRequired, st2) \<Rightarrow> (Inl (Bail ''actor executor refused explicit hydration''), st2)
            | (Inr (Invoked res next_state effects), (s2, w2)) \<Rightarrow> (Inr (Invoked res next_state effects), add_resident actor s2, w2)
            | (Inr (WebsocketHandled next_state effects), (s2, w2)) \<Rightarrow> (Inr (WebsocketHandled next_state effects), add_resident actor s2, w2)
            | (Inr reply, st2) \<Rightarrow> (Inr reply, st2)))"

definition executor_invoke ::
    "(executor_command \<Rightarrow> json option \<Rightarrow> bool \<Rightarrow> executor_state \<times> 'w \<Rightarrow> executor_reply result \<times> executor_state \<times> 'w)
     \<Rightarrow> actor_method_invocation \<Rightarrow> executor_state \<times> 'w \<Rightarrow> actor_method_outcome result \<times> executor_state \<times> 'w" where
  "executor_invoke exch invocation st =
     (case exchange_with_state exch (Invoke (invocation\<lparr>meth_state := None\<rparr>)) (meth_actor invocation) (meth_state invocation) st of
        (reply, st') \<Rightarrow>
          (and_then reply (\<lambda>r. case r of
             Invoked res next_state effects \<Rightarrow> Inr (MethodCompleted res next_state effects)
           | ReplyFailed code message \<Rightarrow> Inr (MethodFailed \<lparr>failure_code = code, failure_message = message\<rparr>)
           | Evicted \<Rightarrow> Inl (Bail ''actor executor returned eviction reply to invocation'')
           | StateRequired \<Rightarrow> Inl (Bail ''actor executor returned eviction reply to invocation'')
           | WebsocketHandled _ _ \<Rightarrow> Inl (Bail ''actor executor returned socket reply to invocation'')), st'))"

definition executor_handle_socket ::
    "(executor_command \<Rightarrow> json option \<Rightarrow> bool \<Rightarrow> executor_state \<times> 'w \<Rightarrow> executor_reply result \<times> executor_state \<times> 'w)
     \<Rightarrow> actor_socket_invocation \<Rightarrow> executor_state \<times> 'w \<Rightarrow> actor_socket_outcome result \<times> executor_state \<times> 'w" where
  "executor_handle_socket exch invocation st =
     (case exchange_with_state exch (WebsocketEvent (invocation\<lparr>sock_state := None\<rparr>)) (sock_actor invocation) (sock_state invocation) st of
        (reply, st') \<Rightarrow>
          (and_then reply (\<lambda>r. case r of
             WebsocketHandled next_state effects \<Rightarrow> Inr (SocketHandled next_state effects)
           | ReplyFailed code message \<Rightarrow> Inr (SocketFailed \<lparr>failure_code = code, failure_message = message\<rparr>)
           | _ \<Rightarrow> Inl (Bail ''actor executor returned the wrong reply to socket event'')), st'))"

definition executor_evict ::
    "(executor_command \<Rightarrow> json option \<Rightarrow> bool \<Rightarrow> executor_state \<times> 'w \<Rightarrow> executor_reply result \<times> executor_state \<times> 'w)
     \<Rightarrow> actor_key \<Rightarrow> executor_state \<times> 'w \<Rightarrow> unit result \<times> executor_state \<times> 'w" where
  "executor_evict exch actor st =
     (case st of (s, w) \<Rightarrow>
        (case exch (Evict actor) None False (s\<lparr>ex_residents := ex_residents s - {actor}\<rparr>, w) of
           (reply, st') \<Rightarrow>
             (and_then reply (\<lambda>r. case r of
                Evicted \<Rightarrow> Inr ()
              | ReplyFailed code message \<Rightarrow> Inl (Bail (''actor executor rejected eviction ('' @ code @ ''): '' @ message))
              | Invoked _ _ _ \<Rightarrow> Inl (Bail ''actor executor returned the wrong reply to eviction'')
              | _ \<Rightarrow> Inl (Bail ''actor executor returned socket reply to eviction'')), st')))"

text \<open>\<open>close\<close> shuts the socket down, whatever that answers, and drops every waiting caller.\<close>

definition close_executor :: "executor_state \<Rightarrow> executor_state" where
  "close_executor s = disconnect s"

definition mark_ready ::
    "executor_codec \<Rightarrow> 'w executor_io \<Rightarrow> executor_state \<times> 'w \<Rightarrow> unit result \<times> executor_state \<times> 'w" where
  "mark_ready codec io st =
     (case write_server_message (server_to_vec codec) (io_put io) (Attached actor_executor_protocol_version) st of
        (Inl MessageTooLarge, st') \<Rightarrow> (Inl (Bail too_large_message), st')
      | (Inl (WriteFailed e), st') \<Rightarrow> (Inl e, st')
      | (Inr _, st') \<Rightarrow> (Inr (), st'))"

text \<open>The connection's task ends by itself, by a panic, or at a shutdown, which closes the executor.\<close>

datatype connection_end = TaskFinished "unit result" | TaskPanicked error | ShutdownRequested

definition run_connection :: "connection_end \<Rightarrow> executor_state \<Rightarrow> unit result \<times> executor_state" where
  "run_connection ended s =
     (case ended of
        TaskFinished r \<Rightarrow> (r, s)
      | TaskPanicked e \<Rightarrow> (Inl e, s)
      | ShutdownRequested \<Rightarrow> (Inr (), close_executor s))"

section \<open>Every reply reaches its caller\<close>

lemma trim_newline: "trim_ascii_end (d @ [newline]) = trim_ascii_end d"
  by (simp add: trim_ascii_end_def is_ascii_space_def newline_def)

text \<open>A frame: a document without newlines that fits, with its newline.\<close>

definition frame_of :: "(string \<Rightarrow> client_message result) \<Rightarrow> string \<Rightarrow> client_message \<Rightarrow> bool" where
  "frame_of from_slice d m \<longleftrightarrow> newline \<notin> set d \<and> length d < max_actor_executor_message_bytes \<and> from_slice (trim_ascii_end d) = Inr m"

lemma read_frame:
  assumes "frame_of from_slice d m"
  shows "read_client_message from_slice \<lparr>in_bytes = d @ newline # rest, in_broken = b\<rparr> = (Inr (Some m), \<lparr>in_bytes = rest, in_broken = b\<rparr>)"
proof -
  have len: "length d < max_actor_executor_message_bytes" and nl: "newline \<notin> set d" using assms by (auto simp: frame_of_def)
  obtain k where "max_actor_executor_message_bytes + 1 - length d = Suc k" using len by (metis Suc_diff_Suc add.commute less_Suc_eq plus_1_eq_Suc)
  then have "take (max_actor_executor_message_bytes + 1) (d @ newline # rest) = d @ newline # take k rest" using len by simp
  then have "first_line (take (max_actor_executor_message_bytes + 1) (d @ newline # rest)) = d @ [newline]"
    using first_line_append [OF nl] by simp
  with assms len show ?thesis by (simp add: read_client_message_def frame_of_def trim_newline del: take_append)
qed

text \<open>The peer's replies, each in its frame.\<close>

fun frames :: "string list \<Rightarrow> string" where
  "frames [] = []"
| "frames (d # ds) = d @ newline # frames ds"

text \<open>Distinct message ids wait for distinct callers.\<close>

lemma pending_ticket_unshared:
  assumes "inj_on p (dom p)" "p i = Some t" "i \<notin> ids" "ids \<subseteq> dom p"
  shows "t \<notin> (\<lambda>j. the (p j)) ` ids"
proof
  assume "t \<in> (\<lambda>j. the (p j)) ` ids"
  then obtain j where j: "j \<in> ids" "t = the (p j)" by blast
  with assms(4) have "p j = Some t" by auto
  with assms(1,2) have "j = i" by (metis domI inj_onD)
  with j(1) assms(3) show False by simp
qed

lemma read_loop_frames:
  assumes "list_all2 (\<lambda>d (message_id, reply). frame_of from_slice d (Reply message_id reply)) ds rs"
    and "distinct (map fst rs)" "fst ` set rs \<subseteq> dom (ex_pending s)" "inj_on (ex_pending s) (dom (ex_pending s))"
  shows "\<exists>s'. read_loop from_slice \<lparr>in_bytes = frames ds, in_broken = False\<rparr> s = (Bail ''customer JavaScript actor executor disconnected'', s') \<and>
    ex_pending s' = (\<lambda>i. if i \<in> fst ` set rs then None else ex_pending s i) \<and>
    (\<forall>i r t. (i, r) \<in> set rs \<longrightarrow> ex_pending s i = Some t \<longrightarrow> ex_outcome s' t = Some (Some r)) \<and>
    (\<forall>t. t \<notin> (\<lambda>i. the (ex_pending s i)) ` fst ` set rs \<longrightarrow> ex_outcome s' t = ex_outcome s t)"
  using assms
proof (induction ds rs arbitrary: s rule: list_all2_induct)
  case Nil
  have "read_client_message from_slice \<lparr>in_bytes = [], in_broken = False\<rparr> = (Inr None, \<lparr>in_bytes = [], in_broken = False\<rparr>)"
    by (simp add: read_client_message_def first_line_def)
  then show ?case by (subst read_loop.simps) simp
next
  case (Cons d ds x rs)
  obtain i r where x: "x = (i, r)" by fastforce
  obtain t where t: "ex_pending s i = Some t" using Cons.prems(2) x by auto
  let ?s1 = "s\<lparr>ex_pending := (ex_pending s)(i := None), ex_outcome := (ex_outcome s)(t \<mapsto> Some r)\<rparr>"
  have fresh: "i \<notin> fst ` set rs" using Cons.prems(1) x by simp
  have inj: "inj_on (ex_pending ?s1) (dom (ex_pending ?s1))"
    using Cons.prems(3) by (auto simp: inj_on_def dom_def split: if_splits)
  have "fst ` set rs \<subseteq> dom (ex_pending ?s1)" using Cons.prems(2) fresh by auto
  note ih = Cons.IH [OF _ this inj]
  obtain s' where
    run: "read_loop from_slice \<lparr>in_bytes = frames ds, in_broken = False\<rparr> ?s1 = (Bail ''customer JavaScript actor executor disconnected'', s')"
    and pend: "ex_pending s' = (\<lambda>i. if i \<in> fst ` set rs then None else ex_pending ?s1 i)"
    and got: "\<forall>j q u. (j, q) \<in> set rs \<longrightarrow> ex_pending ?s1 j = Some u \<longrightarrow> ex_outcome s' u = Some (Some q)"
    and rest: "\<forall>u. u \<notin> (\<lambda>j. the (ex_pending ?s1 j)) ` fst ` set rs \<longrightarrow> ex_outcome s' u = ex_outcome ?s1 u"
    using ih Cons.prems(1) by (auto simp del: fun_upd_apply)
  have step: "read_loop from_slice \<lparr>in_bytes = frames (d # ds), in_broken = False\<rparr> s = (Bail ''customer JavaScript actor executor disconnected'', s')"
    using Cons.hyps(1) x t run by (subst read_loop.simps) (simp add: read_frame deliver_def)
  have keys: "(\<lambda>j. the (ex_pending ?s1 j)) ` fst ` set rs = (\<lambda>j. the (ex_pending s j)) ` fst ` set rs"
    using fresh by (intro image_cong) auto
  have "t \<notin> (\<lambda>j. the (ex_pending s j)) ` fst ` set rs" using Cons.prems(2,3) t fresh by (intro pending_ticket_unshared) auto
  then have own: "ex_outcome s' t = Some (Some r)" using rest keys by simp
  show ?case
  proof (intro exI conjI allI impI)
    show "ex_pending s' = (\<lambda>j. if j \<in> fst ` set (x # rs) then None else ex_pending s j)"
      using pend x by (auto simp: fun_eq_iff)
    show "ex_outcome s' u = Some (Some q)" if "(j, q) \<in> set (x # rs)" "ex_pending s j = Some u" for j q u
      using that x t own got fresh by (cases "j = i") force+
    show "ex_outcome s' u = ex_outcome s u" if "u \<notin> (\<lambda>j. the (ex_pending s j)) ` fst ` set (x # rs)" for u
      using that rest keys x t by auto
  qed (rule step)
qed

text \<open>
  Claim C32. The reader loses nothing and strands nobody: when the actor process writes replies to
  pending commands, one frame each, and then disconnects, the reader task ends, every caller whose
  command was answered is given exactly that answer, every other waiting caller is told of the
  disconnection, and no caller is left waiting.
\<close>

theorem reader_answers_every_caller:
  assumes "list_all2 (\<lambda>d (message_id, reply). frame_of from_slice d (Reply message_id reply)) ds rs"
    and "distinct (map fst rs)" "fst ` set rs \<subseteq> dom (ex_pending s)" "inj_on (ex_pending s) (dom (ex_pending s))"
  shows "\<exists>s'. read_executor_messages from_slice \<lparr>in_bytes = frames ds, in_broken = False\<rparr> s =
      (Bail ''customer JavaScript actor executor disconnected'', s') \<and> ex_pending s' = Map.empty \<and>
    (\<forall>i t. ex_pending s i = Some t \<longrightarrow> ex_outcome s' t = Some (map_of rs i))"
proof -
  obtain s1 where run: "read_loop from_slice \<lparr>in_bytes = frames ds, in_broken = False\<rparr> s = (Bail ''customer JavaScript actor executor disconnected'', s1)"
    and pend: "ex_pending s1 = (\<lambda>i. if i \<in> fst ` set rs then None else ex_pending s i)"
    and got: "\<forall>i r t. (i, r) \<in> set rs \<longrightarrow> ex_pending s i = Some t \<longrightarrow> ex_outcome s1 t = Some (Some r)"
    using read_loop_frames [OF assms] by blast
  have "ex_outcome (disconnect s1) t = Some (map_of rs i)" if t: "ex_pending s i = Some t" for i t
  proof (cases "map_of rs i")
    case None
    then have "i \<notin> fst ` set rs" by (simp add: map_of_eq_None_iff)
    then have "t \<in> ran (ex_pending s1)" using pend t by (auto simp: ran_def)
    with None show ?thesis by (simp add: disconnect_def)
  next
    case (Some r)
    then have r: "(i, r) \<in> set rs" by (rule map_of_SomeD)
    have "ex_pending s1 j \<noteq> Some t" for j
    proof
      assume "ex_pending s1 j = Some t"
      then have "j \<notin> fst ` set rs" "ex_pending s j = Some t" using pend by (auto split: if_splits)
      with t assms(4) have "j = i" by (metis domI inj_onD)
      with r \<open>j \<notin> fst ` set rs\<close> show False by force
    qed
    then have "t \<notin> ran (ex_pending s1)" by (auto simp: ran_def)
    with got r t Some show ?thesis by (auto simp: disconnect_def)
  qed
  with run show ?thesis by (auto simp: read_executor_messages_def disconnect_def)
qed

text \<open>Two waiting callers, one of them answered.\<close>

definition sample_from_slice :: "string \<Rightarrow> client_message result" where
  "sample_from_slice d = (if d = ''evicted'' then Inr (Reply 2 Evicted) else Inl (Bail ''expected value''))"

definition two_waiting :: executor_state where
  "two_waiting = (executor_new [''counter''])\<lparr>ex_next_message_id := 3, ex_pending := [1 \<mapsto> 10, 2 \<mapsto> 20]\<rparr>"

theorem reader_answers_every_caller_witness:
  "ex_outcome (snd (read_executor_messages sample_from_slice \<lparr>in_bytes = frames [''evicted''], in_broken = False\<rparr> two_waiting)) 20 = Some (Some Evicted) \<and>
   ex_outcome (snd (read_executor_messages sample_from_slice \<lparr>in_bytes = frames [''evicted''], in_broken = False\<rparr> two_waiting)) 10 = Some None"
proof -
  have frame: "frame_of sample_from_slice ''evicted'' (Reply 2 Evicted)" by (simp add: frame_of_def) code_simp
  have pending: "ex_pending two_waiting = [1 \<mapsto> 10, 2 \<mapsto> 20]" by (simp add: two_waiting_def)
  have "\<exists>s'. read_executor_messages sample_from_slice \<lparr>in_bytes = frames [''evicted''], in_broken = False\<rparr> two_waiting =
      (Bail ''customer JavaScript actor executor disconnected'', s') \<and> ex_pending s' = Map.empty \<and>
    (\<forall>i t. ex_pending two_waiting i = Some t \<longrightarrow> ex_outcome s' t = Some (map_of [(2, Evicted)] i))"
    by (rule reader_answers_every_caller) (use frame pending in \<open>auto simp: inj_on_def split: if_splits\<close>)
  then obtain s' where run: "read_executor_messages sample_from_slice \<lparr>in_bytes = frames [''evicted''], in_broken = False\<rparr> two_waiting =
      (Bail ''customer JavaScript actor executor disconnected'', s')"
    and got: "\<And>i t. ex_pending two_waiting i = Some t \<Longrightarrow> ex_outcome s' t = Some (map_of [(2, Evicted)] i)" by blast
  show ?thesis unfolding run using got [of 1 10] got [of 2 20] by (simp add: pending)
qed

section \<open>Interleaved exchanges\<close>

text \<open>
  All tasks together: callers start exchanges and fail to write, the reader delivers and disconnects, in
  any order. \<open>tr_started\<close> and \<open>tr_received\<close> record the exchanges with their message ids and the
  replies that arrived.
\<close>

record trace =
  tr_state :: executor_state
  tr_started :: "(nat \<times> u64) list"
  tr_received :: "(u64 \<times> executor_reply) list"

inductive exec_step :: "trace \<Rightarrow> trace \<Rightarrow> bool" where
  start: "task \<notin> fst ` set (tr_started x) \<Longrightarrow> start_exchange task (tr_state x) = (i, s') \<Longrightarrow>
    exec_step x (x\<lparr>tr_state := s', tr_started := (task, i) # tr_started x\<rparr>)"
| write_failed: "exec_step x (x\<lparr>tr_state := remove_pending i (tr_state x)\<rparr>)"
| deliver: "deliver i r (tr_state x) = (res, s') \<Longrightarrow> exec_step x (x\<lparr>tr_state := s', tr_received := (i, r) # tr_received x\<rparr>)"
| disconnect: "exec_step x (x\<lparr>tr_state := disconnect (tr_state x)\<rparr>)"

inductive exec_reachable :: "trace \<Rightarrow> bool" where
  init: "exec_reachable \<lparr>tr_state = executor_new actor_types, tr_started = [], tr_received = []\<rparr>"
| step: "exec_reachable x \<Longrightarrow> exec_step x y \<Longrightarrow> exec_reachable y"

inductive_cases exec_stepE: "exec_step x y"

text \<open>Ids are drawn in order; and every exchange waits under its own id or was told its outcome.\<close>

definition ids_inv :: "trace \<Rightarrow> bool" where
  "ids_inv x \<longleftrightarrow>
     map snd (tr_started x) = rev (map word_of_nat [1..<Suc (length (tr_started x))]) \<and>
     ex_next_message_id (tr_state x) = word_of_nat (Suc (length (tr_started x))) \<and> distinct (map fst (tr_started x))"

definition routes_inv :: "trace \<Rightarrow> bool" where
  "routes_inv x \<longleftrightarrow>
     (\<forall>i t. ex_pending (tr_state x) i = Some t \<longrightarrow> (t, i) \<in> set (tr_started x)) \<and>
     (\<forall>t i. (t, i) \<in> set (tr_started x) \<longrightarrow> ex_pending (tr_state x) i = Some t \<or> ex_outcome (tr_state x) t \<noteq> None) \<and>
     (\<forall>t r. ex_outcome (tr_state x) t = Some (Some r) \<longrightarrow>
        (\<exists>i. (t, i) \<in> set (tr_started x) \<and> (i, r) \<in> set (tr_received x)))"

lemma drop_sender_simps [simp]:
  "ex_pending (drop_sender o' s) = ex_pending s" "ex_next_message_id (drop_sender o' s) = ex_next_message_id s"
  "ex_outcome (drop_sender o' s) = (case o' of None \<Rightarrow> ex_outcome s | Some t \<Rightarrow> (ex_outcome s)(t \<mapsto> None))"
  by (simp_all add: drop_sender_def split: option.splits)

lemma ids_inv_step: "ids_inv x \<Longrightarrow> exec_step x y \<Longrightarrow> ids_inv y"
  by (erule exec_stepE)
    (auto simp: ids_inv_def start_exchange_def Let_def remove_pending_def deliver_def disconnect_def split: option.splits)

lemma routes_inv_step: "routes_inv x \<Longrightarrow> exec_step x y \<Longrightarrow> routes_inv y"
proof (erule exec_stepE)
  fix task i s'
  assume inv: "routes_inv x" and y: "y = x\<lparr>tr_state := s', tr_started := (task, i) # tr_started x\<rparr>"
    and start: "start_exchange task (tr_state x) = (i, s')"
  show "routes_inv y"
  proof (cases "ex_pending (tr_state x) i")
    case None
    with start have s': "ex_pending s' = (ex_pending (tr_state x))(i \<mapsto> task)" "ex_outcome s' = ex_outcome (tr_state x)"
      by (auto simp: start_exchange_def Let_def)
    with None inv show ?thesis unfolding y routes_inv_def by (auto split: if_splits) (metis option.distinct(1))+
  next
    case (Some u)
    with start have s': "ex_pending s' = (ex_pending (tr_state x))(i \<mapsto> task)" "ex_outcome s' = (ex_outcome (tr_state x))(u \<mapsto> None)"
      by (auto simp: start_exchange_def Let_def)
    with Some inv show ?thesis unfolding y routes_inv_def by (auto split: if_splits) (metis option.distinct(1) option.inject)+
  qed
next
  fix i assume inv: "routes_inv x" and y: "y = x\<lparr>tr_state := remove_pending i (tr_state x)\<rparr>"
  then show "routes_inv y"
    by (cases "ex_pending (tr_state x) i") (auto simp: routes_inv_def remove_pending_def split: if_splits,
      (metis option.distinct(1) option.inject)+)
next
  fix i r res s'
  assume inv: "routes_inv x" and y: "y = x\<lparr>tr_state := s', tr_received := (i, r) # tr_received x\<rparr>" and d: "deliver i r (tr_state x) = (res, s')"
  show "routes_inv y"
    using inv d unfolding y
    by (cases "ex_pending (tr_state x) i") (auto simp: routes_inv_def deliver_def split: if_splits,
      (metis option.distinct(1) option.inject)+)
next
  assume inv: "routes_inv x" and y: "y = x\<lparr>tr_state := disconnect (tr_state x)\<rparr>"
  then show "routes_inv y" by (auto simp: routes_inv_def disconnect_def ran_def split: if_splits) blast
qed

lemma exec_reachable_inv: "exec_reachable x \<Longrightarrow> ids_inv x \<and> routes_inv x"
proof (induction rule: exec_reachable.induct)
  case (init actor_types)
  show ?case by (simp add: ids_inv_def routes_inv_def executor_new_def)
next
  case (step x y)
  then show ?case using ids_inv_step routes_inv_step by blast
qed

lemma ids_distinct:
  assumes "ids_inv x" "length (tr_started x) < 2 ^ 64"
  shows "distinct (map snd (tr_started x))"
proof -
  have "inj_on (word_of_nat :: nat \<Rightarrow> u64) (set [1..<Suc (length (tr_started x))])"
    using assms(2) by (auto intro!: inj_onI simp: word_of_nat_eq_iff take_bit_nat_eq_self)
  then have "distinct (map (word_of_nat :: nat \<Rightarrow> u64) [1..<Suc (length (tr_started x))])"
    by (simp add: distinct_map del: upt_Suc)
  then show ?thesis using assms(1) by (simp add: ids_inv_def del: upt_Suc)
qed

text \<open>
  Claim C11. Replies are never mixed up: in every interleaving of callers, failed writes, arriving
  replies and disconnections with fewer than \<open>2 ^ 64\<close> exchanges, a reply that a caller is given was
  received under the id of that caller's own command, which no other command carries, and every
  caller is waiting under its id or has been told its outcome.
\<close>

theorem replies_not_mixed_up:
  assumes "exec_reachable x" "length (tr_started x) < 2 ^ 64"
  shows "(\<forall>t r. ex_outcome (tr_state x) t = Some (Some r) \<longrightarrow>
      (\<exists>i. (t, i) \<in> set (tr_started x) \<and> (i, r) \<in> set (tr_received x) \<and> (\<forall>u. (u, i) \<in> set (tr_started x) \<longrightarrow> u = t))) \<and>
    (\<forall>t i. (t, i) \<in> set (tr_started x) \<longrightarrow> ex_pending (tr_state x) i = Some t \<or> ex_outcome (tr_state x) t \<noteq> None)"
proof -
  have inv: "ids_inv x" "routes_inv x" using exec_reachable_inv [OF assms(1)] by auto
  have unique: "t = u" if "(t, i) \<in> set (tr_started x)" "(u, i) \<in> set (tr_started x)" for t u i
    using ids_distinct [OF inv(1) assms(2)] that by (metis distinct_map inj_onD prod.inject snd_conv)
  show ?thesis using inv(2) unique unfolding routes_inv_def by metis
qed

text \<open>One caller waits, its reply arrives.\<close>

definition answered_trace :: trace where
  "answered_trace = \<lparr>tr_state = snd (deliver 1 Evicted (snd (start_exchange 10 (executor_new [''counter''])))),
     tr_started = [(10, 1)], tr_received = [(1, Evicted)]\<rparr>"

lemma answered_trace_reachable: "exec_reachable answered_trace"
proof -
  let ?x0 = "\<lparr>tr_state = executor_new [''counter''], tr_started = [], tr_received = []\<rparr> :: trace"
  let ?s1 = "snd (start_exchange 10 (executor_new [''counter'']))"
  let ?x1 = "?x0\<lparr>tr_state := ?s1, tr_started := [(10, 1)]\<rparr>"
  have "exec_step ?x0 (?x0\<lparr>tr_state := ?s1, tr_started := (10, 1) # tr_started ?x0\<rparr>)"
    by (rule exec_step.start) (simp_all add: start_exchange_def executor_new_def Let_def)
  then have one: "exec_step ?x0 ?x1" by simp
  have "exec_step ?x1 (?x1\<lparr>tr_state := snd (deliver 1 Evicted (tr_state ?x1)), tr_received := (1, Evicted) # tr_received ?x1\<rparr>)"
    by (rule exec_step.deliver [where res = "fst (deliver 1 Evicted (tr_state ?x1))"]) simp
  then have two: "exec_step ?x1 answered_trace" by (simp add: answered_trace_def)
  show ?thesis by (rule exec_reachable.step [OF exec_reachable.step [OF exec_reachable.init one] two])
qed

theorem replies_not_mixed_up_witness:
  "ex_outcome (tr_state answered_trace) 10 = Some (Some Evicted) \<and> (\<exists>i. (10, i) \<in> set (tr_started answered_trace) \<and> (i, Evicted) \<in> set (tr_received answered_trace))"
proof -
  have few: "length (tr_started answered_trace) < 2 ^ 64" by (simp add: answered_trace_def)
  have out: "ex_outcome (tr_state answered_trace) 10 = Some (Some Evicted)"
    by (simp add: answered_trace_def deliver_def start_exchange_def executor_new_def Let_def)
  with replies_not_mixed_up [OF answered_trace_reachable few] show ?thesis by blast
qed

section \<open>Residency\<close>

text \<open>
  The actor process (\<^verbatim>\<open>npm/host/worker/supervisor.ts\<close> and \<^verbatim>\<open>runtime.ts\<close>): a memory of actor instances,
  each by its state, and the code of its actors, which maps a command and a state to a reply.
  \<open>proc_runs\<close> records what actors ran on. The parameters are \<open>code\<close>, \<open>forgets\<close> (the actors the process drops
  by itself before a command: idle or least recently used), \<open>admits\<close> (whether there is room for another
  actor) and \<open>lost\<close> (whether the reply fails to arrive).
\<close>

record process =
  proc_memory :: "actor_key \<rightharpoonup> json"
  proc_runs :: "(actor_key \<times> json) list"






definition forget :: "actor_key set \<Rightarrow> process \<Rightarrow> process" where
  "forget actors p = p\<lparr>proc_memory := (\<lambda>a. if a \<in> actors then None else proc_memory p a)\<rparr>"





lemma proc_runs_forget [simp]: "proc_runs (forget actors p) = proc_runs p"
  by (simp add: forget_def)











end
