(* ===== verification/Database.thy ===== *)
theory Database
  imports Prelude
begin

text \<open>
  The PostgreSQL tables of \<^verbatim>\<open>migrations/\<close> that the stores read and update. One SQL statement is
  one atomic function on the tables; a failed statement leaves them as they were. \<^verbatim>\<open>BIGINT\<close>
  arithmetic raises an error outside the 64-bit range and the \<^verbatim>\<open>CHECK\<close> constraints of the
  columns are checked where a row is written. The \<^verbatim>\<open>updated_at\<close> columns are never read.
\<close>

record lease_row =
  lr_session_id :: string
  lr_route :: string
  lr_expires_at_ms :: i64

record placement_row =
  pr_owner_host_id :: string
  pr_owner_epoch :: i64
  pr_home_region :: string
  pr_state_version :: i64
  pr_state_object :: "string option"
  pr_last_request_id :: "string option"

record spec_row =
  sr_code_revision :: string
  sr_image_ref :: string
  sr_working_directory :: string
  sr_actor_entrypoint :: "string option"

record database =
  db_leases :: "string \<rightharpoonup> lease_row"
  db_placements :: "string \<rightharpoonup> placement_row"
  db_namespaces :: "string set"
  db_specs :: "string \<rightharpoonup> spec_row"

definition empty_database :: database where
  "empty_database = \<lparr>db_leases = Map.empty, db_placements = Map.empty, db_namespaces = {}, db_specs = Map.empty\<rparr>"

definition bigint_add :: "i64 \<Rightarrow> i64 \<Rightarrow> i64 result" where
  "bigint_add a b = (if i64_ok (a + b) then Inr (a + b) else Inl (Bail ''bigint out of range''))"

definition check_constraint :: "bool \<Rightarrow> unit result" where
  "check_constraint b = (if b then Inr () else Inl (Bail ''new row violates check constraint''))"

lemma bigint_add_Inr [simp]: "bigint_add a b = Inr c \<longleftrightarrow> i64_ok (a + b) \<and> c = a + b"
  by (auto simp: bigint_add_def)

lemma check_constraint_Inr [simp]: "check_constraint b = Inr u \<longleftrightarrow> b"
  by (simp add: check_constraint_def)

section \<open>What the constraints keep\<close>

definition lease_row_ok :: "lease_row \<Rightarrow> bool" where
  "lease_row_ok row \<longleftrightarrow> 0 < lr_expires_at_ms row \<and> i64_ok (lr_expires_at_ms row)"

definition placement_row_ok :: "placement_row \<Rightarrow> bool" where
  "placement_row_ok row \<longleftrightarrow>
     0 < pr_owner_epoch row \<and> i64_ok (pr_owner_epoch row) \<and>
     0 \<le> pr_state_version row \<and> i64_ok (pr_state_version row)"

definition db_ok :: "database \<Rightarrow> bool" where
  "db_ok db \<longleftrightarrow>
     (\<forall>h row. db_leases db h = Some row \<longrightarrow> lease_row_ok row) \<and>
     (\<forall>k row. db_placements db k = Some row \<longrightarrow> placement_row_ok row) \<and>
     dom (db_specs db) \<subseteq> db_namespaces db"

lemma db_ok_lease: "db_ok db \<Longrightarrow> db_leases db h = Some row \<Longrightarrow> lease_row_ok row"
  by (auto simp: db_ok_def)

lemma db_ok_placement: "db_ok db \<Longrightarrow> db_placements db k = Some row \<Longrightarrow> placement_row_ok row"
  by (auto simp: db_ok_def)

lemma db_ok_empty [simp]: "db_ok empty_database"
  by (simp add: db_ok_def empty_database_def)

lemma db_ok_lease_upd:
  "db_ok db \<Longrightarrow> lease_row_ok row \<Longrightarrow> db_ok (db\<lparr>db_leases := (db_leases db)(h \<mapsto> row)\<rparr>)"
  by (auto simp: db_ok_def)

lemma db_ok_lease_del: "db_ok db \<Longrightarrow> db_ok (db\<lparr>db_leases := (db_leases db)(h := None)\<rparr>)"
  by (auto simp: db_ok_def)

lemma db_ok_placement_upd:
  "db_ok db \<Longrightarrow> placement_row_ok row \<Longrightarrow> db_ok (db\<lparr>db_placements := (db_placements db)(k \<mapsto> row)\<rparr>)"
  by (auto simp: db_ok_def)

lemmas db_ok_intros = db_ok_lease_upd db_ok_lease_del db_ok_placement_upd

end
