(* ===== verification/Host_Leases.thy ===== *)
theory Host_Leases
  imports Database Actor_Protocol
begin

text \<open>
  Host leases (\<^verbatim>\<open>src/host_leases.rs\<close>, \<^verbatim>\<open>src/host_leases/postgres.rs\<close>): requests, the lease
  status as the store's clock sees it, and the three statements of the PostgreSQL store. The
  registry interface is the locale \<^verbatim>\<open>lease_registry\<close>, whose client lemma is that a session keeps
  its lease against any sequence of operations of other sessions until it expires.
\<close>

abbreviation max_host_lease_duration_ms :: u64 where "max_host_lease_duration_ms \<equiv> 60000"

record host_lease =
  lease_id :: host_id
  lease_session_id :: string
  lease_route :: string
  lease_expires_at_ms :: u64

record host_lease_request =
  lreq_id :: host_id
  lreq_session_id :: string
  lreq_route :: string
  lreq_duration_ms :: u64

definition validate_duration :: "host_lease_request \<Rightarrow> unit result" where
  "validate_duration request =
     and_then (ensure (0 < lreq_duration_ms request) ''host lease duration must be positive'') (\<lambda>_.
     ensure (lreq_duration_ms request \<le> max_host_lease_duration_ms)
       ''host lease duration must not exceed 60000ms'')"

record host_lease_status =
  status_lease :: "host_lease option"
  status_store_now_ms :: u64

definition is_active :: "host_lease_status \<Rightarrow> bool" where
  "is_active status = (case status_lease status of
     None \<Rightarrow> False | Some lease \<Rightarrow> lease_expires_at_ms lease > status_store_now_ms status)"

section \<open>The PostgreSQL store\<close>

text \<open>
  \<^verbatim>\<open>clock_timestamp()\<close> is read where the statement evaluates it: first for the expiration of the
  proposed row, then for the guard of the conflict branch.
\<close>

definition register_statement ::
    "i64 \<Rightarrow> i64 \<Rightarrow> string \<Rightarrow> string \<Rightarrow> string \<Rightarrow> i64 \<Rightarrow> database \<Rightarrow> i64 option result \<times> database" where
  "register_statement now_value now_guard host_id session_id route duration_ms db =
     (case and_then (bigint_add now_value duration_ms) (\<lambda>expires.
             and_then (check_constraint (0 < expires)) (\<lambda>_. Inr expires)) of
        Inl e \<Rightarrow> (Inl e, db)
      | Inr expires \<Rightarrow>
          let row = \<lparr>lr_session_id = session_id, lr_route = route, lr_expires_at_ms = expires\<rparr> in
          let written = db\<lparr>db_leases := (db_leases db)(host_id \<mapsto> row)\<rparr> in
          (case db_leases db host_id of
             None \<Rightarrow> (Inr (Some expires), written)
           | Some current \<Rightarrow>
               if lr_session_id current = session_id \<or> lr_expires_at_ms current \<le> now_guard
               then (Inr (Some expires), written)
               else (Inr None, db)))"

definition register ::
    "i64 \<Rightarrow> i64 \<Rightarrow> host_lease_request \<Rightarrow> database \<Rightarrow> host_lease result \<times> database" where
  "register now_value now_guard request db =
     (case validate_duration request of
        Inl e \<Rightarrow> (Inl e, db)
      | Inr _ \<Rightarrow>
          (case register_statement now_value now_guard (host_str (lreq_id request)) (lreq_session_id request)
                  (lreq_route request) (uint (lreq_duration_ms request)) db of
             (r, db') \<Rightarrow>
               (and_then (with_context r ''register PostgreSQL host lease'') (\<lambda>row.
                and_then (ok_or row ''host lease is held by a different active session'') (\<lambda>expires.
                and_then (ok_or (u64_of_i64 expires) ''PostgreSQL host lease expiration is negative'') (\<lambda>expires_at_ms.
                Inr \<lparr>lease_id = lreq_id request, lease_session_id = lreq_session_id request,
                     lease_route = lreq_route request, lease_expires_at_ms = expires_at_ms\<rparr>))), db')))"

definition unregister :: "host_id \<Rightarrow> string \<Rightarrow> database \<Rightarrow> unit result \<times> database" where
  "unregister ident session_id db =
     (case db_leases db (host_str ident) of
        Some row \<Rightarrow>
          if lr_session_id row = session_id
          then (Inr (), db\<lparr>db_leases := (db_leases db)(host_str ident := None)\<rparr>)
          else (Inr (), db)
      | None \<Rightarrow> (Inr (), db))"

definition lease_status :: "i64 \<Rightarrow> host_id \<Rightarrow> database \<Rightarrow> host_lease_status result" where
  "lease_status now ident db =
     and_then (ok_or (u64_of_i64 now) ''PostgreSQL lease-store clock is before the Unix epoch'') (\<lambda>store_now_ms.
     case db_leases db (host_str ident) of
       None \<Rightarrow> Inr \<lparr>status_lease = None, status_store_now_ms = store_now_ms\<rparr>
     | Some row \<Rightarrow>
         and_then (ok_or (u64_of_i64 (lr_expires_at_ms row)) ''PostgreSQL host lease expiration is negative'')
           (\<lambda>expires_at_ms.
             Inr \<lparr>status_lease = Some \<lparr>lease_id = ident, lease_session_id = lr_session_id row,
                    lease_route = lr_route row, lease_expires_at_ms = expires_at_ms\<rparr>,
                  status_store_now_ms = store_now_ms\<rparr>))"

section \<open>Behaviour of the statements\<close>

text \<open>A lease held by an unexpired session, as the table records it.\<close>

definition holds_lease :: "database \<Rightarrow> host_id \<Rightarrow> string \<Rightarrow> i64 \<Rightarrow> bool" where
  "holds_lease db ident session expires \<longleftrightarrow>
     (\<exists>row. db_leases db (host_str ident) = Some row \<and> lr_session_id row = session \<and> lr_expires_at_ms row = expires)"

lemma duration_bounds:
  "validate_duration request = Inr u \<Longrightarrow> 0 < uint (lreq_duration_ms request) \<and> uint (lreq_duration_ms request) \<le> 60000"
  by (auto simp: validate_duration_def word_less_def word_le_def split: if_splits)

lemma register_Inr:
  assumes "register nv ng request db = (Inr lease, db')"
  shows "validate_duration request = Inr ()"
    "db' = db\<lparr>db_leases := (db_leases db)(host_str (lreq_id request) \<mapsto>
       \<lparr>lr_session_id = lreq_session_id request, lr_route = lreq_route request,
        lr_expires_at_ms = nv + uint (lreq_duration_ms request)\<rparr>)\<rparr>"
    "lease = \<lparr>lease_id = lreq_id request, lease_session_id = lreq_session_id request,
       lease_route = lreq_route request, lease_expires_at_ms = word_of_int (nv + uint (lreq_duration_ms request))\<rparr>"
    "0 < nv + uint (lreq_duration_ms request)" "i64_ok (nv + uint (lreq_duration_ms request))"
    "\<forall>row. db_leases db (host_str (lreq_id request)) = Some row \<longrightarrow>
       lr_session_id row = lreq_session_id request \<or> lr_expires_at_ms row \<le> ng"
  using assms
  by (auto simp: register_def register_statement_def Let_def result_simps u64_of_i64_def
      split: sum.splits option.splits if_splits)

lemma register_Inl: "register nv ng request db = (Inl e, db') \<Longrightarrow> db' = db"
  by (auto simp: register_def register_statement_def Let_def u64_of_i64_def result_simps
      split: sum.splits option.splits if_splits prod.splits)

lemma register_db_ok: "db_ok db \<Longrightarrow> db_ok (snd (register nv ng request db))"
proof (cases "register nv ng request db")
  case (Pair r db')
  assume ok: "db_ok db"
  show ?thesis
  proof (cases r)
    case (Inr lease)
    with Pair have "register nv ng request db = (Inr lease, db')" by simp
    from register_Inr [OF this] ok Pair show ?thesis
      by (auto intro!: db_ok_intros simp: lease_row_ok_def)
  qed (use ok Pair in \<open>auto dest: register_Inl\<close>)
qed

lemma unregister_db_ok: "db_ok db \<Longrightarrow> db_ok (snd (unregister ident session db))"
  by (auto simp: unregister_def intro: db_ok_intros split: option.splits)

text \<open>
  The status a reader gets is active exactly when the table holds an unexpired row
  for the host at the store's clock, and then the lease in the status is that row.
\<close>

theorem lease_status_active_iff:
  assumes "db_ok db" "0 \<le> now" "i64_ok now"
  shows "(\<exists>status. lease_status now ident db = Inr status \<and> is_active status \<and>
           map_option lease_session_id (status_lease status) = Some session)
     \<longleftrightarrow> (\<exists>expires. holds_lease db ident session expires \<and> now < expires)"
proof (cases "db_leases db (host_str ident)")
  case (Some row)
  with assms have row: "0 < lr_expires_at_ms row" "i64_ok (lr_expires_at_ms row)"
    by (auto dest: db_ok_lease simp: lease_row_ok_def)
  with assms Some show ?thesis
    by (auto simp: lease_status_def is_active_def holds_lease_def u64_of_i64_def u64_of_i64_less)
qed (use assms in \<open>auto simp: lease_status_def is_active_def holds_lease_def u64_of_i64_def\<close>)

definition sample_lease_db :: database where
  "sample_lease_db = empty_database\<lparr>db_leases := [''host-a'' \<mapsto>
     \<lparr>lr_session_id = ''s1'', lr_route = ''https://a'', lr_expires_at_ms = 31000\<rparr>]\<rparr>"

lemma sample_lease_db_ok [simp]: "db_ok sample_lease_db"
  unfolding db_ok_def by (simp add: sample_lease_db_def empty_database_def lease_row_ok_def i64_ok_def)

theorem lease_status_active_iff_witness:
  "\<exists>status. lease_status 1000 (HostId ''host-a'') sample_lease_db = Inr status \<and> is_active status \<and>
     map_option lease_session_id (status_lease status) = Some ''s1''"
  using lease_status_active_iff [OF sample_lease_db_ok, of 1000 "HostId ''host-a''" "''s1''"]
  by (simp add: i64_ok_def holds_lease_def) (simp add: sample_lease_db_def)

section \<open>The registry interface\<close>

datatype lease_op =
    RegisterOp i64 i64 host_lease_request
  | UnregisterOp host_id string

fun op_target :: "lease_op \<Rightarrow> host_id" where
  "op_target (RegisterOp nv ng request) = lreq_id request"
| "op_target (UnregisterOp ident session) = ident"

fun op_by :: "lease_op \<Rightarrow> string" where
  "op_by (RegisterOp nv ng request) = lreq_session_id request"
| "op_by (UnregisterOp ident session) = session"

fun op_before :: "i64 \<Rightarrow> lease_op \<Rightarrow> bool" where
  "op_before t (RegisterOp nv ng request) = (ng < t)"
| "op_before t (UnregisterOp ident session) = True"

text \<open>
  What a client of the registry relies on. \<open>held s h q t\<close>: session \<open>q\<close> holds host \<open>h\<close> until
  \<open>t\<close>. A registration of another session fails while the lease is unexpired, and no operation
  touches another host's lease.
\<close>

locale lease_registry =
  fixes held :: "'s \<Rightarrow> host_id \<Rightarrow> string \<Rightarrow> i64 \<Rightarrow> bool"
    and reg :: "i64 \<Rightarrow> i64 \<Rightarrow> host_lease_request \<Rightarrow> 's \<Rightarrow> host_lease result \<times> 's"
    and unreg :: "host_id \<Rightarrow> string \<Rightarrow> 's \<Rightarrow> unit result \<times> 's"
  assumes held_unique: "held s h q t \<Longrightarrow> held s h q' t' \<Longrightarrow> q' = q \<and> t' = t"
    and reg_fenced: "held s (lreq_id r) q t \<Longrightarrow> q \<noteq> lreq_session_id r \<Longrightarrow> ng < t \<Longrightarrow>
          \<not> is_ok (fst (reg nv ng r s))"
    and reg_failed: "\<not> is_ok (fst (reg nv ng r s)) \<Longrightarrow> snd (reg nv ng r s) = s"
    and reg_granted: "is_ok (fst (reg nv ng r s)) \<Longrightarrow>
          held (snd (reg nv ng r s)) (lreq_id r) (lreq_session_id r) (nv + uint (lreq_duration_ms r))"
    and reg_frame: "h \<noteq> lreq_id r \<Longrightarrow> held (snd (reg nv ng r s)) h q t = held s h q t"
    and unreg_frame: "h \<noteq> h' \<or> q \<noteq> q' \<Longrightarrow> held s h q t \<Longrightarrow> held (snd (unreg h' q' s)) h q t"
begin

fun apply_op :: "lease_op \<Rightarrow> 's \<Rightarrow> 's" where
  "apply_op (RegisterOp nv ng request) s = snd (reg nv ng request s)"
| "apply_op (UnregisterOp ident session) s = snd (unreg ident session s)"

lemma apply_op_keeps:
  assumes "held s h q t" "op_target x = h \<Longrightarrow> op_by x \<noteq> q \<and> op_before t x"
  shows "held (apply_op x s) h q t"
proof (cases x)
  case (RegisterOp nv ng r)
  show ?thesis
  proof (cases "lreq_id r = h")
    case True
    with assms RegisterOp have "\<not> is_ok (fst (reg nv ng r s))" by (intro reg_fenced) auto
    then have "snd (reg nv ng r s) = s" by (rule reg_failed)
    with assms RegisterOp show ?thesis by simp
  qed (use assms RegisterOp reg_frame in auto)
next
  case (UnregisterOp h' q')
  with assms show ?thesis using unreg_frame [of h h' q q' s t] by auto
qed

lemma run_keeps:
  "held s h q t \<Longrightarrow> \<forall>x \<in> set ops. op_target x = h \<longrightarrow> op_by x \<noteq> q \<and> op_before t x \<Longrightarrow>
   held (fold apply_op ops s) h q t"
  by (induction ops arbitrary: s) (auto intro: apply_op_keeps)

lemma granted_run_exclusive:
  assumes "is_ok (fst (reg nv ng r s))"
    and "\<forall>x \<in> set ops. op_target x = lreq_id r \<longrightarrow>
      op_by x \<noteq> lreq_session_id r \<and> op_before (nv + uint (lreq_duration_ms r)) x"
    and "held (fold apply_op ops (snd (reg nv ng r s))) (lreq_id r) q t"
  shows "q = lreq_session_id r"
  using run_keeps [OF reg_granted [OF assms(1)] assms(2)] held_unique [OF _ assms(3)] by blast

end

lemma holds_lease_upd:
  "holds_lease (db\<lparr>db_leases := (db_leases db)(h \<mapsto> row)\<rparr>) ident q t \<longleftrightarrow>
     (if host_str ident = h then lr_session_id row = q \<and> lr_expires_at_ms row = t else holds_lease db ident q t)"
  by (auto simp: holds_lease_def)

text \<open>The PostgreSQL store provides the interface.\<close>

interpretation pg_leases: lease_registry holds_lease register unregister
proof (unfold_locales, goal_cases)
  case (1 s h q t q' t')
  then show ?case by (auto simp: holds_lease_def)
next
  case (2 s r q t ng nv)
  show ?case
  proof
    assume "is_ok (fst (register nv ng r s))"
    then obtain lease s' where "register nv ng r s = (Inr lease, s')"
      by (cases "register nv ng r s") (auto simp: is_ok_iff)
    from register_Inr(6) [OF this] 2 show False by (auto simp: holds_lease_def)
  qed
next
  case (3 nv ng r s)
  then show ?case
    by (cases "register nv ng r s"; cases "fst (register nv ng r s)") (auto dest: register_Inl)
next
  case (4 nv ng r s)
  then obtain lease s' where "register nv ng r s = (Inr lease, s')"
    by (cases "register nv ng r s") (auto simp: is_ok_iff)
  from register_Inr(2) [OF this] this show ?case by (simp add: holds_lease_upd)
next
  case (5 h r nv ng s q t)
  then show ?case
    by (cases "register nv ng r s"; cases "fst (register nv ng r s)")
      (auto dest!: register_Inr(2) register_Inl simp: holds_lease_upd)
next
  case (6 h h' q q' s t)
  then show ?case
    by (auto simp: unregister_def holds_lease_def split: option.splits)
qed

fun lease_apply :: "lease_op \<Rightarrow> database \<Rightarrow> database" where
  "lease_apply (RegisterOp nv ng request) db = snd (register nv ng request db)"
| "lease_apply (UnregisterOp ident session) db = snd (unregister ident session db)"

lemma lease_apply_eq: "lease_apply = pg_leases.apply_op"
proof (intro ext)
  show "lease_apply x db = pg_leases.apply_op x db" for x db by (cases x) simp_all
qed

text \<open>
  Claim C26. Lease exclusivity: after a session registers a host, no sequence of registrations
  and unregistrations by other sessions, each guarded while the lease is unexpired on the store's
  clock, makes another session the holder.
\<close>

theorem lease_exclusive:
  assumes "is_ok (fst (register nv ng request db))"
    and "\<forall>x \<in> set ops. op_target x = lreq_id request \<longrightarrow>
      op_by x \<noteq> lreq_session_id request \<and> op_before (nv + uint (lreq_duration_ms request)) x"
    and "holds_lease (fold lease_apply ops (snd (register nv ng request db))) (lreq_id request) session expires"
  shows "session = lreq_session_id request"
  using assms unfolding lease_apply_eq by (rule pg_leases.granted_run_exclusive)

definition sample_request :: "string \<Rightarrow> host_lease_request" where
  "sample_request session = \<lparr>lreq_id = HostId ''host-a'', lreq_session_id = session,
     lreq_route = ''https://a'', lreq_duration_ms = 30000\<rparr>"

theorem lease_exclusive_witness:
  "\<exists>expires. holds_lease (fold lease_apply [RegisterOp 2000 2000 (sample_request ''s2''), UnregisterOp (HostId ''host-a'') ''s3'']
     (snd (register 1000 1000 (sample_request ''s1'') empty_database))) (HostId ''host-a'') ''s1'' expires"
proof -
  let ?db = "snd (register 1000 1000 (sample_request ''s1'') empty_database)"
  let ?ops = "[RegisterOp 2000 2000 (sample_request ''s2''), UnregisterOp (HostId ''host-a'') ''s3'']"
  note evals = sample_request_def register_def register_statement_def validate_duration_def u64_of_i64_def
    i64_ok_def empty_database_def bigint_add_def check_constraint_def word_less_def word_le_def unregister_def
  have granted: "is_ok (fst (register 1000 1000 (sample_request ''s1'') empty_database))"
    by (simp add: evals)
  have "\<exists>q t. holds_lease (fold lease_apply ?ops ?db) (HostId ''host-a'') q t"
    by (simp add: evals holds_lease_def)
  then obtain q t where q: "holds_lease (fold lease_apply ?ops ?db) (HostId ''host-a'') q t" by blast
  have "q = ''s1''"
    using lease_exclusive [OF granted, of ?ops q t] q by (simp add: sample_request_def)
  with q show ?thesis by blast
qed

end
