(* ===== verification/Storage_Urls.thy ===== *)
theory Storage_Urls
  imports Actor_Protocol
begin

text \<open>
  Immutable snapshot objects and the signed capabilities that read and create them
  (\<^verbatim>\<open>src/storage_urls.rs\<close>, and \<^verbatim>\<open>validate_region\<close> of \<^verbatim>\<open>src/placement.rs\<close>). Signing
  is Google Cloud code and is a parameter of the operations that use it, as are the random
  nonce and the clock. The lemmas show that the name the control plane accepts in a commit is
  exactly a name it could have issued for that actor and version, and that names identify actor,
  version and nonce.
\<close>

section \<open>Regions and buckets\<close>

definition region_char :: "char \<Rightarrow> bool" where
  "region_char c \<longleftrightarrow>
     is_ascii_lowercase c \<or> is_ascii_digit c \<or> c = CHR ''.'' \<or> c = CHR ''_'' \<or> c = CHR ''-''"

definition validate_region :: "string \<Rightarrow> unit result" where
  "validate_region region =
     ensure (region \<noteq> [] \<and> length region \<le> 64 \<and> (\<forall>c \<in> set region. region_char c))
       ''sandbox region is invalid''"

text \<open>The bucket map is listed in the map's iteration order, one entry per region.\<close>

type_synonym buckets = "(string \<times> string) list"

definition validate_bucket :: "string \<times> string \<Rightarrow> unit result" where
  "validate_bucket entry =
     (case entry of (region, bucket) \<Rightarrow>
       and_then (validate_region region) (\<lambda>_.
       ensure (bucket \<noteq> [] \<and> is_trimmed bucket \<and> length bucket \<le> 222 \<and> CHR ''/'' \<notin> set bucket)
         (''Standard bucket for region '' @ region @ '' is invalid'')))"

definition validate_buckets :: "buckets \<Rightarrow> unit result" where
  "validate_buckets buckets =
     and_then (ensure (buckets \<noteq> []) ''Standard bucket map must not be empty'') (\<lambda>_.
     check_all validate_bucket buckets)"

section \<open>Object names\<close>

definition validate_object_name :: "string \<Rightarrow> unit result" where
  "validate_object_name object_name =
     ensure (prefix ''snapshots/'' object_name \<and> length object_name \<le> 1024 \<and> \<not> has_control object_name)
       ''actor state object name is invalid''"

definition nonce_ok :: "string \<Rightarrow> bool" where
  "nonce_ok nonce \<longleftrightarrow> length nonce = 32 \<and> (\<forall>c \<in> set nonce. is_ascii_hexdigit c)"

definition snapshot_object_name :: "actor_key \<Rightarrow> u64 \<Rightarrow> string \<Rightarrow> string result" where
  "snapshot_object_name actor state_version nonce =
     and_then (actor_validate actor) (\<lambda>_.
     and_then (ensure (0 < state_version) ''actor state version must be positive'') (\<lambda>_.
     and_then (ensure (nonce_ok nonce) ''actor state object nonce is invalid'') (\<lambda>_.
     Inr (''snapshots/'' @ take 2 nonce @ ''/'' @ nonce @ ''/'' @ namespace_id actor @ ''/''
          @ actor_type actor @ ''/'' @ actor_id actor @ ''/'' @ show_u64 state_version @ ''.json''))))"

definition validate_snapshot_object_name :: "actor_key \<Rightarrow> u64 \<Rightarrow> string \<Rightarrow> unit result" where
  "validate_snapshot_object_name actor state_version object_name =
     and_then (validate_object_name object_name) (\<lambda>_.
     ensure
       (case split_on (CHR ''/'') object_name of
          [root, prefix_part, nonce, ns, ty, ident, leaf] \<Rightarrow>
            root = ''snapshots'' \<and>
            prefix prefix_part nonce \<and> length prefix_part = 2 \<and> nonce_ok nonce \<and>
            ns = namespace_id actor \<and> ty = actor_type actor \<and> ident = actor_id actor \<and>
            leaf = show_u64 state_version @ ''.json''
        | _ \<Rightarrow> False)
       ''actor state object name does not match its commit'')"

section \<open>Signed capabilities\<close>

record state_write_ticket =
  ticket_state_version :: u64
  ticket_object_name :: string
  ticket_url :: string
  ticket_expires_at_ms :: i64

datatype http_method = GET | PUT

text \<open>What the source hands to \<^verbatim>\<open>SignedUrlBuilder\<close>.\<close>

record signed_url_request =
  sign_bucket :: string
  sign_object :: string
  sign_method :: http_method
  sign_ttl_secs :: nat
  sign_headers :: "(string \<times> string) list"
  sign_query :: "(string \<times> string) list"

type_synonym url_signer = "signed_url_request \<Rightarrow> string result"

abbreviation signed_url_ttl_secs :: nat where "signed_url_ttl_secs \<equiv> 60"
abbreviation state_content_type :: string where "state_content_type \<equiv> ''application/json''"

definition bucket :: "buckets \<Rightarrow> string \<Rightarrow> string result" where
  "bucket buckets region =
     and_then (validate_region region) (\<lambda>_.
     ok_or (map_option (\<lambda>b. ''projects/_/buckets/'' @ b) (map_of buckets region))
       (''sandbox region '' @ region @ '' has no Standard bucket''))"

definition read_url :: "buckets \<Rightarrow> url_signer \<Rightarrow> string \<Rightarrow> string \<Rightarrow> string result" where
  "read_url buckets sign region object_name =
     and_then (validate_object_name object_name) (\<lambda>_.
     and_then (bucket buckets region) (\<lambda>b.
     with_context
       (sign \<lparr>sign_bucket = b, sign_object = object_name, sign_method = GET,
              sign_ttl_secs = signed_url_ttl_secs, sign_headers = [], sign_query = []\<rparr>)
       ''sign GCS actor-state read URL''))"

definition write_ticket ::
    "buckets \<Rightarrow> url_signer \<Rightarrow> string \<Rightarrow> i64 result \<Rightarrow> string \<Rightarrow> actor_key \<Rightarrow> u64 \<Rightarrow> state_write_ticket result" where
  "write_ticket buckets sign nonce unix_millis region actor state_version =
     and_then (actor_validate actor) (\<lambda>_.
     and_then (ensure (0 < state_version) ''actor state version must be positive'') (\<lambda>_.
     and_then (snapshot_object_name actor state_version nonce) (\<lambda>object_name.
     and_then unix_millis (\<lambda>now.
     and_then (ok_or (i64_checked (now + 1000 * int signed_url_ttl_secs))
       ''signed state-write URL expiration overflow'') (\<lambda>expires_at_ms.
     and_then (bucket buckets region) (\<lambda>b.
     and_then (with_context
       (sign \<lparr>sign_bucket = b, sign_object = object_name, sign_method = PUT,
              sign_ttl_secs = signed_url_ttl_secs,
              sign_headers = [(''content-type'', state_content_type)],
              sign_query = [(''ifGenerationMatch'', ''0'')]\<rparr>)
       ''sign GCS actor-state write URL'') (\<lambda>url.
     Inr \<lparr>ticket_state_version = state_version, ticket_object_name = object_name,
          ticket_url = url, ticket_expires_at_ms = expires_at_ms\<rparr>)))))))"

definition regions :: "buckets \<Rightarrow> string list" where
  "regions buckets = sort (map fst buckets)"

section \<open>Names identify what they store\<close>

lemma validate_region_iff [result_simps]:
  "validate_region r = Inr u \<longleftrightarrow> r \<noteq> [] \<and> length r \<le> 64 \<and> (\<forall>c \<in> set r. region_char c)"
  by (simp add: validate_region_def)

lemma hexdigit_component: "is_ascii_hexdigit c \<Longrightarrow> component_char c"
  by (auto simp: component_char_def ascii_defs)

lemma digit_component: "is_ascii_digit c \<Longrightarrow> component_char c"
  by (auto simp: component_char_def ascii_defs)

lemma nonce_component: "nonce_ok nonce \<Longrightarrow> \<forall>c \<in> set nonce. component_char c"
  by (auto simp: nonce_ok_def intro: hexdigit_component)

lemma leaf_component: "\<forall>c \<in> set (show_nat n @ ''.json''). component_char c"
  using show_nat_digits digit_component by (auto simp: component_char_def ascii_defs)

lemma actor_components:
  assumes "actor_validate k = Inr ()"
  shows "\<forall>c \<in> set (namespace_id k). component_char c" "\<forall>c \<in> set (actor_type k). component_char c"
    "\<forall>c \<in> set (actor_id k). component_char c"
  using assms by (auto simp: actor_validate_def result_simps)

lemma length_show_nat: "n < 10 ^ k \<Longrightarrow> 0 < k \<Longrightarrow> length (show_nat n) \<le> k"
proof (induction n arbitrary: k rule: show_nat.induct)
  case (1 n)
  show ?case
  proof (cases "n < 10")
    case False
    obtain j where k: "k = Suc j" using "1.prems" by (cases k) auto
    with "1.prems" False have j: "0 < j" by (cases j) auto
    from k "1.prems" have "n div 10 < 10 ^ j" by (simp add: less_mult_imp_div_less mult.commute)
    from "1.IH" [OF False this j] k False show ?thesis by (simp add: show_nat.simps [of n])
  qed (use "1.prems" in \<open>simp add: show_nat.simps [of n]\<close>)
qed

lemma split_snapshot_name:
  assumes "actor_validate k = Inr ()" "nonce_ok nonce"
  shows "split_on (CHR ''/'') (''snapshots/'' @ take 2 nonce @ ''/'' @ nonce @ ''/'' @ namespace_id k
      @ ''/'' @ actor_type k @ ''/'' @ actor_id k @ ''/'' @ show_u64 v @ ''.json'')
    = [''snapshots'', take 2 nonce, nonce, namespace_id k, actor_type k, actor_id k, show_u64 v @ ''.json'']"
proof -
  have n: "CHR ''/'' \<notin> set nonce" using component_no_slash [OF nonce_component [OF assms(2)]] .
  then have t: "CHR ''/'' \<notin> set (take 2 nonce)" using in_set_takeD by force
  note a = actor_components [OF assms(1), THEN component_no_slash]
  have l: "CHR ''/'' \<notin> set (show_u64 v @ ''.json'')" using component_no_slash [OF leaf_component] .
  have s: "split_on (CHR ''/'') (''snapshots/'' @ r) = ''snapshots'' # split_on (CHR ''/'') r" for r by simp
  show ?thesis
    unfolding s using split_on_append [OF t] split_on_append [OF n] split_on_append [OF a(1)]
      split_on_append [OF a(2)] split_on_append [OF a(3)] split_on_word [OF l] by simp
qed

lemma snapshot_name_valid:
  assumes "snapshot_object_name k v nonce = Inr name"
  shows "validate_object_name name = Inr ()"
proof -
  from assms have k: "actor_validate k = Inr ()" and n: "nonce_ok nonce"
    and name: "name = ''snapshots/'' @ take 2 nonce @ ''/'' @ nonce @ ''/'' @ namespace_id k
      @ ''/'' @ actor_type k @ ''/'' @ actor_id k @ ''/'' @ show_u64 v @ ''.json''"
    by (auto simp: snapshot_object_name_def result_simps split: if_splits)
  have "unat v < 10 ^ 20" using unsigned_less [of v, where 'a = nat] by simp
  then have "length (show_u64 v) \<le> 20" by (rule length_show_nat) simp
  moreover have "length (namespace_id k) \<le> 96" "length (actor_type k) \<le> 48" "length (actor_id k) \<le> 128"
    using k by (auto simp: actor_validate_def result_simps)
  moreover have "\<forall>c \<in> set name. component_char c \<or> c = CHR ''/''"
    using nonce_component [OF n] actor_components [OF k] leaf_component [of "unat v"] in_set_takeD [of _ 2 nonce]
    by (auto simp: name component_char_def ascii_defs)
  then have "\<forall>c \<in> set name. 32 \<le> byte c \<and> byte c < 127"
    using component_char_byte by fastforce
  then have "\<not> has_control name" by (subst has_control_iff_ascii) force+
  ultimately show ?thesis
    using n by (simp add: validate_object_name_def name nonce_ok_def)
qed

lemma issued_name_accepted:
  assumes "actor_validate k = Inr ()" and issued: "snapshot_object_name k v nonce = Inr name"
  shows "validate_snapshot_object_name k v name = Inr ()"
proof -
  from issued have "nonce_ok nonce" and name: "name = ''snapshots/'' @ take 2 nonce @ ''/'' @ nonce @ ''/''
      @ namespace_id k @ ''/'' @ actor_type k @ ''/'' @ actor_id k @ ''/'' @ show_u64 v @ ''.json''"
    by (auto simp: snapshot_object_name_def result_simps split: if_splits)
  then show ?thesis
    using snapshot_name_valid [OF issued] split_snapshot_name [OF assms(1) \<open>nonce_ok nonce\<close>, of v]
    by (simp add: validate_snapshot_object_name_def name take_is_prefix nonce_ok_def)
qed

lemma accepted_name_issued:
  assumes "actor_validate k = Inr ()" "0 < v" and ok: "validate_snapshot_object_name k v name = Inr ()"
  shows "\<exists>nonce. snapshot_object_name k v nonce = Inr name"
proof -
  from ok obtain p nonce where parts: "split_on (CHR ''/'') name =
      [''snapshots'', p, nonce, namespace_id k, actor_type k, actor_id k, show_u64 v @ ''.json'']"
    and p: "prefix p nonce" "length p = 2" and n: "nonce_ok nonce"
    by (auto simp: validate_snapshot_object_name_def result_simps split: list.splits)
  have "name = join_with (CHR ''/'') (split_on (CHR ''/'') name)" by simp
  then have "name = ''snapshots/'' @ p @ ''/'' @ nonce @ ''/'' @ namespace_id k @ ''/'' @ actor_type k
      @ ''/'' @ actor_id k @ ''/'' @ show_u64 v @ ''.json''" unfolding parts by simp
  moreover have "p = take 2 nonce" using p by (auto simp: prefix_def)
  ultimately have "snapshot_object_name k v nonce = Inr name"
    using assms n by (simp add: snapshot_object_name_def)
  then show ?thesis ..
qed

text \<open>
  Claim C28. For a valid actor and a positive version, the commit path accepts a state object
  name exactly when it is a name \<^const>\<open>snapshot_object_name\<close> issues for that actor and that
  version, with some 32-digit hexadecimal nonce: a host cannot commit another actor's or another
  version's snapshot, and no issued name is refused.
\<close>

theorem validate_snapshot_object_name_iff:
  assumes "actor_validate k = Inr ()" "0 < v"
  shows "is_ok (validate_snapshot_object_name k v name) \<longleftrightarrow> (\<exists>nonce. snapshot_object_name k v nonce = Inr name)"
  using issued_name_accepted [OF assms(1)] accepted_name_issued [OF assms] by (auto simp: is_ok_unit)

abbreviation sample_actor :: actor_key where
  "sample_actor \<equiv> \<lparr>namespace_id = ''project-1'', actor_type = ''Counter'', actor_id = ''account.42''\<rparr>"

lemma sample_actor_valid [simp]: "actor_validate sample_actor = Inr ()"
  by (rule actor_validI) (simp_all add: component_char_def ascii_defs)

theorem validate_snapshot_object_name_iff_witness:
  "is_ok (validate_snapshot_object_name sample_actor 7
     ''snapshots/01/0123456789abcdef0123456789abcdef/project-1/Counter/account.42/7.json'')"
proof -
  have "snapshot_object_name sample_actor 7 ''0123456789abcdef0123456789abcdef''
      = Inr ''snapshots/01/0123456789abcdef0123456789abcdef/project-1/Counter/account.42/7.json''"
    by (simp add: snapshot_object_name_def nonce_ok_def ascii_defs show_nat.simps [of 7])
  then show ?thesis
    using validate_snapshot_object_name_iff [of sample_actor 7] by (auto simp: word_less_def)
qed

lemma snapshot_name_determines:
  assumes "snapshot_object_name a v m = Inr name" and "snapshot_object_name b w n = Inr name"
  shows "a = b \<and> v = w \<and> m = n"
proof -
  have parts: "split_on (CHR ''/'') name = [''snapshots'', take 2 nonce, nonce, namespace_id k,
      actor_type k, actor_id k, show_u64 u @ ''.json'']"
    if "snapshot_object_name k u nonce = Inr name" for k u nonce
    using that split_snapshot_name [of k nonce u] by (auto simp: snapshot_object_name_def result_simps split: if_splits)
  from parts [OF assms(1)] parts [OF assms(2)] have "m = n" "namespace_id a = namespace_id b"
    "actor_type a = actor_type b" "actor_id a = actor_id b" "show_u64 v = show_u64 w"
    by simp_all
  then show ?thesis
    using show_nat_inj [of "unat v" "unat w"] by (auto intro: actor_key.equality unsigned_word_eqI)
qed

text \<open>
  A snapshot object name determines the actor, the state version and the nonce it was
  issued for: objects of different actors or versions never collide, unlike storage keys.
\<close>

theorem snapshot_object_name_injective:
  assumes "snapshot_object_name a v m = Inr name" and "snapshot_object_name b w n = Inr name"
  shows "a = b \<and> v = w \<and> m = n"
  using assms by (rule snapshot_name_determines)

theorem snapshot_object_name_injective_witness:
  "\<exists>name. snapshot_object_name sample_actor 7 (replicate 32 (CHR ''a'')) = Inr name
     \<and> snapshot_object_name sample_actor 8 (replicate 32 (CHR ''a'')) \<noteq> Inr name"
proof -
  let ?n = "replicate 32 (CHR ''a'')"
  have "nonce_ok ?n" by (simp add: nonce_ok_def ascii_defs)
  then obtain name where name: "snapshot_object_name sample_actor 7 ?n = Inr name"
    by (simp add: snapshot_object_name_def word_less_def)
  have "snapshot_object_name sample_actor 8 ?n \<noteq> Inr name"
    using snapshot_object_name_injective [OF name, of sample_actor 8 ?n] by auto
  with name show ?thesis by blast
qed

section \<open>Tickets\<close>

lemma write_ticket_ok:
  assumes "write_ticket buckets sign nonce clock region actor v = Inr t"
  shows "ticket_state_version t = v" "snapshot_object_name actor v nonce = Inr (ticket_object_name t)"
  using assms by (auto simp: write_ticket_def result_simps split: if_splits)

lemma write_ticket_signed:
  assumes "write_ticket buckets sign nonce clock region actor v = Inr t"
  obtains b where "sign \<lparr>sign_bucket = b, sign_object = ticket_object_name t, sign_method = PUT, sign_ttl_secs = 60,
    sign_headers = [(''content-type'', ''application/json'')], sign_query = [(''ifGenerationMatch'', ''0'')]\<rparr> = Inr (ticket_url t)"
  using assms by (auto simp: write_ticket_def result_simps split: if_splits)

end
