(* ===== verification/Placement.thy ===== *)
theory Placement
  imports Host_Leases Storage_Urls
begin

text \<open>
  Object placement and the state head (\<^verbatim>\<open>src/placement.rs\<close>): which host owns an actor, in which
  ownership epoch, and which immutable snapshot is its current state. The in-memory store and the
  PostgreSQL store are both modelled; the PostgreSQL operations are the source's statements in
  order, and \<open>env\<close> is what other connections commit between two statements of one operation.
  The locale \<^verbatim>\<open>placement_store\<close> is the contract of the \<^verbatim>\<open>ObjectPlacementStore\<close> trait; both
  stores are interpretations of it and the safety properties are proved once from the contract.
\<close>

record object_placement =
  pl_object :: actor_storage_key
  pl_owner :: host_id
  pl_owner_epoch :: u64
  pl_home_region :: string
  pl_state_version :: u64
  pl_state_object :: "string option"
  pl_last_request_id :: "string option"

datatype placement_claim = Acquired object_placement | Current object_placement

record state_commit_request =
  cr_object :: actor_storage_key
  cr_owner :: host_id
  cr_session_id :: string
  cr_owner_epoch :: u64
  cr_expected_version :: u64
  cr_state_object :: string
  cr_request_id :: string

datatype state_commit = Committed object_placement | CurrentState object_placement

definition validate_state_commit :: "state_commit_request \<Rightarrow> unit result" where
  "validate_state_commit request =
     and_then (storage_key_validate (cr_object request)) (\<lambda>_.
     and_then (ensure (host_str (cr_owner request) \<noteq> []) ''state commit owner is empty'') (\<lambda>_.
     and_then (ensure (cr_session_id request \<noteq> []) ''state commit session is empty'') (\<lambda>_.
     and_then (ensure (0 < cr_owner_epoch request) ''state commit owner epoch must be positive'') (\<lambda>_.
     and_then (ensure (cr_state_object request \<noteq> [] \<and> length (cr_state_object request) \<le> 1024)
       ''state commit object name is invalid'') (\<lambda>_.
     ensure (cr_request_id request \<noteq> [] \<and> length (cr_request_id request) \<le> 255)
       ''state commit request ID is invalid'')))))"

definition is_replayed_commit :: "object_placement \<Rightarrow> state_commit_request \<Rightarrow> bool" where
  "is_replayed_commit current request \<longleftrightarrow>
     pl_state_version current = saturating_add (cr_expected_version request) 1 \<and>
     pl_state_object current = Some (cr_state_object request) \<and>
     pl_last_request_id current = Some (cr_request_id request)"

section \<open>The in-memory store\<close>

type_synonym local_store = "actor_storage_key \<rightharpoonup> object_placement"

definition local_claim ::
    "actor_storage_key \<Rightarrow> object_placement option \<Rightarrow> host_id \<Rightarrow> string \<Rightarrow> local_store
     \<Rightarrow> placement_claim result \<times> local_store" where
  "local_claim object expected owner home_region placements =
     (case validate_region home_region of
        Inl e \<Rightarrow> (Inl e, placements)
      | Inr _ \<Rightarrow>
          (case placements object of
             None \<Rightarrow>
               if expected = None then
                 let placement = \<lparr>pl_object = object, pl_owner = owner, pl_owner_epoch = 1,
                       pl_home_region = home_region, pl_state_version = 0,
                       pl_state_object = None, pl_last_request_id = None\<rparr>
                 in (Inr (Acquired placement), placements(object \<mapsto> placement))
               else (Inl (Bail ''expected object placement no longer exists''), placements)
           | Some current \<Rightarrow>
               if expected = Some current then
                 if pl_home_region current \<noteq> home_region
                 then (Inl (Bail ''object home region cannot change''), placements)
                 else if pl_owner current = owner then (Inr (Current current), placements)
                 else (case checked_add (pl_owner_epoch current) 1 of
                         None \<Rightarrow> (Inl (Bail ''object owner epoch overflow''), placements)
                       | Some epoch \<Rightarrow>
                           let placement = \<lparr>pl_object = object, pl_owner = owner, pl_owner_epoch = epoch,
                                 pl_home_region = home_region, pl_state_version = pl_state_version current,
                                 pl_state_object = pl_state_object current,
                                 pl_last_request_id = pl_last_request_id current\<rparr>
                           in (Inr (Acquired placement), placements(object \<mapsto> placement)))
               else (Inr (Current current), placements)))"

definition local_commit_state ::
    "state_commit_request \<Rightarrow> local_store \<Rightarrow> state_commit result \<times> local_store" where
  "local_commit_state request placements =
     (case validate_state_commit request of
        Inl e \<Rightarrow> (Inl e, placements)
      | Inr _ \<Rightarrow>
          (case placements (cr_object request) of
             None \<Rightarrow> (Inl (Bail ''actor placement does not exist''), placements)
           | Some current \<Rightarrow>
               if is_replayed_commit current request then (Inr (Committed current), placements)
               else if pl_owner current \<noteq> cr_owner request
                    \<or> pl_owner_epoch current \<noteq> cr_owner_epoch request
                    \<or> pl_state_version current \<noteq> cr_expected_version request
               then (Inr (CurrentState current), placements)
               else (case checked_add (pl_state_version current) 1 of
                       None \<Rightarrow> (Inl (Bail ''actor state version overflow''), placements)
                     | Some version \<Rightarrow>
                         let committed = current\<lparr>pl_state_version := version,
                               pl_state_object := Some (cr_state_object request),
                               pl_last_request_id := Some (cr_request_id request)\<rparr>
                         in (Inr (Committed committed), placements(cr_object request \<mapsto> committed)))))"

section \<open>The PostgreSQL store\<close>

definition placement_from_row :: "actor_storage_key \<Rightarrow> placement_row \<Rightarrow> object_placement result" where
  "placement_from_row object row =
     and_then (ok_or (u64_of_i64 (pr_owner_epoch row)) ''PostgreSQL object owner epoch is negative'') (\<lambda>owner_epoch.
     and_then (ok_or (u64_of_i64 (pr_state_version row)) ''PostgreSQL actor state version is negative'') (\<lambda>state_version.
     Inr \<lparr>pl_object = object, pl_owner = HostId (pr_owner_host_id row), pl_owner_epoch = owner_epoch,
          pl_home_region = pr_home_region row, pl_state_version = state_version,
          pl_state_object = pr_state_object row, pl_last_request_id = pr_last_request_id row\<rparr>))"

definition placement_get :: "actor_storage_key \<Rightarrow> database \<Rightarrow> object_placement option result" where
  "placement_get object db =
     (case db_placements db (key_str object) of
        None \<Rightarrow> Inr None
      | Some row \<Rightarrow> and_then (placement_from_row object row) (\<lambda>p. Inr (Some p)))"

definition current_claim :: "actor_storage_key \<Rightarrow> database \<Rightarrow> placement_claim result" where
  "current_claim object db =
     and_then (placement_get object db) (\<lambda>row.
     ok_or (map_option Current row) ''object placement disappeared during claim'')"

text \<open>\<^verbatim>\<open>INSERT ... ON CONFLICT DO NOTHING RETURNING\<close>.\<close>

definition claim_insert_statement ::
    "string \<Rightarrow> string \<Rightarrow> string \<Rightarrow> database \<Rightarrow> placement_row option \<times> database" where
  "claim_insert_statement object owner home_region db =
     (case db_placements db object of
        Some _ \<Rightarrow> (None, db)
      | None \<Rightarrow>
          let row = \<lparr>pr_owner_host_id = owner, pr_owner_epoch = 1, pr_home_region = home_region,
                pr_state_version = 0, pr_state_object = None, pr_last_request_id = None\<rparr>
          in (Some row, db\<lparr>db_placements := (db_placements db)(object \<mapsto> row)\<rparr>))"

text \<open>\<^verbatim>\<open>UPDATE ... SET owner_epoch = owner_epoch + 1 WHERE\<close> owner, epoch and region as expected.\<close>

definition claim_update_statement ::
    "string \<Rightarrow> string \<Rightarrow> string \<Rightarrow> i64 \<Rightarrow> string \<Rightarrow> database \<Rightarrow> placement_row option result \<times> database" where
  "claim_update_statement object owner expected_owner expected_epoch home_region db =
     (case db_placements db object of
        Some row \<Rightarrow>
          if pr_owner_host_id row = expected_owner \<and> pr_owner_epoch row = expected_epoch
             \<and> pr_home_region row = home_region
          then (case bigint_add (pr_owner_epoch row) 1 of
                  Inl e \<Rightarrow> (Inl e, db)
                | Inr epoch \<Rightarrow>
                    let row' = row\<lparr>pr_owner_host_id := owner, pr_owner_epoch := epoch\<rparr>
                    in (Inr (Some row'), db\<lparr>db_placements := (db_placements db)(object \<mapsto> row')\<rparr>))
          else (Inr None, db)
      | None \<Rightarrow> (Inr None, db))"

definition claim ::
    "(database \<Rightarrow> database) \<Rightarrow> actor_storage_key \<Rightarrow> object_placement option \<Rightarrow> host_id \<Rightarrow> string
     \<Rightarrow> database \<Rightarrow> placement_claim result \<times> database" where
  "claim env object expected owner home_region db =
     (case and_then (storage_key_validate object) (\<lambda>_. validate_region home_region) of
        Inl e \<Rightarrow> (Inl e, db)
      | Inr _ \<Rightarrow>
          (case expected of
             None \<Rightarrow>
               (case claim_insert_statement (key_str object) (host_str owner) home_region db of
                  (Some row, db') \<Rightarrow> (and_then (placement_from_row object row) (\<lambda>p. Inr (Acquired p)), db')
                | (None, db') \<Rightarrow> (current_claim object (env db'), env db'))
           | Some e \<Rightarrow>
               if \<not> (pl_object e = object \<and> pl_home_region e = home_region)
               then (Inl (Bail ''expected object placement does not match the claim''), db)
               else if pl_owner e = owner then (current_claim object db, db)
               else (case i64_of_u64 (pl_owner_epoch e) of
                       None \<Rightarrow> (Inl (Bail ''object owner epoch exceeds PostgreSQL BIGINT''), db)
                     | Some expected_epoch \<Rightarrow>
                         (case claim_update_statement (key_str object) (host_str owner)
                                 (host_str (pl_owner e)) expected_epoch home_region db of
                            (Inl err, db') \<Rightarrow> (Inl (Context ''claim PostgreSQL object placement'' err), db')
                          | (Inr (Some row), db') \<Rightarrow>
                              (and_then (placement_from_row object row) (\<lambda>p. Inr (Acquired p)), db')
                          | (Inr None, db') \<Rightarrow> (current_claim object (env db'), env db')))))"

text \<open>
  The commit statement: the head advances only if owner, epoch and version are as expected and
  the owner's lease is held by the committing session and unexpired at the statement's clock.
\<close>

definition commit_statement ::
    "i64 \<Rightarrow> state_commit_request \<Rightarrow> i64 \<Rightarrow> i64 \<Rightarrow> database \<Rightarrow> placement_row option result \<times> database" where
  "commit_statement now request expected_epoch expected_version db =
     (case db_placements db (key_str (cr_object request)) of
        Some row \<Rightarrow>
          if pr_owner_host_id row = host_str (cr_owner request) \<and> pr_owner_epoch row = expected_epoch
             \<and> pr_state_version row = expected_version
             \<and> (case db_leases db (pr_owner_host_id row) of
                  None \<Rightarrow> False
                | Some lease \<Rightarrow> lr_session_id lease = cr_session_id request \<and> lr_expires_at_ms lease > now)
          then (case bigint_add (pr_state_version row) 1 of
                  Inl e \<Rightarrow> (Inl e, db)
                | Inr version \<Rightarrow>
                    let row' = row\<lparr>pr_state_version := version,
                          pr_state_object := Some (cr_state_object request),
                          pr_last_request_id := Some (cr_request_id request)\<rparr>
                    in (Inr (Some row'),
                        db\<lparr>db_placements := (db_placements db)(key_str (cr_object request) \<mapsto> row')\<rparr>))
          else (Inr None, db)
      | None \<Rightarrow> (Inr None, db))"

definition commit_state ::
    "(database \<Rightarrow> database) \<Rightarrow> i64 \<Rightarrow> state_commit_request \<Rightarrow> database \<Rightarrow> state_commit result \<times> database" where
  "commit_state env now request db =
     (case and_then (validate_state_commit request) (\<lambda>_.
           and_then (ok_or (i64_of_u64 (cr_owner_epoch request)) ''object owner epoch exceeds PostgreSQL BIGINT'') (\<lambda>ep.
           and_then (ok_or (i64_of_u64 (cr_expected_version request)) ''actor state version exceeds PostgreSQL BIGINT'') (\<lambda>ver.
           Inr (ep, ver)))) of
        Inl e \<Rightarrow> (Inl e, db)
      | Inr (expected_epoch, expected_version) \<Rightarrow>
          (case commit_statement now request expected_epoch expected_version db of
             (Inl err, db') \<Rightarrow> (Inl (Context ''commit PostgreSQL actor state head'' err), db')
           | (Inr (Some row), db') \<Rightarrow>
               (and_then (placement_from_row (cr_object request) row) (\<lambda>p. Inr (Committed p)), db')
           | (Inr None, db') \<Rightarrow>
               (and_then (placement_get (cr_object request) (env db')) (\<lambda>found.
                and_then (ok_or found ''actor placement disappeared during state commit'') (\<lambda>current.
                Inr (if is_replayed_commit current request then Committed current else CurrentState current))),
                env db')))"

section \<open>The contract of a placement store\<close>

text \<open>
  What a granted claim and a fresh commit do to the placement they address: a claim creates the
  placement at epoch 1, or moves it to another host in the next epoch and keeps its home region
  and its state head; a commit keeps the owner and epoch and advances the head by one version.
\<close>

definition claim_effect ::
    "actor_storage_key \<Rightarrow> host_id \<Rightarrow> string \<Rightarrow> object_placement option \<Rightarrow> object_placement \<Rightarrow> bool" where
  "claim_effect k owner region old new \<longleftrightarrow>
     (case old of
        None \<Rightarrow> new = \<lparr>pl_object = k, pl_owner = owner, pl_owner_epoch = 1, pl_home_region = region,
                  pl_state_version = 0, pl_state_object = None, pl_last_request_id = None\<rparr>
      | Some c \<Rightarrow> pl_owner c \<noteq> owner \<and> pl_owner_epoch c \<noteq> - 1 \<and> pl_home_region c = region \<and>
                  new = c\<lparr>pl_owner := owner, pl_owner_epoch := pl_owner_epoch c + 1\<rparr>)"

definition commit_effect :: "state_commit_request \<Rightarrow> object_placement \<Rightarrow> object_placement \<Rightarrow> bool" where
  "commit_effect request c new \<longleftrightarrow>
     pl_owner c = cr_owner request \<and> pl_owner_epoch c = cr_owner_epoch request \<and>
     pl_state_version c = cr_expected_version request \<and> pl_state_version c \<noteq> - 1 \<and>
     new = c\<lparr>pl_state_version := pl_state_version c + 1, pl_state_object := Some (cr_state_object request),
             pl_last_request_id := Some (cr_request_id request)\<rparr>"

text \<open>An operation on the store: a claim, a commit at a clock, or one of the other operations.\<close>

datatype 'e placement_op =
    ClaimOp actor_storage_key "object_placement option" host_id string
  | CommitOp i64 state_commit_request
  | OtherOp 'e

locale placement_store =
  fixes lookup :: "'s \<Rightarrow> actor_storage_key \<Rightarrow> object_placement option"
    and invar :: "'s \<Rightarrow> bool"
    and claim_op :: "actor_storage_key \<Rightarrow> object_placement option \<Rightarrow> host_id \<Rightarrow> string \<Rightarrow> 's
      \<Rightarrow> placement_claim result \<times> 's"
    and commit_op :: "i64 \<Rightarrow> state_commit_request \<Rightarrow> 's \<Rightarrow> state_commit result \<times> 's"
    and other_op :: "'e \<Rightarrow> 's \<Rightarrow> 's"
  assumes claim_cases: "invar s \<Longrightarrow> claim_op k e h r s = (res, s') \<Longrightarrow>
        (lookup s' = lookup s \<and> (\<forall>p. res \<noteq> Inr (Acquired p)) \<and> (\<forall>p. res = Inr (Current p) \<longrightarrow> lookup s k = Some p)) \<or>
        (\<exists>new. claim_effect k h r (lookup s k) new \<and> lookup s' = (lookup s)(k \<mapsto> new) \<and> res = Inr (Acquired new))"
    and commit_cases: "invar s \<Longrightarrow> commit_op t q s = (cres, s') \<Longrightarrow>
        (lookup s' = lookup s \<and> (\<forall>p. cres = Inr (Committed p) \<longrightarrow> lookup s (cr_object q) = Some p \<and> is_replayed_commit p q)) \<or>
        (\<exists>c new. lookup s (cr_object q) = Some c \<and> commit_effect q c new \<and>
           lookup s' = (lookup s)(cr_object q \<mapsto> new) \<and> cres = Inr (Committed new))"
    and claim_invar: "invar s \<Longrightarrow> invar (snd (claim_op k e h r s))"
    and commit_invar: "invar s \<Longrightarrow> invar (snd (commit_op t q s))"
    and other_lookup: "invar s \<Longrightarrow> lookup (other_op x s) = lookup s"
    and other_invar: "invar s \<Longrightarrow> invar (other_op x s)"
begin

fun apply_op :: "'e placement_op \<Rightarrow> 's \<Rightarrow> 's" where
  "apply_op (ClaimOp k e h r) s = snd (claim_op k e h r s)"
| "apply_op (CommitOp t q) s = snd (commit_op t q s)"
| "apply_op (OtherOp y) s = other_op y s"

lemma apply_op_invar: "invar s \<Longrightarrow> invar (apply_op x s)"
  by (cases x) (auto intro: claim_invar commit_invar other_invar)

lemma apply_op_cases:
  assumes "invar s"
  obtains (same) "lookup (apply_op x s) = lookup s"
    | (claimed) k h r new where "claim_effect k h r (lookup s k) new" "lookup (apply_op x s) = (lookup s)(k \<mapsto> new)"
    | (committed) q c new where "lookup s (cr_object q) = Some c" "commit_effect q c new"
        "lookup (apply_op x s) = (lookup s)(cr_object q \<mapsto> new)"
proof (cases x)
  case (ClaimOp k e h r)
  obtain res s' where "claim_op k e h r s = (res, s')" by fastforce
  from claim_cases [OF assms this] this ClaimOp show ?thesis by (auto intro: same claimed)
next
  case (CommitOp t q)
  obtain res s' where "commit_op t q s = (res, s')" by fastforce
  from commit_cases [OF assms this] this CommitOp show ?thesis by (auto intro: same committed)
next
  case (OtherOp y)
  with other_lookup [OF assms] same show ?thesis by simp
qed

text \<open>A property of one actor's placement that every granted claim and every commit keeps.\<close>

lemma run_induct:
  assumes "invar s" "lookup s k = Some c" "P c"
    and "\<And>c h r new. P c \<Longrightarrow> claim_effect k h r (Some c) new \<Longrightarrow> P new"
    and "\<And>q c new. P c \<Longrightarrow> commit_effect q c new \<Longrightarrow> P new"
  shows "\<exists>c'. lookup (fold apply_op ops s) k = Some c' \<and> P c'"
  using assms(1-3)
proof (induction ops arbitrary: s c)
  case (Cons x ops)
  have "\<exists>c'. lookup (apply_op x s) k = Some c' \<and> P c'"
    using Cons.prems(1)
  proof (cases rule: apply_op_cases [of s x])
    case (claimed k' h r new)
    with Cons.prems assms(4) show ?thesis by (cases "k' = k") auto
  next
    case (committed q c' new)
    with Cons.prems assms(5) show ?thesis by (cases "cr_object q = k") auto
  qed (use Cons.prems in auto)
  then show ?case using Cons.IH apply_op_invar [OF Cons.prems(1)] by auto
qed auto

lemma run_invar: "invar s \<Longrightarrow> invar (fold apply_op ops s)"
  by (induction ops arbitrary: s) (auto intro: apply_op_invar)

lemma commit_at_head:
  assumes "invar s" "commit_op t q s = (Inr (Committed p), s')"
  shows "lookup s' (cr_object q) = Some p" "pl_state_version p = saturating_add (cr_expected_version q) 1"
    "pl_state_object p = Some (cr_state_object q)" "pl_last_request_id p = Some (cr_request_id q)"
  using commit_cases [OF assms]
  by (auto simp: is_replayed_commit_def commit_effect_def saturating_add_one)

lemma no_fork:
  assumes s: "invar s" and first: "commit_op t q s = (Inr (Committed p), s1)"
    and second: "commit_op t' q' (fold apply_op ops s1) = (Inr (Committed p'), s2)"
    and same: "cr_object q' = cr_object q" "cr_expected_version q' = cr_expected_version q"
  shows "cr_state_object q' = cr_state_object q \<and> cr_request_id q' = cr_request_id q"
proof -
  let ?k = "cr_object q"
  let ?P = "\<lambda>c. pl_state_version p < pl_state_version c \<or>
    pl_state_version c = pl_state_version p \<and> pl_state_object c = pl_state_object p \<and> pl_last_request_id c = pl_last_request_id p"
  note head = commit_at_head [OF s first]
  from s first have s1: "invar s1" using commit_invar [of s t q] by simp
  have "\<exists>c'. lookup (fold apply_op (ops @ [CommitOp t' q']) s1) ?k = Some c' \<and> ?P c'"
  proof (rule run_induct [OF s1 head(1)])
    show "?P new" if "?P c" "claim_effect ?k h r (Some c) new" for c h r new
      using that by (auto simp: claim_effect_def)
    show "?P new" if "?P c" "commit_effect r c new" for r c new
    proof -
      have "pl_state_version c < pl_state_version c + 1"
        using that(2) by (auto simp: commit_effect_def intro: u64_less_succ)
      with that show ?thesis by (auto simp: commit_effect_def)
    qed
  qed simp
  then obtain c' where c': "lookup s2 ?k = Some c'" "?P c'" using second by auto
  have "lookup s2 ?k = Some p'" "pl_state_version p' = pl_state_version p"
    "pl_state_object p' = Some (cr_state_object q')" "pl_last_request_id p' = Some (cr_request_id q')"
    using commit_at_head [OF run_invar [OF s1] second] head same by auto
  with c' head show ?thesis by auto
qed

lemma stale_commit_fenced:
  assumes s: "invar s" "lookup s k = Some c" and stale: "cr_owner_epoch q < pl_owner_epoch c" "cr_object q = k"
    and commit: "commit_op t q (fold apply_op ops s) = (res, s')"
  shows "lookup s' = lookup (fold apply_op ops s)"
proof -
  have "\<exists>c'. lookup (fold apply_op ops s) k = Some c' \<and> pl_owner_epoch c \<le> pl_owner_epoch c'"
  proof (rule run_induct [OF s])
    show "pl_owner_epoch c \<le> pl_owner_epoch new"
      if "pl_owner_epoch c \<le> pl_owner_epoch d" "claim_effect k h r (Some d) new" for d h r new
      using that by (auto simp: claim_effect_def intro: u64_le_succ)
  qed (auto simp: commit_effect_def)
  with commit_cases [OF run_invar [OF s(1)] commit] stale show ?thesis
    by (auto simp: commit_effect_def)
qed

lemma home_region_stable:
  assumes "invar s" "lookup s k = Some c"
  shows "\<exists>c'. lookup (fold apply_op ops s) k = Some c' \<and> pl_home_region c' = pl_home_region c"
  by (rule run_induct [OF assms]) (auto simp: claim_effect_def commit_effect_def)

lemma progress_monotone:
  assumes "invar s" "lookup s k = Some c"
  shows "\<exists>c'. lookup (fold apply_op ops s) k = Some c' \<and>
    pl_owner_epoch c \<le> pl_owner_epoch c' \<and> pl_state_version c \<le> pl_state_version c'"
  by (rule run_induct [OF assms])
    (auto simp: claim_effect_def commit_effect_def intro: u64_le_succ)

end

section \<open>Both stores keep the contract\<close>

definition local_ok :: "local_store \<Rightarrow> bool" where
  "local_ok s \<longleftrightarrow> (\<forall>k p. s k = Some p \<longrightarrow> pl_object p = k)"

lemma local_claim_step:
  assumes "local_ok s" "local_claim k e h r s = (res, s')"
  shows "(s' = s \<and> (\<forall>p. res \<noteq> Inr (Acquired p)) \<and> (\<forall>p. res = Inr (Current p) \<longrightarrow> s k = Some p)) \<or>
    (\<exists>new. claim_effect k h r (s k) new \<and> s' = s(k \<mapsto> new) \<and> res = Inr (Acquired new))"
proof -
  have "s k = Some c \<Longrightarrow> pl_object c = k" for c using assms(1) by (simp add: local_ok_def)
  then show ?thesis using assms(2)
    by (auto simp: local_claim_def claim_effect_def Let_def checked_add_one_Some
        split: sum.splits option.splits if_splits)
qed

lemma local_commit_step:
  assumes "local_commit_state q s = (res, s')"
  shows "(s' = s \<and> (\<forall>p. res = Inr (Committed p) \<longrightarrow> s (cr_object q) = Some p \<and> is_replayed_commit p q)) \<or>
    (\<exists>c new. s (cr_object q) = Some c \<and> commit_effect q c new \<and> s' = s(cr_object q \<mapsto> new) \<and> res = Inr (Committed new))"
  using assms
  by (auto simp: local_commit_state_def commit_effect_def Let_def checked_add_one_Some
      split: sum.splits option.splits if_splits)

interpretation local_placements: placement_store "\<lambda>s. s" local_ok local_claim "\<lambda>_. local_commit_state" "\<lambda>(_ :: unit) s. s"
proof
  show "local_ok (snd (local_claim k e h r s))" if "local_ok s" for k e h r s
    using local_claim_step [OF that surjective_pairing, of k e h r] that
    by (auto simp: local_ok_def claim_effect_def split: if_splits option.splits)
  show "local_ok (snd (local_commit_state q s))" if "local_ok s" for q s
    using local_commit_step [OF surjective_pairing, of q s] that
    by (auto simp: local_ok_def commit_effect_def split: if_splits)
qed (use local_claim_step local_commit_step in auto)

text \<open>The placement that the PostgreSQL store reads for a key.\<close>

definition abs_row :: "actor_storage_key \<Rightarrow> placement_row \<Rightarrow> object_placement" where
  "abs_row k row = \<lparr>pl_object = k, pl_owner = HostId (pr_owner_host_id row),
     pl_owner_epoch = word_of_int (pr_owner_epoch row), pl_home_region = pr_home_region row,
     pl_state_version = word_of_int (pr_state_version row),
     pl_state_object = pr_state_object row, pl_last_request_id = pr_last_request_id row\<rparr>"

definition head :: "database \<Rightarrow> actor_storage_key \<Rightarrow> object_placement option" where
  "head db k = map_option (abs_row k) (db_placements db (key_str k))"

lemma placement_from_row_ok: "placement_row_ok row \<Longrightarrow> placement_from_row k row = Inr (abs_row k row)"
  by (simp add: placement_from_row_def abs_row_def placement_row_ok_def u64_of_i64_def result_simps)

lemma placement_get_ok: "db_ok db \<Longrightarrow> placement_get k db = Inr (head db k)"
  by (auto simp: placement_get_def head_def placement_from_row_ok db_ok_placement result_simps split: option.splits)

lemma head_upd [simp]: "head (db\<lparr>db_placements := (db_placements db)(key_str k \<mapsto> row)\<rparr>) = (head db)(k \<mapsto> abs_row k row)"
  by (auto simp: head_def fun_eq_iff actor_storage_key.expand)

lemma head_leases [simp]: "head (db\<lparr>db_leases := l\<rparr>) = head db"
  by (simp add: head_def fun_eq_iff)

lemma word_of_bigint_succ:
  "0 \<le> x \<Longrightarrow> i64_ok x \<Longrightarrow> (word_of_int x :: u64) \<noteq> - 1 \<and> (word_of_int (x + 1) :: u64) = word_of_int x + 1"
proof -
  assume x: "0 \<le> x" "i64_ok x"
  have "uint (- 1 :: u64) = 2 ^ 64 - 1" by (simp add: unsigned_minus_1_eq_mask mask_eq_exp_minus_1)
  moreover have "uint (word_of_int x :: u64) \<le> i64_max"
    using x by (simp add: uint_word_of_i64) (simp add: i64_ok_def)
  ultimately have "(word_of_int x :: u64) \<noteq> - 1" by auto
  then show ?thesis by (simp add: wi_hom_syms)
qed

lemma current_claim_ok:
  "db_ok db \<Longrightarrow> current_claim k db = (case head db k of
     None \<Rightarrow> Inl (Bail ''object placement disappeared during claim'') | Some p \<Rightarrow> Inr (Current p))"
  by (simp add: current_claim_def placement_get_ok result_simps ok_or_def split: option.splits)

lemma claim_insert_step:
  assumes "db_ok db" "claim_insert_statement (key_str k) (host_str h) r db = (res, db')"
  shows "db_ok db' \<and> (res = None \<and> db' = db \<or>
    (\<exists>row new. res = Some row \<and> placement_from_row k row = Inr new \<and> claim_effect k h r (head db k) new \<and> head db' = (head db)(k \<mapsto> new)))"
  using assms
  by (auto simp: claim_insert_statement_def claim_effect_def placement_from_row_ok placement_row_ok_def abs_row_def
      i64_ok_def head_def [of db k] Let_def intro!: db_ok_placement_upd split: option.splits)

lemma claim_update_step:
  assumes "db_ok db" "claim_update_statement (key_str k) (host_str h) (host_str o') ep r db = (res, db')" "o' \<noteq> h"
  shows "db_ok db' \<and> ((\<exists>e. res = Inl e) \<and> db' = db \<or> res = Inr None \<and> db' = db \<or>
    (\<exists>row new. res = Inr (Some row) \<and> placement_from_row k row = Inr new \<and> claim_effect k h r (head db k) new \<and> head db' = (head db)(k \<mapsto> new)))"
proof (cases "db_placements db (key_str k)")
  case (Some row)
  have ok: "placement_row_ok row" using db_ok_placement [OF assms(1) Some] .
  then show ?thesis
    using assms Some word_of_bigint_succ [of "pr_owner_epoch row"]
    by (auto simp: claim_update_statement_def claim_effect_def placement_from_row_ok placement_row_ok_def abs_row_def
        head_def [of db k] Let_def host_id.expand intro!: db_ok_placement_upd split: if_splits sum.splits)
qed (use assms in \<open>simp add: claim_update_statement_def\<close>)

definition active_lease :: "database \<Rightarrow> host_id \<Rightarrow> string \<Rightarrow> i64 \<Rightarrow> bool" where
  "active_lease db h session now \<longleftrightarrow>
     (case db_leases db (host_str h) of
        None \<Rightarrow> False
      | Some lease \<Rightarrow> lr_session_id lease = session \<and> now < lr_expires_at_ms lease)"

text \<open>
  One call, with other connections' statements (\<open>env\<close>) between its write and its read: its own
  write is an atomic step of the contract, and a read-back observes the tables after \<open>env\<close>.
\<close>

lemma claim_step:
  assumes ok: "db_ok db" "db_ok (env db)" and run: "claim env k e h r db = (res, db')"
  shows "((db' = db \<or> db' = env db) \<and> (\<forall>p. res \<noteq> Inr (Acquired p)) \<and> (\<forall>p. res = Inr (Current p) \<longrightarrow> head db' k = Some p)) \<or>
    (\<exists>new. claim_effect k h r (head db k) new \<and> head db' = (head db)(k \<mapsto> new) \<and> res = Inr (Acquired new) \<and> db_ok db')"
proof (cases e)
  case None
  obtain w d where w: "claim_insert_statement (key_str k) (host_str h) r db = (w, d)" by fastforce
  from claim_insert_step [OF ok(1) w] show ?thesis
    using run ok None w
    by (auto simp: claim_def current_claim_ok result_simps split: sum.splits option.splits prod.splits)
next
  case (Some p)
  show ?thesis
  proof (cases "pl_owner p = h")
    case True
    then show ?thesis using run ok Some
      by (auto simp: claim_def current_claim_ok split: sum.splits option.splits if_splits)
  next
    case False
    obtain w d where w: "claim_update_statement (key_str k) (host_str h) (host_str (pl_owner p)) (uint (pl_owner_epoch p)) r db = (w, d)"
      by fastforce
    from claim_update_step [OF ok(1) w False] show ?thesis
      using run ok Some False w
      by (auto simp: claim_def current_claim_ok i64_of_u64_def result_simps split: sum.splits option.splits prod.splits if_splits)
  qed
qed

lemma commit_statement_step:
  assumes "db_ok db" "commit_statement now q (uint (cr_owner_epoch q)) (uint (cr_expected_version q)) db = (res, db')"
  shows "db_ok db' \<and> ((\<exists>e. res = Inl e) \<and> db' = db \<or> res = Inr None \<and> db' = db \<or>
    (\<exists>row c new. res = Inr (Some row) \<and> placement_from_row (cr_object q) row = Inr new \<and> head db (cr_object q) = Some c \<and>
       commit_effect q c new \<and> head db' = (head db)(cr_object q \<mapsto> new) \<and>
       active_lease db (cr_owner q) (cr_session_id q) now))"
proof (cases "db_placements db (key_str (cr_object q))")
  case (Some row)
  have ok: "placement_row_ok row" using db_ok_placement [OF assms(1) Some] .
  then show ?thesis
    using assms Some word_of_bigint_succ [of "pr_state_version row"]
    by (auto simp: commit_statement_def commit_effect_def placement_from_row_ok placement_row_ok_def abs_row_def
        head_def [of db "cr_object q"] Let_def active_lease_def intro!: db_ok_placement_upd split: if_splits sum.splits option.splits)
qed (use assms in \<open>simp add: commit_statement_def\<close>)

lemma commit_step:
  assumes ok: "db_ok db" "db_ok (env db)" and run: "commit_state env now q db = (res, db')"
  shows "((db' = db \<or> db' = env db) \<and> (\<forall>p. res = Inr (Committed p) \<longrightarrow> head db' (cr_object q) = Some p \<and> is_replayed_commit p q)) \<or>
    (\<exists>c new. head db (cr_object q) = Some c \<and> commit_effect q c new \<and> head db' = (head db)(cr_object q \<mapsto> new) \<and>
       res = Inr (Committed new) \<and> db_ok db' \<and> active_lease db (cr_owner q) (cr_session_id q) now)"
proof -
  obtain w d where w: "commit_statement now q (uint (cr_owner_epoch q)) (uint (cr_expected_version q)) db = (w, d)" by fastforce
  from commit_statement_step [OF ok(1) w] show ?thesis
    using run ok w
    by (auto simp: commit_state_def placement_get_ok i64_of_u64_def result_simps
        split: sum.splits option.splits prod.splits if_splits)
qed

lemma head_lease_apply [simp]: "head (lease_apply x db) = head db"
proof (cases x)
  case (RegisterOp nv ng r)
  then show ?thesis
    by (cases "register nv ng r db"; cases "fst (register nv ng r db)") (auto dest: register_Inr(2) register_Inl)
next
  case (UnregisterOp h q)
  then show ?thesis by (auto simp: unregister_def split: option.splits)
qed

lemma lease_apply_db_ok: "db_ok db \<Longrightarrow> db_ok (lease_apply x db)"
  by (cases x) (auto intro: register_db_ok unregister_db_ok)

interpretation pg_placements: placement_store head db_ok "claim id" "commit_state id" lease_apply
proof
  show "db_ok (snd (claim id k e h r db))" if "db_ok db" for k e h r db
    using claim_step [of db id k e h r, OF that _ surjective_pairing] that by auto
  show "db_ok (snd (commit_state id now q db))" if "db_ok db" for now q db
    using commit_step [of db id now q, OF that _ surjective_pairing] that by auto
next
  fix db k e h r res db' assume *: "db_ok db" "claim id k e h r db = (res, db')"
  show "(head db' = head db \<and> (\<forall>p. res \<noteq> Inr (Acquired p)) \<and> (\<forall>p. res = Inr (Current p) \<longrightarrow> head db k = Some p)) \<or>
    (\<exists>new. claim_effect k h r (head db k) new \<and> head db' = (head db)(k \<mapsto> new) \<and> res = Inr (Acquired new))"
    using claim_step [OF *(1) _ *(2)] *(1) by auto
next
  fix db now q res db' assume *: "db_ok db" "commit_state id now q db = (res, db')"
  show "(head db' = head db \<and> (\<forall>p. res = Inr (Committed p) \<longrightarrow> head db (cr_object q) = Some p \<and> is_replayed_commit p q)) \<or>
    (\<exists>c new. head db (cr_object q) = Some c \<and> commit_effect q c new \<and> head db' = (head db)(cr_object q \<mapsto> new) \<and>
       res = Inr (Committed new))"
    using commit_step [OF *(1) _ *(2)] *(1) by auto
qed (simp_all add: lease_apply_db_ok)

text \<open>A run of the database: claims, commits and lease operations of any hosts, in any order.\<close>

fun db_apply :: "lease_op placement_op \<Rightarrow> database \<Rightarrow> database" where
  "db_apply (ClaimOp k e h r) db = snd (claim id k e h r db)"
| "db_apply (CommitOp t q) db = snd (commit_state id t q db)"
| "db_apply (OtherOp x) db = lease_apply x db"

lemma db_apply_eq: "db_apply = pg_placements.apply_op"
proof (intro ext)
  show "db_apply x db = pg_placements.apply_op x db" for x db by (cases x) simp_all
qed

lemma db_run_ok: "db_ok db \<Longrightarrow> db_ok (fold db_apply ops db)"
  unfolding db_apply_eq by (rule pg_placements.run_invar)

section \<open>Safety of the placement table\<close>

text \<open>
  Claim C1. No fork: once a state commit from some version is acknowledged, no later commit of
  the same actor from that version is acknowledged unless it names the same snapshot and request,
  whatever claims, commits and lease operations of any hosts happen in between.
\<close>

theorem commit_no_fork:
  assumes "db_ok db" "commit_state id t q db = (Inr (Committed p), db1)"
    and "commit_state id t' q' (fold db_apply ops db1) = (Inr (Committed p'), db2)"
    and "cr_object q' = cr_object q" "cr_expected_version q' = cr_expected_version q"
  shows "cr_state_object q' = cr_state_object q \<and> cr_request_id q' = cr_request_id q"
  using assms unfolding db_apply_eq by (rule pg_placements.no_fork)

text \<open>
  Claim C2. Fencing: once an actor's placement has reached an epoch, a commit that carries an
  older epoch never changes any placement, at any later time and whoever sends it.
\<close>

theorem stale_epoch_fenced:
  assumes "db_ok db" "head db k = Some c" "cr_owner_epoch q < pl_owner_epoch c" "cr_object q = k"
    and "commit_state id t q (fold db_apply ops db) = (res, db')"
  shows "head db' = head (fold db_apply ops db)"
  using assms unfolding db_apply_eq by (rule pg_placements.stale_commit_fenced)

text \<open>
  Claim C9. A placement, once created, is never removed, never changes its home region, and its
  ownership epoch and state version never decrease, over every run of the store.
\<close>

theorem placement_monotone:
  assumes "db_ok db" "head db k = Some c"
  shows "\<exists>c'. head (fold db_apply ops db) k = Some c' \<and> pl_home_region c' = pl_home_region c \<and>
    pl_owner_epoch c \<le> pl_owner_epoch c' \<and> pl_state_version c \<le> pl_state_version c'"
  using pg_placements.home_region_stable [OF assms, of ops] pg_placements.progress_monotone [OF assms, of ops]
  unfolding db_apply_eq by auto

text \<open>
  A commit that changes the tables was sent by the owner of the current epoch from the
  current version, in a session whose lease is unexpired at the statement's clock; it changes
  only that actor's head, by one version. Other connections may write before its read-back.
\<close>

lemma commit_requires_lease:
  assumes "db_ok db" "db_ok (env db)" "commit_state env now q db = (res, db')" "db' \<noteq> db" "db' \<noteq> env db"
  shows "\<exists>c new. head db (cr_object q) = Some c \<and> pl_owner c = cr_owner q \<and> pl_owner_epoch c = cr_owner_epoch q \<and>
    pl_state_version c = cr_expected_version q \<and> active_lease db (cr_owner q) (cr_session_id q) now \<and>
    head db' = (head db)(cr_object q \<mapsto> new) \<and> pl_state_version new = pl_state_version c + 1 \<and>
    pl_state_object new = Some (cr_state_object q) \<and> res = Inr (Committed new)"
  using commit_step [OF assms(1-3)] assms(4,5) by (auto simp: commit_effect_def)

section \<open>Calls under interference\<close>

text \<open>
  When a commit and a claim may write, from what the tables hold at their statement: the request is valid, the
  placement is what the caller expects, the numbers fit \<^verbatim>\<open>BIGINT\<close>, and a commit's session holds the owner's lease.
\<close>

definition commit_enabled :: "i64 \<Rightarrow> state_commit_request \<Rightarrow> database \<Rightarrow> object_placement \<Rightarrow> bool" where
  "commit_enabled now q db c \<longleftrightarrow> validate_state_commit q = Inr () \<and> head db (cr_object q) = Some c \<and>
     pl_owner c = cr_owner q \<and> pl_owner_epoch c = cr_owner_epoch q \<and> pl_state_version c = cr_expected_version q \<and>
     uint (pl_state_version c) < i64_max \<and> active_lease db (cr_owner q) (cr_session_id q) now"

definition claim_enabled :: "actor_storage_key \<Rightarrow> object_placement option \<Rightarrow> host_id \<Rightarrow> string \<Rightarrow> database \<Rightarrow> bool" where
  "claim_enabled k e h r db \<longleftrightarrow> storage_key_validate k = Inr () \<and> validate_region r = Inr () \<and>
     (case e of
        None \<Rightarrow> head db k = None
      | Some x \<Rightarrow> pl_object x = k \<and> pl_home_region x = r \<and> pl_owner x \<noteq> h \<and>
          (\<exists>c. head db k = Some c \<and> pl_owner c = pl_owner x \<and> pl_owner_epoch c = pl_owner_epoch x \<and> pl_home_region c = r \<and>
             uint (pl_owner_epoch c) < i64_max))"

lemma row_epoch:
  assumes "db_ok db" "db_placements db (key_str k) = Some row"
  shows "uint (pl_owner_epoch (abs_row k row)) = pr_owner_epoch row" "uint (pl_state_version (abs_row k row)) = pr_state_version row"
    "0 \<le> pr_owner_epoch row" "pr_owner_epoch row \<le> i64_max" "0 \<le> pr_state_version row" "pr_state_version row \<le> i64_max"
  using db_ok_placement [OF assms]
  by (simp_all add: abs_row_def placement_row_ok_def uint_word_of_i64) (simp_all add: i64_ok_def)

lemma commit_statement_iff:
  assumes ok: "db_ok db" and valid: "validate_state_commit q = Inr ()"
  shows "(\<exists>row db'. commit_statement now q (uint (cr_owner_epoch q)) (uint (cr_expected_version q)) db = (Inr (Some row), db'))
    \<longleftrightarrow> (\<exists>c. commit_enabled now q db c)"
proof (cases "db_placements db (key_str (cr_object q))")
  case (Some row)
  note row = row_epoch [OF ok Some]
  have epoch: "pl_owner_epoch (abs_row (cr_object q) row) = cr_owner_epoch q \<longleftrightarrow> pr_owner_epoch row = uint (cr_owner_epoch q)"
    and version: "pl_state_version (abs_row (cr_object q) row) = cr_expected_version q \<longleftrightarrow> pr_state_version row = uint (cr_expected_version q)"
    using row by (metis word_uint_eqI)+
  have "pl_owner (abs_row (cr_object q) row) = cr_owner q \<longleftrightarrow> pr_owner_host_id row = host_str (cr_owner q)"
    by (cases "cr_owner q") (simp add: abs_row_def)
  with Some epoch version row valid show ?thesis
    by (auto simp: commit_statement_def commit_enabled_def head_def active_lease_def Let_def bigint_add_def i64_ok_def split: option.splits)
qed (simp add: commit_statement_def commit_enabled_def head_def)

text \<open>
  Claim C13. A commit under interference. Whatever operations other connections run between its statement and its
  read-back: a commit that is enabled when its statement runs advances exactly that actor's head by one version, to the
  snapshot and request it names, and says so; any other commit writes nothing, so that the tables are those the other connections
  leave. It then answers with the head it reads back, as committed only if that head is at the next version with this very
  snapshot and request.
\<close>

theorem interleaved_commit:
  assumes ok: "db_ok db" and run: "commit_state (fold db_apply others) now q db = (res, db')"
  shows "(\<forall>c. commit_enabled now q db c \<longrightarrow> (let new = c\<lparr>pl_state_version := pl_state_version c + 1,
       pl_state_object := Some (cr_state_object q), pl_last_request_id := Some (cr_request_id q)\<rparr>
       in res = Inr (Committed new) \<and> head db' = (head db)(cr_object q \<mapsto> new))) \<and>
    ((\<nexists>c. commit_enabled now q db c) \<longrightarrow>
       (case res of
          Inl _ \<Rightarrow> db' = db \<or> db' = fold db_apply others db
        | Inr (Committed p) \<Rightarrow> db' = fold db_apply others db \<and> head db' (cr_object q) = Some p \<and> is_replayed_commit p q
        | Inr (CurrentState p) \<Rightarrow> db' = fold db_apply others db \<and> head db' (cr_object q) = Some p \<and> \<not> is_replayed_commit p q))"
proof (cases "validate_state_commit q")
  case (Inl e)
  with run show ?thesis by (auto simp: commit_state_def commit_enabled_def)
next
  case (Inr u)
  obtain w d where stmt: "commit_statement now q (uint (cr_owner_epoch q)) (uint (cr_expected_version q)) db = (w, d)" by fastforce
  note step = commit_statement_step [OF ok stmt] and iff = commit_statement_iff [OF ok, of q now] and ok' = db_run_ok [OF ok, of others]
  have small: "uint (cr_owner_epoch q) \<le> i64_max \<and> uint (cr_expected_version q) \<le> i64_max" if "commit_enabled now q db c" for c
    using that row_epoch [OF ok, of "cr_object q"] by (auto simp: commit_enabled_def head_def)
  show ?thesis
  proof (cases "\<exists>c. commit_enabled now q db c")
    case True
    then obtain row where "w = Inr (Some row)" using iff Inr stmt by auto
    with step run Inr stmt small True show ?thesis
      by (auto simp: commit_state_def i64_of_u64_def commit_effect_def commit_enabled_def result_simps Let_def)
  next
    case False
    then have "\<forall>row. w \<noteq> Inr (Some row)" using iff Inr stmt by auto
    with step have "(\<exists>e. w = Inl e) \<and> d = db \<or> w = Inr None \<and> d = db" by auto
    with run Inr stmt ok' False show ?thesis
      by (auto simp: commit_state_def i64_of_u64_def placement_get_ok result_simps ok_or_def split: sum.splits option.splits if_splits)
  qed
qed

lemma claim_update_iff:
  assumes ok: "db_ok db"
  shows "(\<exists>row db'. claim_update_statement (key_str k) (host_str h) (host_str (pl_owner x)) (uint (pl_owner_epoch x)) r db = (Inr (Some row), db'))
    \<longleftrightarrow> (\<exists>c. head db k = Some c \<and> pl_owner c = pl_owner x \<and> pl_owner_epoch c = pl_owner_epoch x \<and> pl_home_region c = r \<and>
          uint (pl_owner_epoch c) < i64_max)"
proof (cases "db_placements db (key_str k)")
  case (Some row)
  note row = row_epoch [OF ok Some]
  have "pl_owner_epoch (abs_row k row) = pl_owner_epoch x \<longleftrightarrow> pr_owner_epoch row = uint (pl_owner_epoch x)"
    using row by (metis word_uint_eqI)
  moreover have "pl_owner (abs_row k row) = pl_owner x \<longleftrightarrow> pr_owner_host_id row = host_str (pl_owner x)"
    by (cases "pl_owner x") (simp add: abs_row_def)
  ultimately show ?thesis using Some row
    by (auto simp: claim_update_statement_def head_def Let_def bigint_add_def i64_ok_def abs_row_def)
qed (simp add: claim_update_statement_def head_def)

text \<open>
  Claim C14. A claim under interference. Whatever operations other connections run between its statement and its
  read-back: a claim that is enabled when its statement runs acquires the actor, as a new placement in epoch 1 or
  in the next epoch with region and state kept, and changes no other placement; any other claim writes nothing, never
  answers that it acquired the actor, and if it names a placement, that is the one in the tables it leaves.
\<close>

theorem interleaved_claim:
  assumes ok: "db_ok db" and run: "claim (fold db_apply others) k e h r db = (res, db')"
  shows "(claim_enabled k e h r db \<longrightarrow> (\<exists>new. claim_effect k h r (head db k) new \<and> res = Inr (Acquired new) \<and> head db' = (head db)(k \<mapsto> new))) \<and>
    (\<not> claim_enabled k e h r db \<longrightarrow> (db' = db \<or> db' = fold db_apply others db) \<and>
       (case res of Inl _ \<Rightarrow> True | Inr (Acquired _) \<Rightarrow> False | Inr (Current p) \<Rightarrow> head db' k = Some p))"
proof (cases "storage_key_validate k = Inr () \<and> validate_region r = Inr ()")
  case False
  with run show ?thesis by (auto simp: claim_def claim_enabled_def and_then_def split: sum.splits)
next
  case valid: True
  note ok' = db_run_ok [OF ok, of others]
  show ?thesis
  proof (cases e)
    case None
    obtain w d where stmt: "claim_insert_statement (key_str k) (host_str h) r db = (w, d)" by fastforce
    have "(\<exists>row. w = Some row) \<longleftrightarrow> head db k = None"
      using stmt by (auto simp: claim_insert_statement_def head_def Let_def split: option.splits)
    with claim_insert_step [OF ok stmt] run valid None stmt ok' show ?thesis
      by (auto simp: claim_def claim_enabled_def current_claim_ok result_simps split: option.splits)
  next
    case (Some x)
    obtain w d where stmt: "claim_update_statement (key_str k) (host_str h) (host_str (pl_owner x)) (uint (pl_owner_epoch x)) r db = (w, d)" by fastforce
    show ?thesis
    proof (cases "pl_object x = k \<and> pl_home_region x = r \<and> pl_owner x \<noteq> h \<and> uint (pl_owner_epoch x) \<le> i64_max")
      case True
      have "(\<exists>row. w = Inr (Some row)) \<longleftrightarrow> claim_enabled k e h r db"
        using claim_update_iff [OF ok, of k h x r] stmt True Some valid by (simp add: claim_enabled_def)
      with claim_update_step [OF ok stmt] run valid Some True stmt ok' show ?thesis
        by (auto simp: claim_def i64_of_u64_def current_claim_ok result_simps split: option.splits)
    next
      case False
      then have "\<not> claim_enabled k e h r db" using Some by (auto simp: claim_enabled_def)
      with False run valid Some ok show ?thesis
        by (auto simp: claim_def i64_of_u64_def current_claim_ok result_simps split: option.splits if_splits)
    qed
  qed
qed

section \<open>Refinement of the in-memory store\<close>

text \<open>
  Claim C18. While the committing session's lease is unexpired and the numbers fit \<^verbatim>\<open>BIGINT\<close>, the
  PostgreSQL commit is the in-memory commit on the placements it stores: the same answer (or both
  fail) and the same head afterwards.
\<close>

theorem commit_refines_local:
  assumes "db_ok db" "active_lease db (cr_owner q) (cr_session_id q) now"
    and "uint (cr_owner_epoch q) \<le> i64_max" "uint (cr_expected_version q) < i64_max"
    and "commit_state id now q db = (res, db')" "local_commit_state q (head db) = (res', s')"
  shows "ok res = ok res' \<and> head db' = s'"
proof (cases "db_placements db (key_str (cr_object q))")
  case (Some row)
  let ?c = "abs_row (cr_object q) row"
  have row: "placement_row_ok row" using db_ok_placement [OF assms(1) Some] .
  have hd: "head db (cr_object q) = Some ?c" by (simp add: head_def Some)
  have match: "pl_owner ?c = cr_owner q \<and> pl_owner_epoch ?c = cr_owner_epoch q \<and> pl_state_version ?c = cr_expected_version q
    \<longleftrightarrow> pr_owner_host_id row = host_str (cr_owner q) \<and> pr_owner_epoch row = uint (cr_owner_epoch q)
        \<and> pr_state_version row = uint (cr_expected_version q)"
    using row by (cases "cr_owner q") (auto simp: abs_row_def placement_row_ok_def word_of_i64_eq)
  have [simp]: "i64_of_u64 (cr_owner_epoch q) = Some (uint (cr_owner_epoch q))"
    "i64_of_u64 (cr_expected_version q) = Some (uint (cr_expected_version q))"
    using assms(3,4) by (simp_all add: i64_of_u64_def)
  show ?thesis
  proof (cases "validate_state_commit q")
    case (Inr u)
    show ?thesis
    proof (cases "pl_owner ?c = cr_owner q \<and> pl_owner_epoch ?c = cr_owner_epoch q \<and> pl_state_version ?c = cr_expected_version q")
      case True
      then have fits: "cr_expected_version q \<noteq> - 1" "i64_ok (pr_state_version row + 1)"
        using assms(4) match row word_of_bigint_succ [of "pr_state_version row"]
        by (auto simp: i64_ok_def placement_row_ok_def)
      then have "\<not> is_replayed_commit ?c q"
        using True by (simp add: is_replayed_commit_def saturating_add_one)
      with True fits match row assms(2,5,6) Inr Some hd word_of_bigint_succ [of "pr_state_version row"] show ?thesis
        by (auto simp: commit_state_def local_commit_state_def commit_statement_def active_lease_def placement_row_ok_def
            placement_from_row_ok abs_row_def checked_add_one bigint_add_def Let_def split: option.splits)
    next
      case False
      let ?answer = "Inr (if is_replayed_commit ?c q then Committed ?c else CurrentState ?c)"
      from False match have "commit_statement now q (uint (cr_owner_epoch q)) (uint (cr_expected_version q)) db = (Inr None, db)"
        by (auto simp: commit_statement_def Some)
      then have "commit_state id now q db = (?answer, db)"
        using Inr hd by (simp add: commit_state_def placement_get_ok [OF assms(1)] ok_or_def)
      moreover from False have "local_commit_state q (head db) = (?answer, head db)"
        by (auto simp: local_commit_state_def Inr hd)
      ultimately show ?thesis using assms(5,6) by simp
    qed
  qed (use assms(5,6) in \<open>simp add: commit_state_def local_commit_state_def\<close>)
qed (use assms in \<open>auto simp: commit_state_def local_commit_state_def commit_statement_def head_def
      placement_get_def i64_of_u64_def result_simps split: sum.splits if_splits\<close>)

text \<open>
  Claim C19. For a caller whose expectation is the placement it read, and an epoch below the
  \<^verbatim>\<open>BIGINT\<close> maximum, the PostgreSQL claim is the in-memory claim on the placements it stores.
\<close>

theorem claim_refines_local:
  assumes "db_ok db" "storage_key_validate k = Inr ()" "e = None \<or> e = head db k"
    and "\<And>p. e = Some p \<Longrightarrow> uint (pl_owner_epoch p) < i64_max"
    and "claim id k e h r db = (res, db')" "local_claim k e h r (head db) = (res', s')"
  shows "ok res = ok res' \<and> head db' = s'"
proof (cases "db_placements db (key_str k)")
  case None
  then have "head db k = None" by (simp add: head_def)
  with None assms(2,3,5,6) show ?thesis
    by (auto simp: claim_def local_claim_def claim_insert_statement_def placement_from_row_def u64_of_i64_def
        abs_row_def Let_def split: sum.splits)
next
  case (Some row)
  let ?c = "abs_row k row"
  have row: "placement_row_ok row" using db_ok_placement [OF assms(1) Some] .
  have hd: "head db k = Some ?c" by (simp add: head_def Some)
  note current = current_claim_ok [OF assms(1)]
  show ?thesis
  proof (cases e)
    case None
    with Some hd assms(2,5,6) current show ?thesis
      by (auto simp: claim_def local_claim_def claim_insert_statement_def split: sum.splits)
  next
    case (Some p)
    with assms(3,4) hd have p: "p = ?c" "uint (pl_owner_epoch ?c) < i64_max" by auto
    have epoch: "uint (pl_owner_epoch ?c) = pr_owner_epoch row" "pl_owner_epoch ?c \<noteq> - 1"
      using row word_of_bigint_succ [of "pr_owner_epoch row"]
      by (simp_all add: abs_row_def placement_row_ok_def uint_word_of_i64)
    have "bigint_add (pr_owner_epoch row) 1 = Inr (pr_owner_epoch row + 1)"
      "i64_of_u64 (pl_owner_epoch ?c) = Some (pr_owner_epoch row)"
      using p(2) epoch row by (simp_all add: i64_ok_def placement_row_ok_def i64_of_u64_def)
    with Some p(1) epoch hd row assms(2,5,6) current \<open>db_placements db (key_str k) = Some row\<close>
      word_of_bigint_succ [of "pr_owner_epoch row"] show ?thesis
      by (cases h) (auto simp: claim_def local_claim_def claim_update_statement_def placement_from_row_ok placement_row_ok_def
          abs_row_def checked_add_one bigint_add_def Let_def split: sum.splits if_splits)
  qed
qed

section \<open>Concrete runs\<close>

text \<open>
  One actor owned by \<^verbatim>\<open>host-a\<close> in epoch 1, whose session \<^verbatim>\<open>s1\<close> is leased until 31000; a commit of
  its first snapshot; and a claim by \<^verbatim>\<open>host-b\<close>.
\<close>

abbreviation (input) sample_key :: actor_storage_key where "sample_key \<equiv> ActorStorageKey ''ns.T.a''"

definition sample_placement :: "string \<Rightarrow> u64 \<Rightarrow> object_placement" where
  "sample_placement host epoch = \<lparr>pl_object = sample_key, pl_owner = HostId host, pl_owner_epoch = epoch,
     pl_home_region = ''eu-west'', pl_state_version = 0, pl_state_object = None, pl_last_request_id = None\<rparr>"

definition sample_db :: database where
  "sample_db = sample_lease_db\<lparr>db_placements := [''ns.T.a'' \<mapsto> \<lparr>pr_owner_host_id = ''host-a'', pr_owner_epoch = 1,
     pr_home_region = ''eu-west'', pr_state_version = 0, pr_state_object = None, pr_last_request_id = None\<rparr>]\<rparr>"

definition sample_commit :: state_commit_request where
  "sample_commit = \<lparr>cr_object = sample_key, cr_owner = HostId ''host-a'', cr_session_id = ''s1'', cr_owner_epoch = 1,
     cr_expected_version = 0, cr_state_object = ''ns/1.json'', cr_request_id = ''r1''\<rparr>"

lemma sample_db_ok [simp]: "db_ok sample_db"
  unfolding sample_db_def
  using sample_lease_db_ok by (auto simp: db_ok_def placement_row_ok_def i64_ok_def sample_lease_db_def empty_database_def lease_row_ok_def)

lemma sample_head: "head sample_db sample_key = Some (sample_placement ''host-a'' 1)"
  by (simp add: head_def sample_db_def abs_row_def sample_placement_def)

lemmas sample_evals = sample_commit_def sample_db_def sample_lease_db_def empty_database_def
  commit_state_def commit_statement_def validate_state_commit_def storage_key_validate_def
  i64_of_u64_def placement_from_row_def u64_of_i64_def bigint_add_def i64_ok_def placement_get_def ok_or_def
  is_replayed_commit_def claim_def claim_update_statement_def validate_region_def region_char_def
  ascii_defs sample_placement_def saturating_add_def Let_def

abbreviation (input) sample_claim :: "lease_op placement_op" where
  "sample_claim \<equiv> ClaimOp sample_key (Some (sample_placement ''host-a'' 1)) (HostId ''host-b'') ''eu-west''"

definition sample_committed :: object_placement where
  "sample_committed = (sample_placement ''host-a'' 1)\<lparr>pl_state_version := 1, pl_state_object := Some ''ns/1.json'',
     pl_last_request_id := Some ''r1''\<rparr>"

lemma sample_commit_run: "fst (commit_state id 2000 sample_commit sample_db) = Inr (Committed sample_committed)"
  by (simp add: sample_evals sample_committed_def)

lemma sample_claim_run:
  "fst (commit_state id 2500 sample_commit (fold db_apply [sample_claim] (snd (commit_state id 2000 sample_commit sample_db))))
     = Inr (Committed (sample_committed\<lparr>pl_owner := HostId ''host-b'', pl_owner_epoch := 2\<rparr>))"
  by (simp add: sample_evals sample_committed_def)

theorem commit_no_fork_witness:
  "\<exists>p db2. commit_state id 2500 sample_commit
     (fold db_apply [sample_claim] (snd (commit_state id 2000 sample_commit sample_db))) = (Inr (Committed p), db2) \<and>
     cr_state_object sample_commit = ''ns/1.json''"
proof -
  let ?db1 = "snd (commit_state id 2000 sample_commit sample_db)"
  have "commit_state id 2000 sample_commit sample_db = (Inr (Committed sample_committed), ?db1)"
    using sample_commit_run by (metis prod.collapse)
  moreover obtain p db2 where *: "commit_state id 2500 sample_commit (fold db_apply [sample_claim] ?db1) = (Inr (Committed p), db2)"
    using sample_claim_run by (metis prod.collapse)
  ultimately have "cr_state_object sample_commit = cr_state_object sample_commit"
    using commit_no_fork [OF sample_db_ok, of 2000 sample_commit sample_committed ?db1 2500 sample_commit "[sample_claim]"] by blast
  with * show ?thesis by (auto simp: sample_commit_def)
qed

theorem stale_epoch_fenced_witness:
  "head (snd (commit_state id 2500 sample_commit (fold db_apply [] (fold db_apply [sample_claim] sample_db)))) sample_key
     = Some (sample_placement ''host-b'' 2)"
proof -
  let ?db = "fold db_apply [sample_claim] sample_db"
  have hd: "head ?db sample_key = Some (sample_placement ''host-b'' 2)"
    by (simp add: sample_evals head_def abs_row_def)
  have "head (snd (commit_state id 2500 sample_commit (fold db_apply [] ?db))) = head (fold db_apply [] ?db)"
    by (rule stale_epoch_fenced [OF db_run_ok [OF sample_db_ok] hd _ _ surjective_pairing])
      (simp_all add: sample_placement_def sample_commit_def)
  with hd show ?thesis by simp
qed

theorem placement_monotone_witness:
  "\<exists>c. head (fold db_apply [sample_claim, CommitOp 2000 sample_commit] sample_db) sample_key = Some c \<and> pl_home_region c = ''eu-west''"
  using placement_monotone [OF sample_db_ok sample_head, of "[sample_claim, CommitOp 2000 sample_commit]"]
  by (auto simp: sample_placement_def)

lemma sample_commit_requires_lease:
  "active_lease sample_db (HostId ''host-a'') ''s1'' 2000 \<and> pl_state_version sample_committed = 1"
proof -
  let ?db1 = "snd (commit_state id 2000 sample_commit sample_db)"
  have "db_placements ?db1 ''ns.T.a'' \<noteq> db_placements sample_db ''ns.T.a''" by (simp add: sample_evals)
  then have "?db1 \<noteq> sample_db" by metis
  then show ?thesis
    using commit_requires_lease [of sample_db id 2000 sample_commit _ ?db1, OF _ _ surjective_pairing]
    by (auto simp: sample_commit_def sample_committed_def)
qed

theorem interleaved_commit_witness:
  "fst (commit_state (fold db_apply [sample_claim]) 2000 sample_commit sample_db) = Inr (Committed sample_committed)"
proof -
  have "commit_enabled 2000 sample_commit sample_db (sample_placement ''host-a'' 1)"
    using sample_head
    by (simp add: commit_enabled_def active_lease_def sample_commit_def sample_db_def sample_lease_db_def validate_state_commit_def
        storage_key_validate_def sample_placement_def ascii_defs)
  with interleaved_commit [where others = "[sample_claim]" and now = 2000 and q = sample_commit, OF sample_db_ok surjective_pairing] show ?thesis
    by (auto simp: Let_def sample_committed_def sample_commit_def sample_placement_def)
qed

theorem interleaved_claim_witness:
  "fst (claim (fold db_apply [CommitOp 2000 sample_commit]) sample_key (Some (sample_placement ''host-a'' 1)) (HostId ''host-b'') ''eu-west'' sample_db)
     = Inr (Acquired (sample_placement ''host-b'' 2))"
proof -
  have "claim_enabled sample_key (Some (sample_placement ''host-a'' 1)) (HostId ''host-b'') ''eu-west'' sample_db"
    using sample_head
    by (simp add: claim_enabled_def storage_key_validate_def validate_region_def region_char_def ascii_defs sample_placement_def)
  with interleaved_claim [where others = "[CommitOp 2000 sample_commit]" and k = sample_key and e = "Some (sample_placement ''host-a'' 1)" and
      h = "HostId ''host-b''" and r = "''eu-west''", OF sample_db_ok surjective_pairing] sample_head show ?thesis
    by (auto simp: claim_effect_def sample_placement_def)
qed

theorem commit_refines_local_witness:
  "ok (fst (local_commit_state sample_commit (head sample_db))) = Some (Committed sample_committed)"
  using commit_refines_local [OF sample_db_ok, of sample_commit 2000, OF _ _ _ surjective_pairing surjective_pairing]
    sample_commit_run
  by (simp add: active_lease_def sample_commit_def sample_db_def sample_lease_db_def ok_def)

theorem claim_refines_local_witness:
  "ok (fst (local_claim sample_key (Some (sample_placement ''host-a'' 1)) (HostId ''host-b'') ''eu-west'' (head sample_db)))
     = Some (Acquired (sample_placement ''host-b'' 2))"
proof -
  let ?e = "Some (sample_placement ''host-a'' 1)"
  have "fst (claim id sample_key ?e (HostId ''host-b'') ''eu-west'' sample_db) = Inr (Acquired (sample_placement ''host-b'' 2))"
    by (simp add: sample_evals)
  moreover have "ok (fst (claim id sample_key ?e (HostId ''host-b'') ''eu-west'' sample_db))
      = ok (fst (local_claim sample_key ?e (HostId ''host-b'') ''eu-west'' (head sample_db)))"
    by (rule claim_refines_local [THEN conjunct1, OF sample_db_ok _ _ _ surjective_pairing surjective_pairing])
      (simp_all add: sample_head storage_key_validate_def sample_placement_def)
  ultimately show ?thesis by (simp add: ok_def)
qed

end
