(* ===== verification/State_Log.thy ===== *)
theory State_Log
  imports Actor_Protocol
begin

text \<open>
  State snapshots (\<^verbatim>\<open>src/state_log.rs\<close>) and their HTTP transport (\<^verbatim>\<open>src/state_transport.rs\<close>).
  The JSON serializer, the URL parser and the HTTP client are libraries and parameters of the
  operations. The lemmas characterise the snapshots that are built and decoded and the classes
  of HTTP answers the transport accepts.
\<close>

abbreviation max_actor_state_bytes :: nat where "max_actor_state_bytes \<equiv> 16777216"

record state_snapshot =
  snap_state_version :: u64
  snap_owner_epoch :: u64
  snap_request_id :: string
  snap_state :: json
  snap_result :: json

text \<open>\<^verbatim>\<open>serde_json\<close>: values and snapshots to bytes, bytes to a snapshot.\<close>

record snapshot_codec =
  value_to_vec :: "json \<Rightarrow> string result"
  snapshot_to_vec :: "state_snapshot \<Rightarrow> string result"
  snapshot_from_slice :: "string \<Rightarrow> state_snapshot result"

definition snapshot_validate :: "snapshot_codec \<Rightarrow> state_snapshot \<Rightarrow> unit result" where
  "snapshot_validate codec s =
     and_then (ensure (0 < snap_state_version s) ''actor state version must be positive'') (\<lambda>_.
     and_then (ensure (0 < snap_owner_epoch s) ''owner epoch must be positive'') (\<lambda>_.
     and_then (ensure (snap_request_id s \<noteq> [] \<and> length (snap_request_id s) \<le> 255)
       ''actor state request ID is invalid'') (\<lambda>_.
     and_then (ensure (is_object (snap_state s)) ''actor state must be a JSON object'') (\<lambda>_.
     and_then (value_to_vec codec (snap_state s)) (\<lambda>bytes.
     ensure (length bytes \<le> max_actor_state_bytes) ''actor state exceeds the 16777216-byte limit'')))))"

definition snapshot_new ::
    "snapshot_codec \<Rightarrow> u64 \<Rightarrow> u64 \<Rightarrow> string \<Rightarrow> json \<Rightarrow> json \<Rightarrow> state_snapshot result" where
  "snapshot_new codec state_version owner_epoch request_id state res =
     (let snapshot = \<lparr>snap_state_version = state_version, snap_owner_epoch = owner_epoch,
            snap_request_id = request_id, snap_state = state, snap_result = res\<rparr>
      in and_then (snapshot_validate codec snapshot) (\<lambda>_. Inr snapshot))"

definition snapshot_decode :: "snapshot_codec \<Rightarrow> string \<Rightarrow> state_snapshot result" where
  "snapshot_decode codec bytes =
     and_then (with_context (snapshot_from_slice codec bytes) ''decode actor state snapshot'') (\<lambda>snapshot.
     and_then (snapshot_validate codec snapshot) (\<lambda>_. Inr snapshot))"

definition snapshot_encode :: "snapshot_codec \<Rightarrow> state_snapshot \<Rightarrow> string result" where
  "snapshot_encode codec s = and_then (snapshot_validate codec s) (\<lambda>_. snapshot_to_vec codec s)"

definition snapshot_replay :: "state_snapshot \<Rightarrow> string \<Rightarrow> json option" where
  "snapshot_replay s request_id = (if snap_request_id s = request_id then Some (snap_result s) else None)"

section \<open>Transport\<close>

datatype state_write = Written | AlreadyExists

record parsed_url =
  url_scheme :: string
  url_host :: "string option"

datatype http_request = HttpGet string | HttpPut string "(string \<times> string) list" string

record http_response =
  resp_status :: nat
  resp_body :: "string result"

text \<open>The HTTP client acts on the object store, of type \<open>'w\<close>.\<close>

record 'w http_client =
  parse_url :: "string \<Rightarrow> parsed_url result"
  http_send :: "http_request \<Rightarrow> 'w \<Rightarrow> http_response result \<times> 'w"

definition is_success :: "nat \<Rightarrow> bool" where
  "is_success status \<longleftrightarrow> 200 \<le> status \<and> status < 300"

definition validate_url :: "(string \<Rightarrow> parsed_url result) \<Rightarrow> string \<Rightarrow> unit result" where
  "validate_url parse url =
     and_then (with_context (parse url) ''parse signed actor-state URL'') (\<lambda>u.
     ensure ((url_scheme u = ''http'' \<or> url_scheme u = ''https'') \<and> url_host u \<noteq> None)
       ''signed actor-state URL must be HTTP or HTTPS'')"

definition transport_read :: "'w http_client \<Rightarrow> string \<Rightarrow> 'w \<Rightarrow> string result \<times> 'w" where
  "transport_read client signed_url w =
     (case validate_url (parse_url client) signed_url of
        Inl e \<Rightarrow> (Inl e, w)
      | Inr _ \<Rightarrow>
          (case http_send client (HttpGet signed_url) w of
             (response, w') \<Rightarrow>
               (and_then (with_context response ''read actor state through signed URL'') (\<lambda>r.
                and_then (ensure (is_success (resp_status r))
                  (''actor-state read failed with HTTP '' @ show_nat (resp_status r))) (\<lambda>_.
                with_context (resp_body r) ''read actor-state response body'')), w')))"

definition transport_write :: "'w http_client \<Rightarrow> string \<Rightarrow> string \<Rightarrow> 'w \<Rightarrow> state_write result \<times> 'w" where
  "transport_write client signed_url bytes w =
     (case validate_url (parse_url client) signed_url of
        Inl e \<Rightarrow> (Inl e, w)
      | Inr _ \<Rightarrow>
          (case http_send client (HttpPut signed_url [(''content-type'', ''application/json'')] bytes) w of
             (response, w') \<Rightarrow>
               (and_then (with_context response ''write actor state through signed URL'') (\<lambda>r.
                if resp_status r = 412 then Inr AlreadyExists
                else and_then (ensure (is_success (resp_status r))
                  (''actor-state write failed with HTTP '' @ show_nat (resp_status r))) (\<lambda>_.
                Inr Written)), w')))"

section \<open>Accepted snapshots\<close>

definition snapshot_ok :: "snapshot_codec \<Rightarrow> state_snapshot \<Rightarrow> bool" where
  "snapshot_ok codec s \<longleftrightarrow> 0 < snap_state_version s \<and> 0 < snap_owner_epoch s \<and>
     0 < length (snap_request_id s) \<and> length (snap_request_id s) \<le> 255 \<and> is_object (snap_state s) \<and>
     (\<exists>bytes. value_to_vec codec (snap_state s) = Inr bytes \<and> length bytes \<le> 16777216)"

lemma snapshot_validate_iff: "snapshot_validate codec s = Inr u \<longleftrightarrow> snapshot_ok codec s"
  by (auto simp: snapshot_validate_def snapshot_ok_def result_simps)

lemma snapshot_new_Inr:
  "snapshot_new codec v e r st x = Inr s \<longleftrightarrow>
     s = \<lparr>snap_state_version = v, snap_owner_epoch = e, snap_request_id = r, snap_state = st, snap_result = x\<rparr>
     \<and> snapshot_ok codec s"
  by (auto simp: snapshot_new_def Let_def result_simps snapshot_validate_iff)

lemma snapshot_decode_Inr:
  "snapshot_decode codec bytes = Inr s \<longleftrightarrow> snapshot_from_slice codec bytes = Inr s \<and> snapshot_ok codec s"
  by (auto simp: snapshot_decode_def result_simps snapshot_validate_iff)

text \<open>A serializer of snapshots with an empty state and result, for the concrete cases.\<close>

definition sample_snapshot :: state_snapshot where
  "sample_snapshot = \<lparr>snap_state_version = 1, snap_owner_epoch = 1, snap_request_id = ''r1'',
     snap_state = JObject [], snap_result = Null\<rparr>"

definition sample_codec :: snapshot_codec where
  "sample_codec = \<lparr>value_to_vec = (\<lambda>_. Inr ''{}''),
     snapshot_to_vec = (\<lambda>s. if s = sample_snapshot then Inr ''snapshot'' else Inl (Bail ''unsupported'')),
     snapshot_from_slice = (\<lambda>b. if b = ''snapshot'' then Inr sample_snapshot else Inl (Bail ''syntax''))\<rparr>"

lemma transport_read_Inr:
  "fst (transport_read client url w) = Inr bytes \<Longrightarrow>
   \<exists>r. fst (http_send client (HttpGet url) w) = Inr r \<and> is_success (resp_status r) \<and> resp_body r = Inr bytes"
  by (auto simp: transport_read_def result_simps split: sum.splits prod.splits if_splits)

end
