(* ===== verification/Auth.thy ===== *)
theory Auth
  imports Storage_Urls State_Log
begin

text \<open>
  Process tokens: verification (\<^verbatim>\<open>src/control_plane/auth.rs\<close>) and issuing
  (\<^verbatim>\<open>src/control_plane/issuer.rs\<close>). The JWT, JWK, UUID and URL libraries and the clock are
  parameters; \<^verbatim>\<open>jwt_faithful\<close> states what the source relies on: a token signed by the matching
  key decodes to the claims it was made from while issuer, audience and times are as the
  validation asks. A \<^verbatim>\<open>Duration\<close> is a number of milliseconds. The lemmas show that issued
  host tokens are accepted with the identity they were issued for, what an accepted token
  guarantees, and that the short-lived invocation tokens handed to workflows never pass as
  control-plane credentials.
\<close>

abbreviation clock_skew_seconds :: i64 where "clock_skew_seconds \<equiv> 5"
abbreviation workflow_deadline_grace_ms :: nat where "workflow_deadline_grace_ms \<equiv> 30000"
abbreviation invocation_target_ttl_seconds :: i64 where "invocation_target_ttl_seconds \<equiv> 60"

section \<open>Principals\<close>

datatype actor_token_purpose = ControlPlane | Invocation

fun purpose_claim :: "actor_token_purpose \<Rightarrow> process_role \<Rightarrow> string" where
  "purpose_claim ControlPlane Host = ''actor:authority''"
| "purpose_claim ControlPlane Workflow = ''actor:invoke''"
| "purpose_claim Invocation Workflow = ''actor:invoke''"
| "purpose_claim Invocation Host = ''actor:invoke''"

record actor_invocation_capability =
  cap_actor :: actor_key
  cap_host_id :: host_id
  cap_owner_epoch :: u64
  cap_state_version :: u64
  cap_state_read_url :: string

record actor_principal =
  prin_scope :: actor_scope
  prin_host_id :: host_id
  prin_session_id :: string
  prin_process_role :: process_role
  prin_region :: string
  prin_private_routing :: bool
  prin_code_revision :: "string option"
  prin_expires_at :: i64
  prin_invocation :: "actor_invocation_capability option"

definition for_external_socket :: "string \<Rightarrow> string \<Rightarrow> actor_key \<Rightarrow> string \<Rightarrow> i64 \<Rightarrow> actor_principal" where
  "for_external_socket host_uuid session_uuid actor region expires_at =
     \<lparr>prin_scope = \<lparr>scope_namespace_id = namespace_id actor\<rparr>,
      prin_host_id = HostId (''workflow.v1.'' @ namespace_id actor @ ''.socket.'' @ host_uuid),
      prin_session_id = session_uuid, prin_process_role = Workflow, prin_region = region,
      prin_private_routing = False, prin_code_revision = None, prin_expires_at = expires_at, prin_invocation = None\<rparr>"

definition validate_host_id :: "actor_principal \<Rightarrow> string \<Rightarrow> unit result" where
  "validate_host_id prin host =
     ensure (host = host_str (prin_host_id prin)) ''host does not match the authenticated host identity''"

definition host_id_prefix :: "actor_principal \<Rightarrow> string" where
  "host_id_prefix prin = ''host.v1.'' @ scope_namespace_id (prin_scope prin) @ ''.''"

section \<open>Claims and the JWT library\<close>

text \<open>The verifier's claims; the issuer's claims add issuer and audience. Both use the same JSON names.\<close>

record actor_jwt_claims =
  cl_sub :: string
  cl_namespace_id :: string
  cl_host_id :: string
  cl_session_id :: string
  cl_process_role :: process_role
  cl_region :: string
  cl_private_routing :: bool
  cl_code_revision :: "string option"
  cl_scope :: string
  cl_iat :: i64
  cl_nbf :: i64
  cl_exp :: i64
  cl_invocation :: "actor_invocation_capability option"

record issued_claims =
  ic_iss :: string
  ic_aud :: "string list"
  ic_claims :: actor_jwt_claims

record jwt_header =
  hdr_typ :: "string option"
  hdr_kid :: "string option"

record jwt_validation =
  val_issuer :: string
  val_audience :: string
  val_leeway :: i64

record ('sk, 'vk) jwt_library =
  jwt_decode_header :: "string \<Rightarrow> jwt_header result"
  jwt_decode :: "string \<Rightarrow> 'vk \<Rightarrow> jwt_validation \<Rightarrow> actor_jwt_claims result"
  jwt_encode :: "jwt_header \<Rightarrow> issued_claims \<Rightarrow> 'sk \<Rightarrow> string result"
  uuid_parse :: "string \<Rightarrow> bool"
  auth_parse_url :: "string \<Rightarrow> parsed_url result"

record 'vk jwt_verifier =
  ver_public_keys :: "string \<rightharpoonup> 'vk"
  ver_validation :: jwt_validation
  ver_purpose :: actor_token_purpose
  ver_max_lifetime_ms :: nat

section \<open>Verification\<close>

definition is_ascii_whitespace :: "char \<Rightarrow> bool" where
  "is_ascii_whitespace c \<longleftrightarrow> c \<in> {CHR '' '', CHR 0x09, CHR 0x0A, CHR 0x0C, CHR 0x0D}"

text \<open>\<^verbatim>\<open>split_ascii_whitespace\<close>: the maximal runs of other characters.\<close>

fun split_ascii_whitespace :: "string \<Rightarrow> string \<Rightarrow> string list" where
  "split_ascii_whitespace word [] = (if word = [] then [] else [word])"
| "split_ascii_whitespace word (c # cs) =
     (if is_ascii_whitespace c
      then (if word = [] then [] else [word]) @ split_ascii_whitespace [] cs
      else split_ascii_whitespace (word @ [c]) cs)"

definition bearer_token :: "string \<Rightarrow> string result" where
  "bearer_token authorization =
     and_then (ok_or (strip_prefix ''Bearer '' authorization) ''actor token must use Bearer authentication'') (\<lambda>token.
     and_then (ensure (token \<noteq> [] \<and> is_trimmed token) ''actor token is invalid'') (\<lambda>_. Inr token))"

definition from_decoded_public_keys ::
    "(string \<times> 'vk) list \<Rightarrow> string \<Rightarrow> string \<Rightarrow> actor_token_purpose \<Rightarrow> nat \<Rightarrow> 'vk jwt_verifier result" where
  "from_decoded_public_keys public_keys issuer audience purpose max_lifetime_ms =
     and_then (ensure (max_lifetime_ms \<noteq> 0) ''actor JWT maximum lifetime must be positive'') (\<lambda>_.
     and_then (ensure (public_keys \<noteq> []) ''actor JWT public-key set must not be empty'') (\<lambda>_.
     and_then (ensure (issuer \<noteq> []) ''actor JWT issuer must not be empty'') (\<lambda>_.
     and_then (ensure (audience \<noteq> []) ''actor JWT audience must not be empty'') (\<lambda>_.
     Inr \<lparr>ver_public_keys = map_of (rev public_keys),
          ver_validation = \<lparr>val_issuer = issuer, val_audience = audience, val_leeway = clock_skew_seconds\<rparr>,
          ver_purpose = purpose, ver_max_lifetime_ms = max_lifetime_ms\<rparr>))))"

text \<open>A JWK: its key identifier, its algorithm, and the decoding key the library makes of it.\<close>

record 'vk jwk =
  jwk_key_id :: "string option"
  jwk_algorithm :: "string option"
  jwk_decoding_key :: "'vk result"

fun decode_jwks :: "'vk jwk list \<Rightarrow> (string \<times> 'vk) list result" where
  "decode_jwks [] = Inr []"
| "decode_jwks (key # keys) =
     and_then (ok_or (jwk_key_id key) ''actor JWT key ID must not be empty'') (\<lambda>key_id.
     and_then (ensure (jwk_algorithm key = Some ''EdDSA'') (''actor JWT public key '' @ key_id @ '' must use EdDSA'')) (\<lambda>_.
     and_then (with_context (jwk_decoding_key key) (''decode actor JWT public key '' @ key_id)) (\<lambda>decoding_key.
     and_then (decode_jwks keys) (\<lambda>rest. Inr ((key_id, decoding_key) # rest)))))"

definition decode_public_keys :: "(string \<Rightarrow> 'vk jwk list result) \<Rightarrow> string \<Rightarrow> (string \<times> 'vk) list result" where
  "decode_public_keys parse_jwks public_keys_json =
     and_then (with_context (parse_jwks public_keys_json) ''parse durable-object JWT public keys as a JWK set'') (\<lambda>keys.
     and_then (ensure (keys \<noteq> []) ''durable-object JWT public keys must contain at least one key'') (\<lambda>_.
     decode_jwks keys))"

definition for_scope ::
    "(string \<Rightarrow> 'vk jwk list result) \<Rightarrow> string \<Rightarrow> string \<Rightarrow> string \<Rightarrow> actor_token_purpose \<Rightarrow> nat \<Rightarrow> 'vk jwt_verifier result" where
  "for_scope parse_jwks public_keys_json issuer audience purpose max_lifetime_ms =
     and_then (decode_public_keys parse_jwks public_keys_json) (\<lambda>public_keys.
     from_decoded_public_keys public_keys issuer audience purpose max_lifetime_ms)"

definition validate_capability ::
    "(string \<Rightarrow> parsed_url result) \<Rightarrow> actor_principal \<Rightarrow> actor_invocation_capability \<Rightarrow> unit result" where
  "validate_capability parse prin capability =
     and_then (ensure (prin_process_role prin = Host)
       ''actor invocation capability has an invalid process role'') (\<lambda>_.
     and_then (ensure (cap_host_id capability = prin_host_id prin)
       ''actor invocation capability targets another host'') (\<lambda>_.
     and_then (ensure (scope_contains (prin_scope prin) (cap_actor capability))
       ''actor invocation capability crossed namespace scope'') (\<lambda>_.
     and_then (ensure (0 < cap_owner_epoch capability)
       ''actor invocation capability owner epoch is invalid'') (\<lambda>_.
     if cap_state_version capability = 0
     then ensure (cap_state_read_url capability = []) ''uninitialized actor invocation capability has a state URL''
     else and_then (with_context (parse (cap_state_read_url capability))
            ''actor invocation capability state URL is invalid'') (\<lambda>url.
          ensure ((url_scheme url = ''http'' \<or> url_scheme url = ''https'') \<and> url_host url \<noteq> None)
            ''actor invocation capability state URL must be HTTP or HTTPS'')))))"

definition principal_of :: "actor_jwt_claims \<Rightarrow> actor_principal" where
  "principal_of claims =
     \<lparr>prin_scope = \<lparr>scope_namespace_id = cl_namespace_id claims\<rparr>, prin_host_id = HostId (cl_host_id claims),
      prin_session_id = cl_session_id claims, prin_process_role = cl_process_role claims, prin_region = cl_region claims,
      prin_private_routing = cl_private_routing claims, prin_code_revision = cl_code_revision claims,
      prin_expires_at = cl_exp claims, prin_invocation = cl_invocation claims\<rparr>"

definition process_prefix :: "actor_principal \<Rightarrow> string" where
  "process_prefix prin =
     (case prin_process_role prin of
        Host \<Rightarrow> host_id_prefix prin
      | Workflow \<Rightarrow> ''workflow.v1.'' @ scope_namespace_id (prin_scope prin) @ ''.'')"

definition starts_with :: "string \<Rightarrow> string \<Rightarrow> bool" where
  "starts_with p s \<longleftrightarrow> take (length p) s = p"

text \<open>\<^verbatim>\<open>u64::try_from(exp.checked_sub(iat)?)\<close>.\<close>

definition token_lifetime :: "actor_jwt_claims \<Rightarrow> u64 result" where
  "token_lifetime claims =
     and_then (ok_or (i64_checked (cl_exp claims - cl_iat claims)) ''actor token lifetime is invalid'') (\<lambda>lifetime.
     ok_or (u64_of_i64 lifetime) ''actor token lifetime is invalid'')"

definition validate_claims ::
    "('sk, 'vk) jwt_library \<Rightarrow> i64 result \<Rightarrow> 'vk jwt_verifier \<Rightarrow> actor_jwt_claims \<Rightarrow> actor_principal result" where
  "validate_claims lib unix_seconds verifier claims =
     and_then (ensure (purpose_claim (ver_purpose verifier) (cl_process_role claims)
         \<in> set (split_ascii_whitespace [] (cl_scope claims))) ''actor token credential scope is invalid'') (\<lambda>_.
     and_then (ensure (cl_sub claims \<noteq> []) ''actor token subject is empty'') (\<lambda>_.
     and_then (if cl_process_role claims = Host
               then ensure (cl_sub claims = cl_host_id claims) ''host token subject does not match its process identity''
               else Inr ()) (\<lambda>_.
     and_then (ensure (uuid_parse lib (cl_session_id claims)) ''actor token session ID is invalid'') (\<lambda>_.
     and_then (ensure (cl_iat claims < cl_exp claims) ''actor token lifetime is invalid'') (\<lambda>_.
     and_then (token_lifetime claims) (\<lambda>lifetime_seconds.
     and_then (ensure (1000 * unat lifetime_seconds \<le> ver_max_lifetime_ms verifier)
       ''actor token lifetime exceeds the configured maximum'') (\<lambda>_.
     and_then unix_seconds (\<lambda>now.
     and_then (ensure (now < cl_exp claims) ''actor token has expired'') (\<lambda>_.
     and_then (ensure (cl_iat claims \<le> i64_saturating (now + clock_skew_seconds))
       ''actor token was issued in the future'') (\<lambda>_.
     (let prin = principal_of claims in
      and_then (scope_validate (prin_scope prin)) (\<lambda>_.
      and_then (ensure (starts_with (process_prefix prin) (host_str (prin_host_id prin)))
        ''actor token process does not belong to its namespace'') (\<lambda>_.
      and_then (ensure (prin_region prin \<noteq> [] \<and> length (prin_region prin) \<le> 64 \<and>
          (\<forall>c \<in> set (prin_region prin). region_char c)) ''actor token storage region is invalid'') (\<lambda>_.
      and_then (case prin_invocation prin of
                  None \<Rightarrow> Inr ()
                | Some capability \<Rightarrow> validate_capability (auth_parse_url lib) prin capability) (\<lambda>_.
      Inr prin))))))))))))))) "

definition verify_with_header ::
    "('sk, 'vk) jwt_library \<Rightarrow> i64 result \<Rightarrow> 'vk jwt_verifier \<Rightarrow> string \<Rightarrow> jwt_header \<Rightarrow> actor_principal result" where
  "verify_with_header lib unix_seconds verifier token header =
     and_then (ensure (case hdr_typ header of None \<Rightarrow> True | Some typ \<Rightarrow> typ = ''JWT'') ''actor token has an invalid type'') (\<lambda>_.
     and_then (ok_or (hdr_kid header) ''actor token key ID is empty'') (\<lambda>key_id.
     and_then (ok_or (ver_public_keys verifier key_id) (''actor token uses unknown key ID '' @ key_id)) (\<lambda>public_key.
     and_then (with_context (jwt_decode lib token public_key (ver_validation verifier)) ''verify actor JWT'') (\<lambda>claims.
     validate_claims lib unix_seconds verifier claims))))"

definition authenticate_authorization ::
    "('sk, 'vk) jwt_library \<Rightarrow> i64 result \<Rightarrow> 'vk jwt_verifier \<Rightarrow> string \<Rightarrow> actor_principal result" where
  "authenticate_authorization lib unix_seconds verifier authorization =
     and_then (bearer_token authorization) (\<lambda>token.
     and_then (with_context (jwt_decode_header lib token) ''actor token header is invalid'') (\<lambda>header.
     verify_with_header lib unix_seconds verifier token header))"

text \<open>The gRPC entry: a missing or unreadable header is unauthenticated too.\<close>

definition authenticate ::
    "('sk, 'vk) jwt_library \<Rightarrow> i64 result \<Rightarrow> 'vk jwt_verifier \<Rightarrow> string result option \<Rightarrow> actor_principal result" where
  "authenticate lib unix_seconds verifier metadata =
     (case metadata of
        None \<Rightarrow> Inl (Bail ''actor token is required'')
      | Some (Inl _) \<Rightarrow> Inl (Bail ''actor token is not valid metadata'')
      | Some (Inr authorization) \<Rightarrow> authenticate_authorization lib unix_seconds verifier authorization)"

section \<open>Issuing\<close>

record ('sk, 'vk) jwt_issuer =
  iss_encoding_key :: 'sk
  iss_public_key :: "'vk jwk"
  iss_key_id :: string
  iss_issuer :: string
  iss_authority_audience :: string
  iss_invocation_audience :: string
  iss_max_lifetime_ms :: nat

record issued_token =
  tok_token :: string
  tok_expires_at_ms :: i64

text \<open>
  \<open>load\<close>: the cryptographic libraries' reading of a PKCS#8 document into a signing key and the
  public decoding key; the JWK made of it carries the algorithm and the key identifier.
\<close>

definition from_base64_pkcs8 ::
    "(string \<Rightarrow> string result) \<Rightarrow> (string \<Rightarrow> ('sk \<times> 'vk result) result) \<Rightarrow> string \<Rightarrow> string \<Rightarrow> string \<Rightarrow> string \<Rightarrow> string \<Rightarrow> nat
     \<Rightarrow> ('sk, 'vk) jwt_issuer result" where
  "from_base64_pkcs8 decode load encoded_key key_id issuer authority_audience invocation_audience max_lifetime_ms =
     and_then (ensure (key_id \<noteq> []) ''DURABLE_OBJECT_JWT_KEY_ID must not be empty'') (\<lambda>_.
     and_then (ensure (max_lifetime_ms \<noteq> 0) ''actor JWT lifetime must be positive'') (\<lambda>_.
     and_then (ensure (issuer \<noteq> []) ''actor JWT issuer must not be empty'') (\<lambda>_.
     and_then (ensure (authority_audience \<noteq> []) ''actor authority JWT audience must not be empty'') (\<lambda>_.
     and_then (ensure (invocation_audience \<noteq> []) ''actor invocation JWT audience must not be empty'') (\<lambda>_.
     and_then (with_context (decode encoded_key) ''DURABLE_OBJECT_JWT_SIGNING_KEY must be base64-encoded PKCS#8'') (\<lambda>pkcs8.
     and_then (with_context (load pkcs8) ''DURABLE_OBJECT_JWT_SIGNING_KEY is not an Ed25519 PKCS#8 key'') (\<lambda>(encoding_key, public).
     Inr \<lparr>iss_encoding_key = encoding_key,
          iss_public_key = \<lparr>jwk_key_id = Some key_id, jwk_algorithm = Some ''EdDSA'', jwk_decoding_key = public\<rparr>,
          iss_key_id = key_id, iss_issuer = issuer, iss_authority_audience = authority_audience,
          iss_invocation_audience = invocation_audience, iss_max_lifetime_ms = max_lifetime_ms\<rparr>)))))))"

definition jwks :: "('sk, 'vk) jwt_issuer \<Rightarrow> 'vk jwk list" where
  "jwks issuer = [iss_public_key issuer]"

definition duration_millis :: "nat \<Rightarrow> i64 result" where
  "duration_millis ms = ok_or (i64_checked (int ms)) ''duration exceeds supported JWT range''"

definition issue :: "('sk, 'vk) jwt_library \<Rightarrow> ('sk, 'vk) jwt_issuer \<Rightarrow> issued_claims \<Rightarrow> issued_token result" where
  "issue lib issuer claims =
     and_then (ok_or (i64_checked (cl_exp (ic_claims claims) * 1000)) ''issued actor token expiration overflow'') (\<lambda>expires_at_ms.
     and_then (with_context (jwt_encode lib \<lparr>hdr_typ = Some ''JWT'', hdr_kid = Some (iss_key_id issuer)\<rparr> claims (iss_encoding_key issuer))
       ''sign actor JWT'') (\<lambda>token.
     Inr \<lparr>tok_token = token, tok_expires_at_ms = expires_at_ms\<rparr>))"

text \<open>The clock never reads before the epoch, so the source's truncating division is \<open>div\<close>.\<close>

definition issue_workflow ::
    "('sk, 'vk) jwt_library \<Rightarrow> i64 result \<Rightarrow> string \<Rightarrow> string \<Rightarrow> ('sk, 'vk) jwt_issuer \<Rightarrow> string \<Rightarrow> string \<Rightarrow> string \<Rightarrow> i64 \<Rightarrow> bool
     \<Rightarrow> issued_token result" where
  "issue_workflow lib unix_millis process_uuid session_uuid issuer namespace execution_id storage_region deadline_unix_ms private_routing =
     and_then (validate_region storage_region) (\<lambda>_.
     and_then unix_millis (\<lambda>now_ms.
     and_then (ensure (now_ms < deadline_unix_ms) ''workflow deadline must be in the future'') (\<lambda>_.
     and_then (duration_millis (iss_max_lifetime_ms issuer)) (\<lambda>max_ms.
     and_then (duration_millis workflow_deadline_grace_ms) (\<lambda>grace_ms.
     (let maximum_expiration = i64_saturating (now_ms + max_ms);
          requested_expiration = i64_saturating (deadline_unix_ms + grace_ms);
          expires_at_ms = min requested_expiration maximum_expiration
      in issue lib issuer
           \<lparr>ic_iss = iss_issuer issuer, ic_aud = [iss_authority_audience issuer, iss_invocation_audience issuer],
            ic_claims = \<lparr>cl_sub = execution_id, cl_namespace_id = namespace,
              cl_host_id = ''workflow.v1.'' @ namespace @ ''.'' @ process_uuid, cl_session_id = session_uuid,
              cl_process_role = Workflow, cl_region = storage_region, cl_private_routing = private_routing,
              cl_code_revision = None, cl_scope = ''actor:invoke'', cl_iat = now_ms div 1000, cl_nbf = now_ms div 1000,
              cl_exp = expires_at_ms div 1000, cl_invocation = None\<rparr>\<rparr>))))))"

definition host_claims :: "('sk, 'vk) jwt_issuer \<Rightarrow> string \<Rightarrow> host_id \<Rightarrow> string \<Rightarrow> string \<Rightarrow> string \<Rightarrow> i64 \<Rightarrow> i64 \<Rightarrow> issued_claims" where
  "host_claims issuer namespace host session code_revision region now_ms expires_at_ms =
     \<lparr>ic_iss = iss_issuer issuer, ic_aud = [iss_authority_audience issuer, iss_invocation_audience issuer],
      ic_claims = \<lparr>cl_sub = host_str host, cl_namespace_id = namespace, cl_host_id = host_str host,
        cl_session_id = session, cl_process_role = Host, cl_region = region, cl_private_routing = False,
        cl_code_revision = Some code_revision, cl_scope = ''actor:authority actor:invoke'',
        cl_iat = now_ms div 1000, cl_nbf = now_ms div 1000, cl_exp = expires_at_ms div 1000, cl_invocation = None\<rparr>\<rparr>"

definition issue_host ::
    "('sk, 'vk) jwt_library \<Rightarrow> i64 result \<Rightarrow> ('sk, 'vk) jwt_issuer \<Rightarrow> string \<Rightarrow> host_id \<Rightarrow> string \<Rightarrow> string \<Rightarrow> string
     \<Rightarrow> issued_token result" where
  "issue_host lib unix_millis issuer namespace host session code_revision region =
     and_then unix_millis (\<lambda>now_ms.
     and_then (duration_millis (iss_max_lifetime_ms issuer)) (\<lambda>max_ms.
     issue lib issuer (host_claims issuer namespace host session code_revision region now_ms (i64_saturating (now_ms + max_ms)))))"

definition target_claims ::
    "('sk, 'vk) jwt_issuer \<Rightarrow> actor_key \<Rightarrow> host_id \<Rightarrow> string \<Rightarrow> string \<Rightarrow> string \<Rightarrow> u64 \<Rightarrow> u64 \<Rightarrow> string \<Rightarrow> i64 \<Rightarrow> i64 \<Rightarrow> issued_claims" where
  "target_claims issuer actor host session code_revision region owner_epoch state_version state_read_url now expires_at =
     \<lparr>ic_iss = iss_issuer issuer, ic_aud = [iss_invocation_audience issuer],
      ic_claims = \<lparr>cl_sub = host_str host, cl_namespace_id = namespace_id actor, cl_host_id = host_str host,
        cl_session_id = session, cl_process_role = Host, cl_region = region, cl_private_routing = False,
        cl_code_revision = Some code_revision, cl_scope = ''actor:invoke'', cl_iat = now, cl_nbf = now, cl_exp = expires_at,
        cl_invocation = Some \<lparr>cap_actor = actor, cap_host_id = host, cap_owner_epoch = owner_epoch,
          cap_state_version = state_version, cap_state_read_url = state_read_url\<rparr>\<rparr>\<rparr>"

definition issue_invocation_target ::
    "('sk, 'vk) jwt_library \<Rightarrow> i64 result \<Rightarrow> ('sk, 'vk) jwt_issuer \<Rightarrow> actor_key \<Rightarrow> host_id \<Rightarrow> string \<Rightarrow> string \<Rightarrow> string
     \<Rightarrow> u64 \<Rightarrow> u64 \<Rightarrow> string \<Rightarrow> i64 \<Rightarrow> issued_token result" where
  "issue_invocation_target lib unix_millis issuer actor host session code_revision region owner_epoch state_version
       state_read_url workflow_expires_at =
     and_then (actor_validate actor) (\<lambda>_.
     and_then (validate_region region) (\<lambda>_.
     and_then (ensure (0 < owner_epoch) ''actor owner epoch must be positive'') (\<lambda>_.
     and_then unix_millis (\<lambda>now_ms.
     and_then (ok_or (i64_checked (int (iss_max_lifetime_ms issuer div 1000))) ''out of range integral type conversion attempted'') (\<lambda>max_secs.
     (let now = now_ms div 1000;
          target_expires_at = i64_saturating (now + invocation_target_ttl_seconds);
          issuer_expires_at = i64_saturating (now + max_secs);
          expires_at = min (min workflow_expires_at target_expires_at) issuer_expires_at
      in and_then (ensure (now < expires_at) ''workflow credential expires too soon'') (\<lambda>_.
         issue lib issuer (target_claims issuer actor host session code_revision region owner_epoch state_version
           state_read_url now expires_at))))))))"

section \<open>What an accepted token guarantees\<close>

lemma unat_word_of_i64: "0 \<le> n \<Longrightarrow> i64_ok n \<Longrightarrow> unat (word_of_int n :: u64) = nat n"
  using uint_word_of_i64 [of n] by (simp flip: nat_uint_eq)

lemma token_lifetime_Inr:
  "cl_iat cl < cl_exp cl \<Longrightarrow> token_lifetime cl = Inr n \<longleftrightarrow>
   i64_ok (cl_exp cl - cl_iat cl) \<and> n = word_of_int (cl_exp cl - cl_iat cl)"
  by (auto simp: token_lifetime_def i64_checked_def u64_of_i64_def ok_or_def split: if_splits)

lemma lifetime_limit:
  "cl_iat cl < cl_exp cl \<Longrightarrow> i64_ok (cl_exp cl - cl_iat cl) \<Longrightarrow>
   1000 * unat (word_of_int (cl_exp cl - cl_iat cl) :: u64) \<le> k \<longleftrightarrow> 1000 * (cl_exp cl - cl_iat cl) \<le> int k"
  by (subst unat_word_of_i64) (auto simp: nat_mult_distrib [of 1000, simplified, symmetric] nat_le_iff)

text \<open>The claims a verifier accepts.\<close>

definition claims_ok :: "('sk, 'vk) jwt_library \<Rightarrow> i64 \<Rightarrow> 'vk jwt_verifier \<Rightarrow> actor_jwt_claims \<Rightarrow> bool" where
  "claims_ok lib now verifier cl \<longleftrightarrow>
     purpose_claim (ver_purpose verifier) (cl_process_role cl) \<in> set (split_ascii_whitespace [] (cl_scope cl)) \<and>
     cl_sub cl \<noteq> [] \<and> (cl_process_role cl = Host \<longrightarrow> cl_sub cl = cl_host_id cl) \<and> uuid_parse lib (cl_session_id cl) \<and>
     cl_iat cl < cl_exp cl \<and> i64_ok (cl_exp cl - cl_iat cl) \<and>
     1000 * (cl_exp cl - cl_iat cl) \<le> int (ver_max_lifetime_ms verifier) \<and> now < cl_exp cl \<and>
     cl_iat cl \<le> i64_saturating (now + clock_skew_seconds) \<and>
     scope_validate \<lparr>scope_namespace_id = cl_namespace_id cl\<rparr> = Inr () \<and>
     starts_with (process_prefix (principal_of cl)) (cl_host_id cl) \<and> validate_region (cl_region cl) = Inr () \<and>
     (\<forall>cap. cl_invocation cl = Some cap \<longrightarrow> validate_capability (auth_parse_url lib) (principal_of cl) cap = Inr ())"

lemma validate_claims_iff:
  "validate_claims lib (Inr now) verifier cl = Inr prin \<longleftrightarrow> prin = principal_of cl \<and> claims_ok lib now verifier cl"
proof (cases "cl_iat cl < cl_exp cl")
  case True
  have "prin_scope (principal_of cl) = \<lparr>scope_namespace_id = cl_namespace_id cl\<rparr>" "prin_region (principal_of cl) = cl_region cl"
    "prin_invocation (principal_of cl) = cl_invocation cl" "host_str (prin_host_id (principal_of cl)) = cl_host_id cl"
    by (simp_all add: principal_of_def)
  with True show ?thesis
    unfolding validate_claims_def claims_ok_def Let_def
    by (simp only: and_then_eq_Inr token_lifetime_Inr ensure_eq_Inr)
      (auto simp: validate_region_def lifetime_limit simp del: of_int_diff split: option.splits if_splits)
qed (auto simp: validate_claims_def claims_ok_def and_then_eq_Inr)

lemma bearer_token_Inr: "bearer_token authorization = Inr token \<longleftrightarrow> authorization = ''Bearer '' @ token \<and> token \<noteq> [] \<and> is_trimmed token"
  unfolding bearer_token_def and_then_eq_Inr ok_or_eq_Inr strip_prefix_Some ensure_eq_Inr by blast

lemma validate_capability_iff:
  "validate_capability parse prin cap = Inr () \<longleftrightarrow> prin_process_role prin = Host \<and> cap_host_id cap = prin_host_id prin \<and>
     namespace_id (cap_actor cap) = scope_namespace_id (prin_scope prin) \<and> 0 < cap_owner_epoch cap \<and>
     (if cap_state_version cap = 0 then cap_state_read_url cap = []
      else \<exists>url. parse (cap_state_read_url cap) = Inr url \<and> url_scheme url \<in> {''http'', ''https''} \<and> url_host url \<noteq> None)"
  by (auto simp: validate_capability_def and_then_eq_Inr scope_contains_def with_context_def split: sum.splits if_splits)

lemma authenticate_authorization_Inr:
  "authenticate_authorization lib clock ver authorization = Inr prin \<longleftrightarrow>
   (\<exists>token header kid key cl. authorization = ''Bearer '' @ token \<and> token \<noteq> [] \<and> is_trimmed token \<and>
      jwt_decode_header lib token = Inr header \<and> hdr_typ header \<in> {None, Some ''JWT''} \<and> hdr_kid header = Some kid \<and>
      ver_public_keys ver kid = Some key \<and> jwt_decode lib token key (ver_validation ver) = Inr cl \<and> validate_claims lib clock ver cl = Inr prin)"
proof -
  have type_ok: "(case ty of None \<Rightarrow> True | Some name \<Rightarrow> name = jwt) \<longleftrightarrow> ty \<in> {None, Some jwt}" for ty :: "string option" and jwt
    by (auto split: option.splits)
  show ?thesis
    unfolding authenticate_authorization_def verify_with_header_def and_then_eq_Inr ensure_eq_Inr with_context_eq_Inr ok_or_eq_Inr bearer_token_Inr type_ok
    by blast
qed

lemma claims_ok_explicit:
  "claims_ok lib now ver cl \<longleftrightarrow>
     (if ver_purpose ver = ControlPlane \<and> cl_process_role cl = Host then ''actor:authority'' else ''actor:invoke'')
       \<in> set (split_ascii_whitespace [] (cl_scope cl)) \<and>
     cl_sub cl \<noteq> [] \<and> (cl_process_role cl = Host \<longrightarrow> cl_sub cl = cl_host_id cl) \<and> uuid_parse lib (cl_session_id cl) \<and>
     cl_iat cl < cl_exp cl \<and> i64_ok (cl_exp cl - cl_iat cl) \<and> 1000 * (cl_exp cl - cl_iat cl) \<le> int (ver_max_lifetime_ms ver) \<and>
     now < cl_exp cl \<and> cl_iat cl \<le> i64_saturating (now + 5) \<and>
     scope_validate \<lparr>scope_namespace_id = cl_namespace_id cl\<rparr> = Inr () \<and>
     starts_with (case cl_process_role cl of Host \<Rightarrow> ''host.v1.'' @ cl_namespace_id cl @ ''.''
       | Workflow \<Rightarrow> ''workflow.v1.'' @ cl_namespace_id cl @ ''.'') (cl_host_id cl) \<and> validate_region (cl_region cl) = Inr () \<and>
     (\<forall>cap. cl_invocation cl = Some cap \<longrightarrow> cl_process_role cl = Host \<and> host_str (cap_host_id cap) = cl_host_id cl \<and>
        namespace_id (cap_actor cap) = cl_namespace_id cl \<and> 0 < cap_owner_epoch cap \<and>
        (if cap_state_version cap = 0 then cap_state_read_url cap = []
         else \<exists>url. auth_parse_url lib (cap_state_read_url cap) = Inr url \<and> url_scheme url \<in> {''http'', ''https''} \<and> url_host url \<noteq> None))"
proof -
  have host: "cap_host_id cap = HostId h \<longleftrightarrow> host_str (cap_host_id cap) = h" for cap h by (cases "cap_host_id cap") simp
  have purpose: "purpose_claim (ver_purpose ver) role = (if ver_purpose ver = ControlPlane \<and> role = Host then ''actor:authority'' else ''actor:invoke'')"
    for role by (cases "ver_purpose ver"; cases role) simp_all
  have prefix: "process_prefix (principal_of cl) = (case cl_process_role cl of Host \<Rightarrow> ''host.v1.'' @ cl_namespace_id cl @ ''.''
      | Workflow \<Rightarrow> ''workflow.v1.'' @ cl_namespace_id cl @ ''.'')"
    by (simp add: principal_of_def process_prefix_def host_id_prefix_def split: process_role.splits)
  have prin: "prin_process_role (principal_of cl) = cl_process_role cl" "prin_host_id (principal_of cl) = HostId (cl_host_id cl)"
    "scope_namespace_id (prin_scope (principal_of cl)) = cl_namespace_id cl"
    by (simp_all add: principal_of_def)
  show ?thesis unfolding claims_ok_def purpose prefix validate_capability_iff prin host by (rule refl)
qed

text \<open>
  Claim C21. Exactly which credentials are accepted, and as whom. A verifier accepts a bearer token that decodes under one of
  its own keys, for its issuer and audience, to claims that carry the scope of its purpose (the authority scope
  for a host at the control plane, the invocation scope otherwise), are in date and live no longer than configured, and
  name a process of their own namespace; a capability is for the token's own host and namespace, with a state URL exactly
  when there is a state. The principal is what the signed claims say. Nothing else is accepted.
\<close>

theorem accepted_tokens:
  "authenticate_authorization lib (Inr now) ver authorization = Inr prin \<longleftrightarrow>
   (\<exists>token header kid key cl. authorization = ''Bearer '' @ token \<and> token \<noteq> [] \<and> is_trimmed token \<and>
      jwt_decode_header lib token = Inr header \<and> hdr_typ header \<in> {None, Some ''JWT''} \<and> hdr_kid header = Some kid \<and>
      ver_public_keys ver kid = Some key \<and> jwt_decode lib token key (ver_validation ver) = Inr cl \<and>
      (if ver_purpose ver = ControlPlane \<and> cl_process_role cl = Host then ''actor:authority'' else ''actor:invoke'')
        \<in> set (split_ascii_whitespace [] (cl_scope cl)) \<and>
      cl_sub cl \<noteq> [] \<and> (cl_process_role cl = Host \<longrightarrow> cl_sub cl = cl_host_id cl) \<and> uuid_parse lib (cl_session_id cl) \<and>
      cl_iat cl < cl_exp cl \<and> i64_ok (cl_exp cl - cl_iat cl) \<and> 1000 * (cl_exp cl - cl_iat cl) \<le> int (ver_max_lifetime_ms ver) \<and>
      now < cl_exp cl \<and> cl_iat cl \<le> i64_saturating (now + 5) \<and>
      scope_validate \<lparr>scope_namespace_id = cl_namespace_id cl\<rparr> = Inr () \<and>
      starts_with (case cl_process_role cl of Host \<Rightarrow> ''host.v1.'' @ cl_namespace_id cl @ ''.''
        | Workflow \<Rightarrow> ''workflow.v1.'' @ cl_namespace_id cl @ ''.'') (cl_host_id cl) \<and> validate_region (cl_region cl) = Inr () \<and>
      (\<forall>cap. cl_invocation cl = Some cap \<longrightarrow> cl_process_role cl = Host \<and> host_str (cap_host_id cap) = cl_host_id cl \<and>
         namespace_id (cap_actor cap) = cl_namespace_id cl \<and> 0 < cap_owner_epoch cap \<and>
         (if cap_state_version cap = 0 then cap_state_read_url cap = []
          else \<exists>url. auth_parse_url lib (cap_state_read_url cap) = Inr url \<and> url_scheme url \<in> {''http'', ''https''} \<and> url_host url \<noteq> None)) \<and>
      prin = \<lparr>prin_scope = \<lparr>scope_namespace_id = cl_namespace_id cl\<rparr>, prin_host_id = HostId (cl_host_id cl),
        prin_session_id = cl_session_id cl, prin_process_role = cl_process_role cl, prin_region = cl_region cl,
        prin_private_routing = cl_private_routing cl, prin_code_revision = cl_code_revision cl,
        prin_expires_at = cl_exp cl, prin_invocation = cl_invocation cl\<rparr>)"
  unfolding authenticate_authorization_Inr validate_claims_iff claims_ok_explicit principal_of_def by blast

section \<open>Issued tokens\<close>

definition jwt_faithful :: "('sk, 'vk) jwt_library \<Rightarrow> 'sk \<Rightarrow> 'vk \<Rightarrow> i64 \<Rightarrow> bool" where
  "jwt_faithful lib sk vk now \<longleftrightarrow>
     (\<forall>hdr c tok. jwt_encode lib hdr c sk = Inr tok \<longrightarrow>
        tok \<noteq> [] \<and> is_trimmed tok \<and> jwt_decode_header lib tok = Inr hdr \<and>
        (\<forall>v. ic_iss c = val_issuer v \<longrightarrow> val_audience v \<in> set (ic_aud c) \<longrightarrow>
           now < cl_exp (ic_claims c) + val_leeway v \<longrightarrow> cl_nbf (ic_claims c) \<le> now + val_leeway v \<longrightarrow>
           jwt_decode lib tok vk v = Inr (ic_claims c)))"

text \<open>A verifier configured for an issuer, for one of its audiences.\<close>

definition verifies :: "'vk jwt_verifier \<Rightarrow> ('sk, 'vk) jwt_issuer \<Rightarrow> 'vk \<Rightarrow> string \<Rightarrow> bool" where
  "verifies ver issuer vk audience \<longleftrightarrow> ver_public_keys ver (iss_key_id issuer) = Some vk \<and>
     ver_validation ver = \<lparr>val_issuer = iss_issuer issuer, val_audience = audience, val_leeway = clock_skew_seconds\<rparr>"

lemma issue_authenticates:
  assumes lib: "jwt_faithful lib (iss_encoding_key issuer) vk now" and ver: "verifies ver issuer vk audience"
    and tok: "issue lib issuer c = Inr tok"
    and c: "ic_iss c = iss_issuer issuer" "audience \<in> set (ic_aud c)" "cl_nbf (ic_claims c) \<le> now" "now < cl_exp (ic_claims c)"
  shows "authenticate_authorization lib (Inr now) ver (''Bearer '' @ tok_token tok) = validate_claims lib (Inr now) ver (ic_claims c)"
proof -
  let ?hdr = "\<lparr>hdr_typ = Some ''JWT'', hdr_kid = Some (iss_key_id issuer)\<rparr>"
  have enc: "jwt_encode lib ?hdr c (iss_encoding_key issuer) = Inr (tok_token tok)"
    using tok by (auto simp: issue_def result_simps ok_or_def split: option.splits)
  then have "tok_token tok \<noteq> []" "is_trimmed (tok_token tok)" "jwt_decode_header lib (tok_token tok) = Inr ?hdr"
    "jwt_decode lib (tok_token tok) vk (ver_validation ver) = Inr (ic_claims c)"
    using lib ver c by (auto simp: jwt_faithful_def verifies_def)
  moreover from this have "bearer_token (''Bearer '' @ tok_token tok) = Inr (tok_token tok)"
    by (simp add: bearer_token_def strip_prefix_def ok_or_def)
  ultimately show ?thesis
    unfolding authenticate_authorization_def using ver by (simp add: verify_with_header_def verifies_def ok_or_def with_context_def)
qed

text \<open>
  A token issued for a host is accepted by the control plane at the time it is issued,
  as the principal of exactly that host, session, namespace, revision and region, when the
  configured lifetime is a whole number of seconds.
\<close>

lemma host_token_accepted:
  assumes lib: "jwt_faithful lib (iss_encoding_key issuer) vk (now_ms div 1000)"
    and ver: "verifies ver issuer vk (iss_authority_audience issuer)" "ver_purpose ver = ControlPlane"
      "ver_max_lifetime_ms ver = iss_max_lifetime_ms issuer"
    and life: "1000 dvd iss_max_lifetime_ms issuer" "0 < iss_max_lifetime_ms issuer"
    and time: "0 \<le> now_ms" "now_ms + int (iss_max_lifetime_ms issuer) \<le> i64_max"
    and ids: "uuid_parse lib session" "scope_validate \<lparr>scope_namespace_id = namespace\<rparr> = Inr ()"
      "starts_with (''host.v1.'' @ namespace @ ''.'') (host_str host)" "validate_region region = Inr ()"
    and tok: "issue_host lib (Inr now_ms) issuer namespace host session revision region = Inr tok"
  shows "authenticate_authorization lib (Inr (now_ms div 1000)) ver (''Bearer '' @ tok_token tok) = Inr
    \<lparr>prin_scope = \<lparr>scope_namespace_id = namespace\<rparr>, prin_host_id = host, prin_session_id = session, prin_process_role = Host,
     prin_region = region, prin_private_routing = False, prin_code_revision = Some revision,
     prin_expires_at = (now_ms + int (iss_max_lifetime_ms issuer)) div 1000, prin_invocation = None\<rparr>"
proof -
  let ?m = "int (iss_max_lifetime_ms issuer)" and ?now = "now_ms div 1000"
  let ?c = "host_claims issuer namespace host session revision region now_ms (now_ms + ?m)"
  have sat: "i64_saturating (now_ms + ?m) = now_ms + ?m" using time by (simp add: i64_saturating_def)
  then have issued: "issue lib issuer ?c = Inr tok"
    using tok time by (simp add: issue_host_def duration_millis_def i64_checked_def i64_ok_def ok_or_def split: if_splits)
  obtain k where k: "?m = 1000 * k" "0 < k" using life by (auto elim!: dvdE)
  then have secs: "(now_ms + ?m) div 1000 = ?now + k" by simp
  have host: "host_str host \<noteq> []" using ids(3) by (auto simp: starts_with_def)
  have small: "k \<le> i64_max" "?now \<le> i64_max - 5" using k time by auto
  have scope: "''actor:authority'' \<in> set (split_ascii_whitespace [] ''actor:authority actor:invoke'')"
    by (simp add: is_ascii_whitespace_def)
  have "claims_ok lib ?now ver (ic_claims ?c)"
    unfolding claims_ok_def using ver(2,3) life time ids host k secs small scope
    by (simp add: host_claims_def i64_ok_def i64_saturating_def process_prefix_def principal_of_def host_id_prefix_def)
  moreover have "authenticate_authorization lib (Inr ?now) ver (''Bearer '' @ tok_token tok) = validate_claims lib (Inr ?now) ver (ic_claims ?c)"
    by (rule issue_authenticates [OF lib ver(1) issued]) (use k secs in \<open>auto simp: host_claims_def\<close>)
  moreover have "principal_of (ic_claims ?c) = \<lparr>prin_scope = \<lparr>scope_namespace_id = namespace\<rparr>, prin_host_id = host,
      prin_session_id = session, prin_process_role = Host, prin_region = region, prin_private_routing = False,
      prin_code_revision = Some revision, prin_expires_at = (now_ms + ?m) div 1000, prin_invocation = None\<rparr>"
    by (simp add: principal_of_def host_claims_def)
  ultimately show ?thesis using validate_claims_iff by metis
qed

lemma issue_invocation_target_Inr:
  assumes "issue_invocation_target lib (Inr now_ms) issuer actor host session revision region epoch state_version url wexp = Inr tok"
  obtains exp where "now_ms div 1000 < exp" "exp \<le> wexp" "exp \<le> i64_saturating (now_ms div 1000 + 60)"
    "issue lib issuer (target_claims issuer actor host session revision region epoch state_version url (now_ms div 1000) exp) = Inr tok"
    "actor_validate actor = Inr ()" "validate_region region = Inr ()" "0 < epoch"
proof -
  let ?secs = "ok_or (i64_checked (int (iss_max_lifetime_ms issuer div 1000))) ''out of range integral type conversion attempted''"
  note unfold = issue_invocation_target_def
  have a: "actor_validate actor = Inr ()" using assms by (cases "actor_validate actor") (simp_all add: unfold)
  have r: "validate_region region = Inr ()" using assms a by (cases "validate_region region") (simp_all add: unfold)
  have e: "0 < epoch" using assms a r by (simp add: unfold split: if_splits)
  obtain m where m: "?secs = Inr m" using assms a r e by (cases ?secs) (simp_all add: unfold)
  let ?exp = "min (min wexp (i64_saturating (now_ms div 1000 + 60))) (i64_saturating (now_ms div 1000 + m))"
  have "now_ms div 1000 < ?exp \<and>
      issue lib issuer (target_claims issuer actor host session revision region epoch state_version url (now_ms div 1000) ?exp) = Inr tok"
    using assms a r e m by (simp add: unfold Let_def split: if_splits)
  then show thesis using a r e by (intro that [of ?exp]) auto
qed

text \<open>The addressed host accepts an invocation token with exactly the capability it was issued for.\<close>

lemma invocation_token_accepted:
  assumes lib: "jwt_faithful lib (iss_encoding_key issuer) vk (now_ms div 1000)"
    and ver: "verifies ver issuer vk (iss_invocation_audience issuer)" "ver_purpose ver = Invocation"
      "60000 \<le> ver_max_lifetime_ms ver"
    and time: "0 \<le> now_ms" "now_ms \<le> 9007199254740991"
    and ids: "uuid_parse lib session" "starts_with (''host.v1.'' @ namespace_id actor @ ''.'') (host_str host)"
      "(state_version = 0 \<longrightarrow> url = []) \<and> (state_version \<noteq> 0 \<longrightarrow> validate_url (auth_parse_url lib) url = Inr ())"
    and tok: "issue_invocation_target lib (Inr now_ms) issuer actor host session revision region epoch state_version url wexp = Inr tok"
  shows "\<exists>prin. authenticate_authorization lib (Inr (now_ms div 1000)) ver (''Bearer '' @ tok_token tok) = Inr prin \<and>
      prin_invocation prin = Some \<lparr>cap_actor = actor, cap_host_id = host, cap_owner_epoch = epoch,
        cap_state_version = state_version, cap_state_read_url = url\<rparr> \<and>
      prin_host_id prin = host \<and> prin_expires_at prin \<le> wexp \<and> prin_expires_at prin \<le> now_ms div 1000 + 60"
proof -
  let ?now = "now_ms div 1000"
  let ?claims = "target_claims issuer actor host session revision region epoch state_version url ?now"
  have words: "split_ascii_whitespace [] ''actor:invoke'' = [''actor:invoke'']" by (simp add: is_ascii_whitespace_def)
  have now: "0 \<le> ?now" "?now \<le> 9007199254740" using time by auto
  obtain exp where exp: "?now < exp" "exp \<le> wexp" "exp \<le> ?now + 60" and issued: "issue lib issuer (?claims exp) = Inr tok"
    and valid: "actor_validate actor = Inr ()" "validate_region region = Inr ()" "0 < epoch"
    by (rule issue_invocation_target_Inr [OF tok]) (use now in \<open>simp add: i64_saturating_def\<close>)
  have scope: "scope_validate \<lparr>scope_namespace_id = namespace_id actor\<rparr> = Inr ()"
    using valid(1) by (auto simp: actor_validate_def scope_validate_def and_then_eq_Inr)
  have host: "host_str host \<noteq> []" using ids(2) by (auto simp: starts_with_def)
  have "claims_ok lib ?now ver (ic_claims (?claims exp))"
    unfolding claims_ok_def using ver(2,3) ids scope host exp valid now words
    by (auto simp: target_claims_def i64_ok_def i64_saturating_def process_prefix_def principal_of_def host_id_prefix_def
        validate_capability_def scope_contains_def validate_url_def result_simps)
  then have "validate_claims lib (Inr ?now) ver (ic_claims (?claims exp)) = Inr (principal_of (ic_claims (?claims exp)))"
    by (simp add: validate_claims_iff)
  moreover have "authenticate_authorization lib (Inr ?now) ver (''Bearer '' @ tok_token tok)
      = validate_claims lib (Inr ?now) ver (ic_claims (?claims exp))"
    by (rule issue_authenticates [OF lib ver(1) issued]) (use exp in \<open>auto simp: target_claims_def\<close>)
  ultimately show ?thesis
    using exp by (simp add: principal_of_def target_claims_def)
qed

text \<open>
  Claim C22. The token handed to a workflow for one invocation is accepted by the addressed host,
  with the capability for exactly that actor, epoch and state, for at most sixty seconds and never
  longer than the workflow's own token; the control plane refuses it as a credential at any time.
\<close>

theorem invocation_token_scope:
  assumes lib: "jwt_faithful lib (iss_encoding_key issuer) vk (now_ms div 1000)"
    and ver: "verifies ver issuer vk (iss_invocation_audience issuer)" "ver_purpose ver = Invocation"
      "60000 \<le> ver_max_lifetime_ms ver"
    and time: "0 \<le> now_ms" "now_ms \<le> 9007199254740991"
    and ids: "uuid_parse lib session" "starts_with (''host.v1.'' @ namespace_id actor @ ''.'') (host_str host)"
      "(state_version = 0 \<longrightarrow> url = []) \<and> (state_version \<noteq> 0 \<longrightarrow> validate_url (auth_parse_url lib) url = Inr ())"
    and tok: "issue_invocation_target lib (Inr now_ms) issuer actor host session revision region epoch state_version url wexp = Inr tok"
  shows "(\<exists>prin. authenticate_authorization lib (Inr (now_ms div 1000)) ver (''Bearer '' @ tok_token tok) = Inr prin \<and>
      prin_invocation prin = Some \<lparr>cap_actor = actor, cap_host_id = host, cap_owner_epoch = epoch,
        cap_state_version = state_version, cap_state_read_url = url\<rparr> \<and>
      prin_host_id prin = host \<and> prin_expires_at prin \<le> wexp \<and> prin_expires_at prin \<le> now_ms div 1000 + 60) \<and>
    (\<forall>cp now exp. ver_purpose cp = ControlPlane \<longrightarrow> \<not> is_ok (validate_claims lib now cp
      (ic_claims (target_claims issuer actor host session revision region epoch state_version url (now_ms div 1000) exp))))"
proof (intro conjI allI impI)
  show "\<not> is_ok (validate_claims lib now cp
      (ic_claims (target_claims issuer actor host session revision region epoch state_version url (now_ms div 1000) exp)))"
    if "ver_purpose cp = ControlPlane" for cp now exp
    using that by (simp add: validate_claims_def target_claims_def is_ascii_whitespace_def)
qed (rule invocation_token_accepted [OF assms])

section \<open>Concrete tokens\<close>

text \<open>A library that signs one set of claims as the token \<^verbatim>\<open>tok\<close>, for the concrete cases.\<close>

definition sample_lib :: "issued_claims \<Rightarrow> (unit, unit) jwt_library" where
  "sample_lib c =
     (let hdr = \<lparr>hdr_typ = Some ''JWT'', hdr_kid = Some ''k1''\<rparr> in
      \<lparr>jwt_decode_header = (\<lambda>t. if t = ''tok'' then Inr hdr else Inl (Bail ''header'')),
       jwt_decode = (\<lambda>t _ _. if t = ''tok'' then Inr (ic_claims c) else Inl (Bail ''signature'')),
       jwt_encode = (\<lambda>h d _. if h = hdr \<and> d = c then Inr ''tok'' else Inl (Bail ''unsupported'')),
       uuid_parse = (\<lambda>s. s = ''u1''), auth_parse_url = (\<lambda>_. Inl (Bail ''url''))\<rparr>)"

lemma tok_trimmed: "is_trimmed ''tok''"
  by code_simp

lemma sample_lib_faithful: "jwt_faithful (sample_lib c) sk vk now"
  by (auto simp: jwt_faithful_def sample_lib_def Let_def tok_trimmed split: if_splits)

definition sample_issuer :: "(unit, unit) jwt_issuer" where
  "sample_issuer = \<lparr>iss_encoding_key = (), iss_public_key = \<lparr>jwk_key_id = Some ''k1'', jwk_algorithm = Some ''EdDSA'', jwk_decoding_key = Inr ()\<rparr>,
     iss_key_id = ''k1'', iss_issuer = ''iss'', iss_authority_audience = ''cp'', iss_invocation_audience = ''host'',
     iss_max_lifetime_ms = 3600000\<rparr>"

definition sample_verifier :: "actor_token_purpose \<Rightarrow> string \<Rightarrow> unit jwt_verifier" where
  "sample_verifier purpose audience = \<lparr>ver_public_keys = [''k1'' \<mapsto> ()],
     ver_validation = \<lparr>val_issuer = ''iss'', val_audience = audience, val_leeway = 5\<rparr>, ver_purpose = purpose,
     ver_max_lifetime_ms = 3600000\<rparr>"

lemma sample_verifies: "verifies (sample_verifier p a) sample_issuer () a"
  by (simp add: verifies_def sample_verifier_def sample_issuer_def)

abbreviation (input) host_a :: host_id where "host_a \<equiv> HostId ''host.v1.ns.r1.a''"

lemma sample_host_token_accepted:
  "\<exists>tok prin. issue_host (sample_lib (host_claims sample_issuer ''ns'' host_a ''u1'' ''r1'' ''eu-west'' 5000 3605000)) (Inr 5000)
      sample_issuer ''ns'' host_a ''u1'' ''r1'' ''eu-west'' = Inr tok \<and>
    authenticate_authorization (sample_lib (host_claims sample_issuer ''ns'' host_a ''u1'' ''r1'' ''eu-west'' 5000 3605000)) (Inr 5)
      (sample_verifier ControlPlane ''cp'') (''Bearer '' @ tok_token tok) = Inr prin \<and> prin_expires_at prin = 3605"
proof -
  let ?c = "host_claims sample_issuer ''ns'' host_a ''u1'' ''r1'' ''eu-west'' 5000 3605000"
  let ?tok = "\<lparr>tok_token = ''tok'', tok_expires_at_ms = 3605000\<rparr>"
  have issued: "issue_host (sample_lib ?c) (Inr 5000) sample_issuer ''ns'' host_a ''u1'' ''r1'' ''eu-west'' = Inr ?tok"
    by (simp add: issue_host_def issue_def sample_lib_def Let_def duration_millis_def i64_checked_def i64_ok_def ok_or_def
        i64_saturating_def) (simp add: sample_issuer_def host_claims_def)
  have v: "validate_region ''eu-west'' = Inr ()" "scope_validate \<lparr>scope_namespace_id = ''ns''\<rparr> = Inr ()"
    by (simp_all add: validate_region_def region_char_def scope_validate_def validate_component_def component_char_def ascii_defs)
  have "authenticate_authorization (sample_lib ?c) (Inr (5000 div 1000)) (sample_verifier ControlPlane ''cp'')
      (''Bearer '' @ tok_token ?tok) = Inr \<lparr>prin_scope = \<lparr>scope_namespace_id = ''ns''\<rparr>, prin_host_id = host_a,
      prin_session_id = ''u1'', prin_process_role = Host, prin_region = ''eu-west'', prin_private_routing = False,
      prin_code_revision = Some ''r1'', prin_expires_at = (5000 + int (iss_max_lifetime_ms sample_issuer)) div 1000, prin_invocation = None\<rparr>"
    by (rule host_token_accepted [OF _ _ _ _ _ _ _ _ _ v(2) _ v(1) issued])
      (use sample_lib_faithful sample_verifies [of ControlPlane "''cp''"] in
        \<open>simp_all add: sample_verifier_def sample_issuer_def sample_lib_def starts_with_def Let_def\<close>)
  with issued show ?thesis by (auto simp: sample_issuer_def)
qed

theorem invocation_token_scope_witness:
  "\<exists>prin. authenticate_authorization (sample_lib (target_claims sample_issuer sample_actor (HostId ''host.v1.project-1.r1.a'') ''u1'' ''r1''
      ''eu-west'' 1 0 [] 5 65)) (Inr 5) (sample_verifier Invocation ''host'') ''Bearer tok'' = Inr prin \<and> prin_expires_at prin \<le> 65"
proof -
  let ?h = "HostId ''host.v1.project-1.r1.a''"
  let ?c = "target_claims sample_issuer sample_actor ?h ''u1'' ''r1'' ''eu-west'' 1 0 [] 5 65"
  let ?tok = "\<lparr>tok_token = ''tok'', tok_expires_at_ms = 65000\<rparr>"
  have v: "validate_region ''eu-west'' = Inr ()" by (simp add: validate_region_def region_char_def ascii_defs)
  have issued: "issue_invocation_target (sample_lib ?c) (Inr 5000) sample_issuer sample_actor ?h ''u1'' ''r1'' ''eu-west'' 1 0 [] 1000 = Inr ?tok"
    unfolding issue_invocation_target_def sample_actor_valid v
    by (simp add: issue_def sample_lib_def Let_def i64_checked_def i64_ok_def ok_or_def i64_saturating_def)
      (simp add: sample_issuer_def target_claims_def)
  show ?thesis
    using invocation_token_scope [OF sample_lib_faithful [of ?c "iss_encoding_key sample_issuer" "()"] _ _ _ _ _ _ _ _ issued, of "sample_verifier Invocation ''host''"]
      sample_verifies [of Invocation "''host''"]
    by (auto simp: sample_verifier_def sample_issuer_def sample_lib_def starts_with_def Let_def)
qed

theorem accepted_tokens_witness:
  "\<exists>cl. jwt_decode (sample_lib (host_claims sample_issuer ''ns'' host_a ''u1'' ''r1'' ''eu-west'' 5000 3605000)) ''tok'' ()
     (ver_validation (sample_verifier ControlPlane ''cp'')) = Inr cl \<and> 5 < cl_exp cl"
proof -
  let ?lib = "sample_lib (host_claims sample_issuer ''ns'' host_a ''u1'' ''r1'' ''eu-west'' 5000 3605000)"
  obtain tok prin where issued: "issue_host ?lib (Inr 5000) sample_issuer ''ns'' host_a ''u1'' ''r1'' ''eu-west'' = Inr tok"
    and accepted: "authenticate_authorization ?lib (Inr 5) (sample_verifier ControlPlane ''cp'') (''Bearer '' @ tok_token tok) = Inr prin"
    using sample_host_token_accepted by blast
  from issued have "tok_token tok = ''tok''"
    by (auto simp: issue_host_def issue_def sample_lib_def Let_def and_then_eq_Inr split: if_splits)
  with accepted [unfolded accepted_tokens] show ?thesis by auto
qed

end
