(* ===== verification/Admin.thy ===== *)
theory Admin
  imports Placement Auth
begin

text \<open>
  Deployments and the administrator's credential (\<^verbatim>\<open>src/control_plane/admin.rs\<close>): the launch
  specification of a namespace in PostgreSQL, its validation, and the operations of
  \<^verbatim>\<open>AdminService\<close>. The lemmas show that registering is an idempotent write that reads back, and
  reports a change exactly when the stored specification changes.
\<close>

record host_launch_spec =
  spec_namespace_id :: string
  spec_code_revision :: string
  spec_image_ref :: string
  spec_working_directory :: string
  spec_actor_entrypoint :: "string option"

definition admin_validate_component :: "string \<Rightarrow> string \<Rightarrow> nat \<Rightarrow> unit result" where
  "admin_validate_component name value maximum =
     and_then (ensure (value \<noteq> []) (name @ '' must not be empty'')) (\<lambda>_.
     and_then (ensure (length value \<le> maximum) (name @ '' must be at most '' @ show_nat maximum @ '' bytes'')) (\<lambda>_.
     ensure (\<forall>c \<in> set value. component_char c) (name @ '' contains unsupported characters'')))"

definition spec_validate :: "host_launch_spec \<Rightarrow> unit result" where
  "spec_validate spec =
     and_then (scope_validate \<lparr>scope_namespace_id = spec_namespace_id spec\<rparr>) (\<lambda>_.
     and_then (admin_validate_component ''code revision'' (spec_code_revision spec) 128) (\<lambda>_.
     and_then (ensure (spec_image_ref spec \<noteq> [] \<and> length (spec_image_ref spec) \<le> 255)
       ''sandbox image reference must contain between 1 and 255 bytes'') (\<lambda>_.
     and_then (ensure (starts_with ''/'' (spec_working_directory spec) \<and> length (spec_working_directory spec) \<le> 1024)
       ''host working directory must be an absolute path of at most 1024 bytes'') (\<lambda>_.
     (case spec_actor_entrypoint spec of
        None \<Rightarrow> Inr ()
      | Some entrypoint \<Rightarrow> ensure (entrypoint \<noteq> [] \<and> length entrypoint \<le> 1024)
          ''actor entrypoint must contain between 1 and 1024 bytes'')))))"

definition validate_namespace :: "string \<Rightarrow> unit result" where
  "validate_namespace namespace = scope_validate \<lparr>scope_namespace_id = namespace\<rparr>"

section \<open>The PostgreSQL registry\<close>

definition spec_row_of :: "host_launch_spec \<Rightarrow> spec_row" where
  "spec_row_of spec = \<lparr>sr_code_revision = spec_code_revision spec, sr_image_ref = spec_image_ref spec,
     sr_working_directory = spec_working_directory spec, sr_actor_entrypoint = spec_actor_entrypoint spec\<rparr>"

text \<open>
  One statement: the namespace is ensured, the specification inserted, or updated where some
  column is distinct; its row count is 1 when a row was inserted or updated.
\<close>

definition register_spec_statement :: "host_launch_spec \<Rightarrow> database \<Rightarrow> nat \<times> database" where
  "register_spec_statement spec db =
     (let db1 = db\<lparr>db_namespaces := insert (spec_namespace_id spec) (db_namespaces db)\<rparr> in
      if db_specs db (spec_namespace_id spec) = Some (spec_row_of spec) then (0, db1)
      else (1, db1\<lparr>db_specs := (db_specs db)(spec_namespace_id spec \<mapsto> spec_row_of spec)\<rparr>))"

definition ensure_namespace_and_register_deployment :: "host_launch_spec \<Rightarrow> database \<Rightarrow> bool result \<times> database" where
  "ensure_namespace_and_register_deployment spec db =
     (case spec_validate spec of
        Inl e \<Rightarrow> (Inl e, db)
      | Inr _ \<Rightarrow> (case register_spec_statement spec db of (n, db') \<Rightarrow> (Inr (n = 1), db')))"

definition launch_spec :: "string \<Rightarrow> database \<Rightarrow> host_launch_spec option result" where
  "launch_spec namespace db =
     and_then (validate_namespace namespace) (\<lambda>_.
     Inr (map_option (\<lambda>row. \<lparr>spec_namespace_id = namespace, spec_code_revision = sr_code_revision row,
       spec_image_ref = sr_image_ref row, spec_working_directory = sr_working_directory row,
       spec_actor_entrypoint = sr_actor_entrypoint row\<rparr>) (db_specs db namespace)))"

section \<open>The administrator's service\<close>

record ('sk, 'vk) admin_service =
  adm_token :: string
  adm_issuer :: "('sk, 'vk) jwt_issuer"

definition admin_new :: "string \<Rightarrow> ('sk, 'vk) jwt_issuer \<Rightarrow> ('sk, 'vk) admin_service result" where
  "admin_new token issuer =
     and_then (ensure (token \<noteq> [] \<and> is_trimmed token) ''admin token is invalid'') (\<lambda>_.
     Inr \<lparr>adm_token = token, adm_issuer = issuer\<rparr>)"

definition admin_authenticate :: "('sk, 'vk) admin_service \<Rightarrow> string \<Rightarrow> unit result" where
  "admin_authenticate admin authorization =
     and_then (ok_or (strip_prefix ''Bearer '' authorization) ''admin credential must use Bearer authentication'') (\<lambda>token.
     ensure (token \<noteq> [] \<and> is_trimmed token \<and> token = adm_token admin) ''admin credential is invalid'')"

definition current_deployment :: "string \<Rightarrow> database \<Rightarrow> host_launch_spec option result" where
  "current_deployment namespace db = launch_spec namespace db"

definition deployment_exists :: "string \<Rightarrow> database \<Rightarrow> bool result" where
  "deployment_exists namespace db = and_then (launch_spec namespace db) (\<lambda>spec. Inr (spec \<noteq> None))"

definition issue_workflow_token ::
    "('sk, 'vk) jwt_library \<Rightarrow> i64 result \<Rightarrow> string \<Rightarrow> string \<Rightarrow> ('sk, 'vk) admin_service \<Rightarrow> string \<Rightarrow> string \<Rightarrow> string \<Rightarrow> i64 \<Rightarrow> bool
     \<Rightarrow> issued_token result" where
  "issue_workflow_token lib unix_millis process_uuid session_uuid admin namespace execution_id storage_region deadline_unix_ms private_routing =
     issue_workflow lib unix_millis process_uuid session_uuid (adm_issuer admin) namespace execution_id storage_region
       deadline_unix_ms private_routing"

section \<open>Registration\<close>

lemma spec_row_roundtrip:
  "\<lparr>spec_namespace_id = spec_namespace_id spec, spec_code_revision = sr_code_revision (spec_row_of spec),
    spec_image_ref = sr_image_ref (spec_row_of spec), spec_working_directory = sr_working_directory (spec_row_of spec),
    spec_actor_entrypoint = sr_actor_entrypoint (spec_row_of spec)\<rparr> = spec"
  by (simp add: spec_row_of_def)

lemma spec_validate_namespace: "spec_validate spec = Inr u \<Longrightarrow> validate_namespace (spec_namespace_id spec) = Inr ()"
  by (auto simp: spec_validate_def validate_namespace_def and_then_eq_Inr)

lemma launch_spec_iff:
  assumes "spec_validate spec = Inr ()"
  shows "launch_spec (spec_namespace_id spec) d = Inr (Some spec) \<longleftrightarrow> db_specs d (spec_namespace_id spec) = Some (spec_row_of spec)"
proof (cases "db_specs d (spec_namespace_id spec)")
  case (Some r)
  then show ?thesis by (cases spec; cases r) (use spec_validate_namespace [OF assms] in \<open>auto simp: launch_spec_def spec_row_of_def\<close>)
qed (simp add: launch_spec_def spec_validate_namespace [OF assms])

text \<open>
  Registering a valid deployment makes it the namespace's deployment and reports a
  change exactly when another one (or none) was stored; registering it again reports no change
  and writes nothing; other namespaces and all leases and placements are untouched.
\<close>

theorem register_deployment_roundtrip:
  assumes "db_ok db" "spec_validate spec = Inr ()" "ensure_namespace_and_register_deployment spec db = (res, db')"
  shows "launch_spec (spec_namespace_id spec) db' = Inr (Some spec) \<and>
    res = Inr (launch_spec (spec_namespace_id spec) db \<noteq> Inr (Some spec)) \<and>
    ensure_namespace_and_register_deployment spec db' = (Inr False, db') \<and>
    (\<forall>n. n \<noteq> spec_namespace_id spec \<longrightarrow> launch_spec n db' = launch_spec n db) \<and>
    db_leases db' = db_leases db \<and> db_placements db' = db_placements db \<and> db_ok db'"
proof -
  have ns: "validate_namespace (spec_namespace_id spec) = Inr ()" using assms(2) by (rule spec_validate_namespace)
  note row = launch_spec_iff [OF assms(2)]
  have db': "db' = db\<lparr>db_namespaces := insert (spec_namespace_id spec) (db_namespaces db),
      db_specs := (db_specs db)(spec_namespace_id spec \<mapsto> spec_row_of spec)\<rparr>"
    using assms(2,3) by (auto simp: ensure_namespace_and_register_deployment_def register_spec_statement_def Let_def fun_upd_idem split: if_splits)
  have "db_ok db'" using assms(1) by (auto simp: db' db_ok_def)
  moreover have "launch_spec n db' = launch_spec n db" if "n \<noteq> spec_namespace_id spec" for n
    using that by (simp add: launch_spec_def db')
  ultimately show ?thesis
    using assms(2,3) row by (auto simp: ensure_namespace_and_register_deployment_def register_spec_statement_def db' insert_absorb Let_def split: if_splits)
qed

section \<open>The registry's contract\<close>

text \<open>
  \<^verbatim>\<open>AdminRegistry\<close>, the interface of both registries: an invalid specification is refused with its reason and nothing else, a valid one
  becomes its namespace's deployment and no other's, and the answer tells whether that changed anything.
\<close>

locale deployment_registry =
  fixes registering :: "host_launch_spec \<Rightarrow> 's \<Rightarrow> bool result \<times> 's"
    and reading :: "string \<Rightarrow> 's \<Rightarrow> host_launch_spec option result"
  assumes refused: "spec_validate spec = Inl e \<Longrightarrow> registering spec s = (Inl e, s)"
    and answered: "spec_validate spec = Inr () \<Longrightarrow>
      fst (registering spec s) = Inr (reading (spec_namespace_id spec) s \<noteq> Inr (Some spec))"
    and stored: "spec_validate spec = Inr () \<Longrightarrow>
      reading n (snd (registering spec s)) = (if n = spec_namespace_id spec then Inr (Some spec) else reading n s)"
begin

primrec register_all :: "host_launch_spec list \<Rightarrow> 's \<Rightarrow> bool result list \<times> 's" where
  "register_all [] s = ([], s)"
| "register_all (spec # specs) s =
     (case registering spec s of (r, s1) \<Rightarrow> case register_all specs s1 of (rs, s2) \<Rightarrow> (r # rs, s2))"

text \<open>The deployment of a namespace is the last valid one that was registered.\<close>

lemma last_registered:
  "reading n (snd (register_all specs s)) =
     (case filter (\<lambda>spec. spec_namespace_id spec = n \<and> is_ok (spec_validate spec)) specs of
        [] \<Rightarrow> reading n s
      | valid \<Rightarrow> Inr (Some (last valid)))"
proof (induction specs arbitrary: s)
  case (Cons spec specs)
  have "reading n (snd (register_all (spec # specs) s)) = reading n (snd (register_all specs (snd (registering spec s))))"
    by (simp split: prod.splits)
  moreover have "reading n (snd (registering spec s)) =
      (if spec_namespace_id spec = n \<and> is_ok (spec_validate spec) then Inr (Some spec) else reading n s)"
    by (cases "spec_validate spec") (auto simp: refused stored)
  ultimately show ?case by (auto simp: Cons.IH split: list.splits)
qed simp

end

text \<open>Two registries that know the same deployments answer every sequence of registrations in the same way.\<close>

locale two_registries = one: deployment_registry registering reading + other: deployment_registry registering' reading'
  for registering :: "host_launch_spec \<Rightarrow> 's \<Rightarrow> bool result \<times> 's" and reading
    and registering' :: "host_launch_spec \<Rightarrow> 't \<Rightarrow> bool result \<times> 't" and reading'
begin

lemma same_answers:
  assumes "\<And>n. reading n s = reading' n t"
  shows "fst (one.register_all specs s) = fst (other.register_all specs t) \<and>
    (\<forall>n. reading n (snd (one.register_all specs s)) = reading' n (snd (other.register_all specs t)))"
  using assms
proof (induction specs arbitrary: s t)
  case (Cons spec specs)
  have "fst (registering spec s) = fst (registering' spec t) \<and>
      (\<forall>n. reading n (snd (registering spec s)) = reading' n (snd (registering' spec t)))"
    using Cons.prems by (cases "spec_validate spec") (auto simp: one.refused other.refused one.answered other.answered one.stored other.stored)
  with Cons.IH [of "snd (registering spec s)" "snd (registering' spec t)"] show ?case by (auto split: prod.splits)
qed simp

end

interpretation pg_registry: deployment_registry ensure_namespace_and_register_deployment launch_spec
proof
  show "ensure_namespace_and_register_deployment spec db = (Inl e, db)" if "spec_validate spec = Inl e" for spec e db
    using that by (simp add: ensure_namespace_and_register_deployment_def)
  show "fst (ensure_namespace_and_register_deployment spec db) = Inr (launch_spec (spec_namespace_id spec) db \<noteq> Inr (Some spec))"
    if "spec_validate spec = Inr ()" for spec db
    using that launch_spec_iff [OF that] by (simp add: ensure_namespace_and_register_deployment_def register_spec_statement_def Let_def)
  show "launch_spec n (snd (ensure_namespace_and_register_deployment spec db)) =
      (if n = spec_namespace_id spec then Inr (Some spec) else launch_spec n db)" if "spec_validate spec = Inr ()" for spec n db
    using that spec_validate_namespace [OF that]
    by (auto simp: ensure_namespace_and_register_deployment_def register_spec_statement_def Let_def launch_spec_def spec_row_roundtrip)
qed

section \<open>The registry in memory\<close>

text \<open>\<^verbatim>\<open>LocalAdminRegistry\<close>, compiled for the tests.\<close>

record local_admin_state =
  las_namespaces :: "string set"
  las_launch_specs :: "string \<rightharpoonup> host_launch_spec"

definition local_register_deployment :: "host_launch_spec \<Rightarrow> local_admin_state \<Rightarrow> bool result \<times> local_admin_state" where
  "local_register_deployment spec s =
     (case spec_validate spec of
        Inl e \<Rightarrow> (Inl e, s)
      | Inr _ \<Rightarrow>
          let s1 = s\<lparr>las_namespaces := insert (spec_namespace_id spec) (las_namespaces s)\<rparr>;
              changed = las_launch_specs s1 (spec_namespace_id spec) \<noteq> Some spec
          in (Inr changed, s1\<lparr>las_launch_specs := (las_launch_specs s1)(spec_namespace_id spec \<mapsto> spec)\<rparr>))"

definition local_launch_spec :: "string \<Rightarrow> local_admin_state \<Rightarrow> host_launch_spec option result" where
  "local_launch_spec namespace s = and_then (validate_namespace namespace) (\<lambda>_. Inr (las_launch_specs s namespace))"

interpretation local_registry: deployment_registry local_register_deployment local_launch_spec
  by unfold_locales
    (auto simp: local_register_deployment_def local_launch_spec_def Let_def spec_validate_namespace)

interpretation registries: two_registries local_register_deployment local_launch_spec ensure_namespace_and_register_deployment launch_spec ..

text \<open>The registry the tests use answers and stores what PostgreSQL does, from empty ones on.\<close>

lemma local_registry_same:
  "fst (local_registry.register_all specs \<lparr>las_namespaces = {}, las_launch_specs = Map.empty\<rparr>) =
     fst (pg_registry.register_all specs empty_database) \<and>
   local_launch_spec n (snd (local_registry.register_all specs \<lparr>las_namespaces = {}, las_launch_specs = Map.empty\<rparr>)) =
     launch_spec n (snd (pg_registry.register_all specs empty_database))"
  using registries.same_answers [of "\<lparr>las_namespaces = {}, las_launch_specs = Map.empty\<rparr>" empty_database specs]
  by (auto simp: local_launch_spec_def launch_spec_def empty_database_def)

definition sample_spec :: host_launch_spec where
  "sample_spec = \<lparr>spec_namespace_id = ''ns'', spec_code_revision = ''r1'', spec_image_ref = ''image'',
     spec_working_directory = ''/app'', spec_actor_entrypoint = None\<rparr>"

lemma sample_spec_valid: "spec_validate sample_spec = Inr ()"
  by (simp add: spec_validate_def sample_spec_def scope_validate_def validate_component_def admin_validate_component_def
      component_char_def ascii_defs starts_with_def)

theorem register_deployment_roundtrip_witness:
  "launch_spec ''ns'' (snd (ensure_namespace_and_register_deployment sample_spec empty_database)) = Inr (Some sample_spec)"
  using register_deployment_roundtrip [OF db_ok_empty sample_spec_valid surjective_pairing] by (simp add: sample_spec_def)

end
