(* ===== verification/Sandbox.thy ===== *)
theory Sandbox
  imports Actor_Protocol
begin

text \<open>
  The sandbox provider (\<^verbatim>\<open>src/sandbox.rs\<close> and \<^verbatim>\<open>src/sandbox/command_process.rs\<close>): the requests
  it is sent, the checks on its replies, and the pool of persistent provider processes, with the
  command loop at the other end (\<^verbatim>\<open>npm/providers/commandProcess.ts\<close>). What a command does and the JSON serializers are
  parameters. Timings of the provider are only logged and are left out. The lemmas show that a
  process whose exchange was cut short is never reused, so that every reply read from the pool is the
  reply to the request just written.
\<close>

abbreviation max_provider_output_bytes :: nat where "max_provider_output_bytes \<equiv> 1048576"

record ensure_host_request =
  ehr_namespace_id :: string
  ehr_code_revision :: string
  ehr_canonical_region :: string
  ehr_host_id :: host_id
  ehr_session_id :: string
  ehr_host_token :: string
  ehr_jwt_public_keys :: string
  ehr_control_plane_url :: string
  ehr_jwt_issuer :: string
  ehr_invocation_jwt_audience :: string
  ehr_image_ref :: string
  ehr_working_directory :: string
  ehr_actor_entrypoint :: "string option"
  ehr_actor_idle_timeout_ms :: u64
  ehr_host_idle_timeout_ms :: u64

record actor_host_handle =
  hdl_host_id :: host_id
  hdl_route :: string
  hdl_canonical_region :: string

record warm_image_request =
  wir_namespace_id :: string
  wir_code_revision :: string
  wir_canonical_region :: string
  wir_image_ref :: string

record terminate_hosts_request =
  thr_namespace_id :: string
  thr_code_revision :: string
  thr_canonical_regions :: "string list"

record public_host_route_request =
  phr_namespace_id :: string
  phr_code_revision :: string
  phr_canonical_region :: string

text \<open>What a provider command answers, by operation; \<open>'w\<close> is the provider's side.\<close>

record 'w sandbox_commands =
  cmd_ensure_host :: "ensure_host_request \<Rightarrow> 'w \<Rightarrow> actor_host_handle result \<times> 'w"
  cmd_public_host_route :: "public_host_route_request \<Rightarrow> 'w \<Rightarrow> string result \<times> 'w"
  cmd_warm_image :: "warm_image_request \<Rightarrow> 'w \<Rightarrow> unit result \<times> 'w"
  cmd_terminate_hosts :: "terminate_hosts_request \<Rightarrow> 'w \<Rightarrow> string list result \<times> 'w"

definition command_provider_new :: "string \<Rightarrow> string \<Rightarrow> unit result" where
  "command_provider_new provider_name command =
     and_then (ensure (provider_name \<noteq> [] \<and> is_trimmed provider_name)
       ''sandbox provider name must be non-empty without surrounding whitespace'') (\<lambda>_.
     ensure (command \<noteq> [] \<and> is_trimmed command)
       ''DURABLE_OBJECT_SANDBOX_COMMAND must be non-empty without surrounding whitespace'')"

definition provider_ensure_host ::
    "'w sandbox_commands \<Rightarrow> string \<Rightarrow> ensure_host_request \<Rightarrow> 'w \<Rightarrow> actor_host_handle result \<times> 'w" where
  "provider_ensure_host commands name request w =
     (case cmd_ensure_host commands request w of
        (r, w') \<Rightarrow>
          (and_then r (\<lambda>response.
           and_then (ensure (hdl_canonical_region response = ehr_canonical_region request)
             (name @ '' sandbox command returned a host in the wrong canonical region'')) (\<lambda>_.
           and_then (ensure (host_str (hdl_host_id response) \<noteq> [] \<and> hdl_route response \<noteq> [])
             (name @ '' sandbox command returned an invalid host'')) (\<lambda>_.
           Inr response))), w'))"

definition provider_public_host_route ::
    "'w sandbox_commands \<Rightarrow> string \<Rightarrow> public_host_route_request \<Rightarrow> 'w \<Rightarrow> string result \<times> 'w" where
  "provider_public_host_route commands name request w =
     (case cmd_public_host_route commands request w of
        (r, w') \<Rightarrow>
          (and_then r (\<lambda>route.
           and_then (ensure (route \<noteq> []) (name @ '' sandbox command returned an invalid public host route'')) (\<lambda>_.
           Inr route)), w'))"

text \<open>\<^verbatim>\<open>read_bounded_output\<close>: at most one byte over the limit is read, then the length is checked.\<close>

definition read_bounded_output :: "string \<Rightarrow> nat \<Rightarrow> string \<Rightarrow> string result" where
  "read_bounded_output stream max_bytes label =
     (let output = take (max_bytes + 1) stream in
      and_then (ensure (length output \<le> max_bytes)
        (''sandbox command '' @ label @ '' exceeds '' @ show_nat max_bytes @ '' bytes'')) (\<lambda>_. Inr output))"

text \<open>One run of a one-shot provider command: its exit status and its output streams.\<close>

record command_run =
  run_success :: bool
  run_stdout :: string
  run_stderr :: string

definition execute_one_shot ::
    "string \<Rightarrow> (string \<Rightarrow> 'r result) \<Rightarrow> command_run \<Rightarrow> 'r result" where
  "execute_one_shot name from_slice run =
     and_then (read_bounded_output (run_stdout run) max_provider_output_bytes ''stdout'') (\<lambda>stdout.
     and_then (read_bounded_output (run_stderr run) max_provider_output_bytes ''stderr'') (\<lambda>stderr.
     and_then (ensure (run_success run) (name @ '' sandbox command failed: '' @ stderr)) (\<lambda>_.
     with_context (from_slice stdout) (''decode '' @ name @ '' sandbox command response''))))"

section \<open>Persistent provider processes\<close>

datatype 'r provider_response = Success 'r | Failure string

text \<open>
  A provider process: the input it has received since its last complete line, what it has written to its output and
  nobody has read, whether it exited, and the \<^verbatim>\<open>busy\<close> mark its client keeps.
\<close>

record provider_process =
  pp_input :: string
  pp_unread :: string
  pp_exited :: bool
  pp_busy :: bool

definition process_create :: provider_process where
  "process_create = \<lparr>pp_input = [], pp_unread = [], pp_exited = False, pp_busy = False\<rparr>"

text \<open>
  The provider's side, \<^verbatim>\<open>runProviderCommands\<close> in its persistent mode. \<open>execute\<close> parses and executes a command document
  and yields its result or the error's message; \<open>stringify\<close> is \<^verbatim>\<open>JSON.stringify\<close>. A document or an answer that is
  too large is thrown out of the loop, and the process exits.
\<close>

abbreviation max_command_bytes :: nat where "max_command_bytes \<equiv> 1048576"

definition provider_response_of :: "(string \<Rightarrow> 'w \<Rightarrow> (string + 'a) \<times> 'w) \<Rightarrow> string \<Rightarrow> 'w \<Rightarrow> 'a provider_response \<times> 'w" where
  "provider_response_of execute document w =
     (case execute document w of (Inl message, w') \<Rightarrow> (Failure message, w') | (Inr result, w') \<Rightarrow> (Success result, w'))"

definition run_provider_command ::
    "(string \<Rightarrow> 'w \<Rightarrow> (string + 'a) \<times> 'w) \<Rightarrow> ('a provider_response \<Rightarrow> string) \<Rightarrow> string \<Rightarrow> 'w \<Rightarrow> string option \<times> 'w" where
  "run_provider_command execute stringify document w =
     (if length document > max_command_bytes then (None, w)
      else (case provider_response_of execute document w of
              (response, w') \<Rightarrow>
                (let encoded = stringify response in
                 (if length encoded \<ge> max_command_bytes then None else Some (encoded @ [newline]), w'))))"

text \<open>
  \<^verbatim>\<open>commandDocuments\<close>: every complete line of the input is a command document, answered before the next one. The
  result is the unfinished line, what was written, whether the process exited, and the world.
\<close>

fun run_provider_commands ::
    "(string \<Rightarrow> 'w \<Rightarrow> string option \<times> 'w) \<Rightarrow> string \<Rightarrow> string \<Rightarrow> 'w \<Rightarrow> string \<times> string \<times> bool \<times> 'w" where
  "run_provider_commands command buffer [] w = (buffer, [], length buffer > max_command_bytes, w)"
| "run_provider_commands command buffer (c # input) w =
     (if c = newline
      then (case command buffer w of
              (None, w') \<Rightarrow> ([], [], True, w')
            | (Some out, w') \<Rightarrow>
                (case run_provider_commands command [] input w' of
                   (buffer', outs, exited, w'') \<Rightarrow> (buffer', out @ outs, exited, w'')))
      else run_provider_commands command (buffer @ [c]) input w)"

definition process_input ::
    "(string \<Rightarrow> 'w \<Rightarrow> string option \<times> 'w) \<Rightarrow> string \<Rightarrow> provider_process \<times> 'w \<Rightarrow> provider_process \<times> 'w" where
  "process_input command input = (\<lambda>(p, w).
     if pp_exited p then (p, w)
     else (case run_provider_commands command (pp_input p) input w of
             (buffer, outs, exited, w') \<Rightarrow> (p\<lparr>pp_input := buffer, pp_unread := pp_unread p @ outs, pp_exited := exited\<rparr>, w')))"

text \<open>
  Where an exchange is cut, by an error of the pipe or because its caller is cancelled: not at all, after some bytes of
  the request are written, or while it waits for the reply.
\<close>

datatype cutoff = Uncut | CutWrite nat | CutRead

text \<open>
  \<^verbatim>\<open>read_response\<close>: \<^verbatim>\<open>read_until\<close> stops after the first newline and leaves what follows in the reader. Without a newline it
  ends at the limit or when the process has exited; otherwise it waits until its caller gives up.
\<close>

definition read_response :: "provider_process \<Rightarrow> string result \<times> provider_process" where
  "read_response p =
     (let response = first_line (take (max_provider_output_bytes + 1) (pp_unread p)) in
      (if newline \<notin> set response \<and> length response \<le> max_provider_output_bytes \<and> \<not> pp_exited p then Inl (Bail ''cancelled'')
       else and_then (ensure (length response \<le> max_provider_output_bytes) ''provider stdout exceeds 1048576 bytes'') (\<lambda>_.
            and_then (ensure (response \<noteq> [] \<and> last response = newline)
              ''provider disconnected before replying; outcome may be unknown'') (\<lambda>_.
            Inr response)),
       p\<lparr>pp_unread := drop (length response) (pp_unread p)\<rparr>))"

definition process_exchange ::
    "('q \<Rightarrow> string result) \<Rightarrow> (string \<Rightarrow> 'r provider_response result) \<Rightarrow> (string \<Rightarrow> 'w \<Rightarrow> string option \<times> 'w) \<Rightarrow> cutoff \<Rightarrow> 'q
     \<Rightarrow> provider_process \<times> 'w \<Rightarrow> 'r result \<times> provider_process \<times> 'w" where
  "process_exchange to_vec from_slice command cutoff request st =
     (case and_then (to_vec request) (\<lambda>document.
           and_then (ensure (length document \<le> max_provider_output_bytes) ''sandbox provider command is too large'') (\<lambda>_.
           Inr (document @ [newline]))) of
        Inl e \<Rightarrow> (Inl e, st)
      | Inr document \<Rightarrow>
          (let (p, w) = st; p1 = p\<lparr>pp_busy := True\<rparr> in
           case cutoff of
             CutWrite n \<Rightarrow> (Inl (Bail ''write provider command''), process_input command (take n document) (p1, w))
           | CutRead \<Rightarrow> (Inl (Bail ''cancelled''), process_input command document (p1, w))
           | Uncut \<Rightarrow>
               (case process_input command document (p1, w) of
                  (p2, w2) \<Rightarrow>
                    (case read_response p2 of
                       (read, p3) \<Rightarrow>
                         (case and_then read (\<lambda>response. with_context (from_slice response) ''decode provider response'') of
                            Inl e \<Rightarrow> (Inl e, p3, w2)
                          | Inr (Success r) \<Rightarrow> (Inr r, p3\<lparr>pp_busy := False\<rparr>, w2)
                          | Inr (Failure e) \<Rightarrow> (Inl (Bail (''sandbox provider failed: '' @ e)), p3\<lparr>pp_busy := False\<rparr>, w2))))))"

text \<open>\<^verbatim>\<open>ProcessLease::drop\<close> and \<^verbatim>\<open>Manager::recycle\<close>.\<close>

definition drop_lease :: "provider_process \<Rightarrow> provider_process list \<Rightarrow> provider_process list" where
  "drop_lease p pool = (if pp_busy p then pool else pool @ [p])"

definition recycle :: "provider_process \<Rightarrow> unit result" where
  "recycle p = (if pp_busy p \<or> pp_exited p
     then Inl (Bail ''provider exchange was interrupted or process exited'') else Inr ())"

text \<open>The pool hands out the first idle process that passes \<^verbatim>\<open>recycle\<close>, or a new one.\<close>

fun pool_get :: "provider_process list \<Rightarrow> provider_process \<times> provider_process list" where
  "pool_get [] = (process_create, [])"
| "pool_get (p # pool) = (case recycle p of Inr _ \<Rightarrow> (p, pool) | Inl _ \<Rightarrow> pool_get pool)"

definition pool_exchange ::
    "('q \<Rightarrow> string result) \<Rightarrow> (string \<Rightarrow> 'r provider_response result) \<Rightarrow> (string \<Rightarrow> 'w \<Rightarrow> string option \<times> 'w) \<Rightarrow> cutoff \<Rightarrow> 'q
     \<Rightarrow> provider_process list \<times> 'w \<Rightarrow> 'r result \<times> provider_process list \<times> 'w" where
  "pool_exchange to_vec from_slice command cutoff request = (\<lambda>(pool, w).
     case pool_get pool of
       (p, rest) \<Rightarrow>
         (case process_exchange to_vec from_slice command cutoff request (p, w) of
            (r, p', w') \<Rightarrow> (r, drop_lease p' rest, w')))"

section \<open>Replies belong to their requests\<close>

text \<open>What happens to a pool: exchanges, and idle processes that exit.\<close>

datatype 'q pool_event = Exchange cutoff 'q | ProcessExits nat

fun pool_apply ::
    "('q \<Rightarrow> string result) \<Rightarrow> (string \<Rightarrow> 'r provider_response result) \<Rightarrow> (string \<Rightarrow> 'w \<Rightarrow> string option \<times> 'w) \<Rightarrow> 'q pool_event
     \<Rightarrow> provider_process list \<times> 'w \<Rightarrow> provider_process list \<times> 'w" where
  "pool_apply to_vec from_slice command (Exchange cutoff request) st = snd (pool_exchange to_vec from_slice command cutoff request st)"
| "pool_apply to_vec from_slice command (ProcessExits i) (pool, w) =
     (if i < length pool then pool[i := (pool ! i)\<lparr>pp_exited := True\<rparr>] else pool, w)"

text \<open>JSON documents are written on one line: control characters in them are escaped.\<close>

definition single_lines :: "('q \<Rightarrow> string result) \<Rightarrow> ('a provider_response \<Rightarrow> string) \<Rightarrow> bool" where
  "single_lines to_vec stringify \<longleftrightarrow> (\<forall>q document. to_vec q = Inr document \<longrightarrow> newline \<notin> set document) \<and> (\<forall>r. newline \<notin> set (stringify r))"

definition process_clean :: "provider_process \<Rightarrow> bool" where
  "process_clean p \<longleftrightarrow> pp_busy p \<or> pp_unread p = [] \<and> pp_input p = []"

lemma pool_get_clean:
  "list_all process_clean pool \<Longrightarrow> pool_get pool = (p, rest) \<Longrightarrow>
   \<not> pp_busy p \<and> \<not> pp_exited p \<and> pp_unread p = [] \<and> pp_input p = [] \<and> list_all process_clean rest"
  by (induction pool rule: pool_get.induct) (auto simp: process_clean_def process_create_def recycle_def split: if_splits)

lemma run_provider_line:
  assumes "newline \<notin> set document"
  shows "run_provider_commands command buffer (document @ [newline]) w =
    (case command (buffer @ document) w of (None, w') \<Rightarrow> ([], [], True, w') | (Some out, w') \<Rightarrow> ([], out, False, w'))"
  using assms by (induction document arbitrary: buffer) (auto split: option.splits prod.splits)

lemma first_line_single: "newline \<notin> set d \<Longrightarrow> first_line (d @ [newline]) = d @ [newline]"
  using first_line_append [of d "[]"] by simp

text \<open>An exchange with a clean process leaves it clean or marked, and returns the answer to its own document.\<close>

lemma process_exchange_clean:
  assumes lines: "single_lines to_vec stringify"
    and p: "\<not> pp_busy p" "\<not> pp_exited p" "pp_unread p = []" "pp_input p = []"
    and run: "process_exchange to_vec from_slice (run_provider_command execute stringify) cutoff request (p, w) = (r, p', w')"
  shows "process_clean p' \<and> (\<forall>x. r = Inr x \<longrightarrow> (\<exists>document response. to_vec request = Inr document \<and>
    provider_response_of execute document w = (response, w') \<and> from_slice (stringify response @ [newline]) = Inr (Success x)))"
proof (cases "and_then (to_vec request) (\<lambda>document. and_then (ensure (length document \<le> max_provider_output_bytes)
    ''sandbox provider command is too large'') (\<lambda>_. Inr (document @ [newline])))")
  case (Inl e)
  with run p show ?thesis by (auto simp: process_exchange_def process_clean_def)
next
  case (Inr line)
  then obtain document where doc: "to_vec request = Inr document" "length document \<le> max_provider_output_bytes" "line = document @ [newline]"
    by (auto simp: and_then_eq_Inr split: if_splits)
  have nl: "newline \<notin> set document" "\<And>r. newline \<notin> set (stringify r)" using lines doc(1) by (auto simp: single_lines_def)
  obtain response w2 where resp: "provider_response_of execute document w = (response, w2)" by fastforce
  define p2 where "p2 = p\<lparr>pp_busy := True, pp_unread := if length (stringify response) \<ge> max_command_bytes then [] else stringify response @ [newline],
    pp_exited := length (stringify response) \<ge> max_command_bytes\<rparr>"
  have fed: "process_input (run_provider_command execute stringify) line (p\<lparr>pp_busy := True\<rparr>, w) = (p2, w2)"
    using p doc nl(1) resp
    by (simp add: process_input_def run_provider_line run_provider_command_def Let_def p2_def)
  show ?thesis
  proof (cases cutoff)
    case Uncut
    have "read_response p2 = (if length (stringify response) \<ge> max_command_bytes
        then (Inl (Bail ''provider disconnected before replying; outcome may be unknown''), p2) else (Inr (stringify response @ [newline]), p2\<lparr>pp_unread := []\<rparr>))"
      using nl(2) first_line_single [of "stringify response"]
      by (simp add: read_response_def Let_def p2_def first_line_def [of "[]"])
    with run Inr Uncut fed doc resp p show ?thesis
      by (auto simp: process_exchange_def process_clean_def p2_def and_then_eq_Inr split: sum.splits provider_response.splits if_splits)
  qed (use run Inr p fed in \<open>auto simp: process_exchange_def process_clean_def process_input_def p2_def split: prod.splits if_splits\<close>)
qed

lemma pool_exchange_clean:
  assumes "single_lines to_vec stringify" and clean: "list_all process_clean pool"
    and run: "pool_exchange to_vec from_slice (run_provider_command execute stringify) cutoff request (pool, w) = (r, pool', w')"
  shows "list_all process_clean pool' \<and> (\<forall>x. r = Inr x \<longrightarrow> (\<exists>document response. to_vec request = Inr document \<and>
    provider_response_of execute document w = (response, w') \<and> from_slice (stringify response @ [newline]) = Inr (Success x)))"
proof -
  obtain p rest where get: "pool_get pool = (p, rest)" by fastforce
  obtain r1 p' w1 where ex: "process_exchange to_vec from_slice (run_provider_command execute stringify) cutoff request (p, w) = (r1, p', w1)"
    by (metis prod_cases3)
  from process_exchange_clean [OF assms(1) _ _ _ _ ex] pool_get_clean [OF clean get] run get ex show ?thesis
    by (auto simp: pool_exchange_def drop_lease_def)
qed

lemma pool_apply_clean:
  assumes "single_lines to_vec stringify" "list_all process_clean pool"
  shows "list_all process_clean (fst (pool_apply to_vec from_slice (run_provider_command execute stringify) event (pool, w)))"
proof (cases event)
  case (Exchange cutoff request)
  then show ?thesis
    using pool_exchange_clean [OF assms, of from_slice execute cutoff request w]
    by (cases "pool_exchange to_vec from_slice (run_provider_command execute stringify) cutoff request (pool, w)") auto
next
  case (ProcessExits i)
  then show ?thesis using assms(2) by (auto simp: list_all_length nth_list_update process_clean_def)
qed

lemma pool_run_clean:
  assumes "single_lines to_vec stringify" "list_all process_clean (fst st)"
  shows "list_all process_clean (fst (fold (pool_apply to_vec from_slice (run_provider_command execute stringify)) events st))"
  using assms(2)
proof (induction events arbitrary: st)
  case (Cons event events)
  then show ?case using pool_apply_clean [OF assms(1), of "fst st" from_slice execute event "snd st"] by simp
qed simp

text \<open>
  Claim C29. Whatever happened to the pool before, exchanges that succeeded, failed or were cut off at any byte of
  the request or before the reply was read, and processes that exited, a result that an exchange returns is decoded from
  the line that the provider wrote in answer to that exchange's own command document, which was executed once. JSON
  documents are taken to be written on one line.
\<close>

theorem pool_reply_matches_request:
  assumes "single_lines to_vec stringify"
    and "fold (pool_apply to_vec from_slice (run_provider_command execute stringify)) events ([], w0) = (pool, w)"
    and "pool_exchange to_vec from_slice (run_provider_command execute stringify) cutoff request (pool, w) = (Inr x, pool', w')"
  shows "\<exists>document response. to_vec request = Inr document \<and> provider_response_of execute document w = (response, w') \<and>
    from_slice (stringify response @ [newline]) = Inr (Success x)"
proof -
  have "list_all process_clean pool" using pool_run_clean [OF assms(1), of "([], w0)" from_slice execute events] assms(2) by simp
  from pool_exchange_clean [OF assms(1) this assms(3)] show ?thesis by blast
qed

text \<open>A provider that counts its commands and answers each with its document.\<close>

definition counting_provider :: "string \<Rightarrow> nat \<Rightarrow> (string + string) \<times> nat" where
  "counting_provider document n = (Inr document, n + 1)"

definition plain_reply :: "string provider_response \<Rightarrow> string" where
  "plain_reply r = filter (\<lambda>c. c \<noteq> newline) (case r of Success x \<Rightarrow> x | Failure e \<Rightarrow> e)"

definition plain_request :: "string \<Rightarrow> string result" where
  "plain_request q = Inr (filter (\<lambda>c. c \<noteq> newline) q)"

definition plain_decode :: "string \<Rightarrow> string provider_response result" where
  "plain_decode line = Inr (Success (butlast line))"

theorem pool_reply_matches_request_witness:
  "\<exists>pool w pool' w'. fold (pool_apply plain_request plain_decode (run_provider_command counting_provider plain_reply))
       [Exchange CutRead ''a'', Exchange Uncut ''c'', Exchange (CutWrite 1) ''d''] ([], 0) = (pool, w) \<and>
     pool_exchange plain_request plain_decode (run_provider_command counting_provider plain_reply) Uncut ''b'' (pool, w) = (Inr ''b'', pool', w') \<and>
     w' = 3 \<and> (\<exists>response. provider_response_of counting_provider ''b'' w = (response, w'))"
proof -
  let ?command = "run_provider_command counting_provider plain_reply"
  note defs = pool_exchange_def process_exchange_def process_create_def drop_lease_def recycle_def read_response_def process_input_def
    run_provider_command_def provider_response_of_def counting_provider_def plain_reply_def plain_request_def plain_decode_def Let_def
    newline_def first_line_def
  have lines: "single_lines plain_request plain_reply" by (auto simp: single_lines_def plain_request_def plain_reply_def)
  obtain pool w where before: "fold (pool_apply plain_request plain_decode ?command)
      [Exchange CutRead ''a'', Exchange Uncut ''c'', Exchange (CutWrite 1) ''d''] ([], 0) = (pool, w)" by fastforce
  then have pool: "pool = []" "w = 2" by (auto simp: defs)
  obtain pool' w' where run: "pool_exchange plain_request plain_decode ?command Uncut ''b'' (pool, w) = (Inr ''b'', pool', w')" "w' = 3"
    using pool by (auto simp: defs)
  from pool_reply_matches_request [OF lines before run(1)] before run show ?thesis
    by (auto simp: plain_request_def newline_def)
qed

end
