(* ===== verification/Control_Plane.thy ===== *)
theory Control_Plane
  imports Admin Sandbox
begin

text \<open>
  The control plane (\<^verbatim>\<open>src/control_plane/service.rs\<close>, \<^verbatim>\<open>protocol.rs\<close>, \<^verbatim>\<open>client.rs\<close>): the commands
  of hosts (leases, write tickets, commits), the routing of an actor to a live host, and the
  targets handed to workflows. Every handler is a function on the database; \<open>amb\<close> holds the clocks
  and the random nonce of one call, and \<open>env\<close> is what other connections do between two of its
  statements. Log lines and timings are left out.
\<close>

abbreviation host_token_renewal_window_seconds :: i64 where "host_token_renewal_window_seconds \<equiv> 600"

record ambient =
  amb_lease_now :: i64
  amb_commit_now :: i64
  amb_seconds :: "i64 result"
  amb_millis :: "i64 result"
  amb_nonce :: string

text \<open>A parsed route: scheme, host, credentials, path, query and fragment.\<close>

record route_url =
  route_scheme :: string
  route_host :: "string option"
  route_username :: string
  route_password :: "string option"
  route_path :: string
  route_query :: "string option"
  route_fragment :: "string option"

record ('sk, 'vk) control_plane =
  cp_lib :: "('sk, 'vk) jwt_library"
  cp_verifier :: "'vk jwt_verifier"
  cp_issuer :: "('sk, 'vk) jwt_issuer option"
  cp_buckets :: buckets
  cp_sign :: url_signer
  cp_parse_route :: "string \<Rightarrow> route_url result"

section \<open>Commands\<close>

datatype control_plane_command =
    RegisterLease host_lease_request
  | UnregisterLease host_id
  | PrepareStateWrite actor_key host_id u64 u64
  | CommitState actor_key host_id u64 u64 string string

datatype control_plane_reply =
    UnitReply
  | LeaseReply host_lease "string option"
  | StateWriteTicketReply state_write_ticket
  | StateCommitted u64 "state_write_ticket option"

definition validate_host_route :: "(string \<Rightarrow> route_url result) \<Rightarrow> string \<Rightarrow> unit result" where
  "validate_host_route parse route =
     and_then (parse route) (\<lambda>url.
     and_then (ensure ((route_scheme url = ''http'' \<or> route_scheme url = ''https'') \<and> route_host url \<noteq> None)
       ''host route must be an HTTP origin'') (\<lambda>_.
     and_then (ensure (route_username url = [] \<and> route_password url = None)
       ''host route must not contain credentials'') (\<lambda>_.
     ensure (route_path url = ''/'' \<and> route_query url = None \<and> route_fragment url = None)
       ''host route must not contain a path, query, or fragment'')))"

definition validate_state_owner :: "actor_principal \<Rightarrow> host_id \<Rightarrow> u64 \<Rightarrow> object_placement \<Rightarrow> unit result" where
  "validate_state_owner prin host owner_epoch placement =
     and_then (ensure (pl_owner placement = host) ''host does not own this actor'') (\<lambda>_.
     and_then (ensure (pl_owner_epoch placement = owner_epoch) ''actor owner epoch is stale'') (\<lambda>_.
     ensure (pl_home_region placement = prin_region prin) ''host is outside the actor home region''))"

definition require_active_host :: "i64 \<Rightarrow> actor_principal \<Rightarrow> database \<Rightarrow> host_lease result" where
  "require_active_host now prin db =
     and_then (lease_status now (prin_host_id prin) db) (\<lambda>status.
     and_then (ensure (is_active status) ''host lease is not active'') (\<lambda>_.
     and_then (ok_or (status_lease status) ''active host lease is missing'') (\<lambda>lease.
     and_then (ensure (lease_session_id lease = prin_session_id prin) ''host lease belongs to another session'') (\<lambda>_.
     Inr lease))))"

definition current_placement :: "actor_key \<Rightarrow> database \<Rightarrow> object_placement result" where
  "current_placement actor db =
     and_then (placement_get (storage_key actor) db) (\<lambda>p. ok_or p ''actor has no current placement'')"

definition cp_state_write_ticket ::
    "('sk, 'vk) control_plane \<Rightarrow> ambient \<Rightarrow> string \<Rightarrow> actor_key \<Rightarrow> u64 \<Rightarrow> state_write_ticket result" where
  "cp_state_write_ticket cp amb region actor expected_version =
     and_then (ok_or (checked_add expected_version 1) ''actor state version overflow'') (\<lambda>version.
     write_ticket (cp_buckets cp) (cp_sign cp) (amb_nonce amb) (amb_millis amb) region actor version)"

definition replacement_host_token :: "('sk, 'vk) control_plane \<Rightarrow> ambient \<Rightarrow> actor_principal \<Rightarrow> string option result" where
  "replacement_host_token cp amb prin =
     and_then (amb_seconds amb) (\<lambda>now.
     if i64_saturating (prin_expires_at prin - now) > host_token_renewal_window_seconds then Inr None
     else and_then (ok_or (cp_issuer cp) ''JWT issuer is not configured'') (\<lambda>issuer.
          and_then (ok_or (prin_code_revision prin) ''host token has no code revision'') (\<lambda>code_revision.
          and_then (issue_host (cp_lib cp) (amb_millis amb) issuer (scope_namespace_id (prin_scope prin)) (prin_host_id prin)
            (prin_session_id prin) code_revision (prin_region prin)) (\<lambda>issued.
          Inr (Some (tok_token issued))))))"

definition register_lease ::
    "('sk, 'vk) control_plane \<Rightarrow> ambient \<Rightarrow> actor_principal \<Rightarrow> host_lease_request \<Rightarrow> database \<Rightarrow> control_plane_reply result \<times> database" where
  "register_lease cp amb prin request db =
     (case and_then (validate_host_id prin (host_str (lreq_id request))) (\<lambda>_.
           and_then (ensure (lreq_session_id request = prin_session_id prin) ''lease session does not match host token'') (\<lambda>_.
           validate_host_route (cp_parse_route cp) (lreq_route request))) of
        Inl e \<Rightarrow> (Inl e, db)
      | Inr _ \<Rightarrow>
          (case register (amb_lease_now amb) (amb_commit_now amb) request db of
             (lease, db') \<Rightarrow>
               (and_then lease (\<lambda>lease.
                and_then (replacement_host_token cp amb prin) (\<lambda>token. Inr (LeaseReply lease token))), db')))"

definition unregister_lease :: "actor_principal \<Rightarrow> host_id \<Rightarrow> database \<Rightarrow> control_plane_reply result \<times> database" where
  "unregister_lease prin host db =
     (case validate_host_id prin (host_str host) of
        Inl e \<Rightarrow> (Inl e, db)
      | Inr _ \<Rightarrow> (case unregister host (prin_session_id prin) db of (r, db') \<Rightarrow> (and_then r (\<lambda>_. Inr UnitReply), db')))"

definition prepare_state_write ::
    "('sk, 'vk) control_plane \<Rightarrow> ambient \<Rightarrow> (database \<Rightarrow> database) \<Rightarrow> actor_principal \<Rightarrow> actor_key \<Rightarrow> host_id \<Rightarrow> u64 \<Rightarrow> u64
     \<Rightarrow> database \<Rightarrow> control_plane_reply result \<times> database" where
  "prepare_state_write cp amb env prin actor host owner_epoch expected_version db =
     (case and_then (actor_validate actor) (\<lambda>_.
           and_then (ensure (scope_contains (prin_scope prin) actor) ''actor crossed the host namespace'') (\<lambda>_.
           and_then (validate_host_id prin (host_str host)) (\<lambda>_.
           require_active_host (amb_lease_now amb) prin db))) of
        Inl e \<Rightarrow> (Inl e, db)
      | Inr _ \<Rightarrow>
          (and_then (current_placement actor (env db)) (\<lambda>placement.
           and_then (validate_state_owner prin host owner_epoch placement) (\<lambda>_.
           and_then (ensure (pl_state_version placement = expected_version)
             ''actor state version changed before write preparation'') (\<lambda>_.
           and_then (cp_state_write_ticket cp amb (pl_home_region placement) actor expected_version) (\<lambda>ticket.
           Inr (StateWriteTicketReply ticket))))), env db))"

definition cp_commit_state ::
    "('sk, 'vk) control_plane \<Rightarrow> ambient \<Rightarrow> (database \<Rightarrow> database) \<Rightarrow> actor_principal \<Rightarrow> actor_key \<Rightarrow> host_id \<Rightarrow> u64 \<Rightarrow> u64
     \<Rightarrow> string \<Rightarrow> string \<Rightarrow> database \<Rightarrow> control_plane_reply result \<times> database" where
  "cp_commit_state cp amb env prin actor host owner_epoch expected_version state_object request_id db =
     (case and_then (actor_validate actor) (\<lambda>_.
           and_then (ensure (scope_contains (prin_scope prin) actor) ''actor crossed the host namespace'') (\<lambda>_.
           and_then (validate_host_id prin (host_str host)) (\<lambda>_.
           and_then (require_active_host (amb_lease_now amb) prin db) (\<lambda>_.
           and_then (ok_or (checked_add expected_version 1) ''actor state version overflow'') (\<lambda>version.
           validate_snapshot_object_name actor version state_object))))) of
        Inl e \<Rightarrow> (Inl e, db)
      | Inr _ \<Rightarrow>
          (case commit_state env (amb_commit_now amb)
                  \<lparr>cr_object = storage_key actor, cr_owner = host, cr_session_id = prin_session_id prin,
                   cr_owner_epoch = owner_epoch, cr_expected_version = expected_version,
                   cr_state_object = state_object, cr_request_id = request_id\<rparr> (env db) of
             (Inl e, db') \<Rightarrow> (Inl e, db')
           | (Inr (CurrentState _), db') \<Rightarrow> (Inl (Bail ''actor ownership or state version changed before commit''), db')
           | (Inr (Committed placement), db') \<Rightarrow>
               (Inr (StateCommitted (pl_state_version placement)
                  (ok (cp_state_write_ticket cp amb (pl_home_region placement) actor (pl_state_version placement)))), db')))"

definition execute_command ::
    "('sk, 'vk) control_plane \<Rightarrow> ambient \<Rightarrow> (database \<Rightarrow> database) \<Rightarrow> actor_principal \<Rightarrow> control_plane_command \<Rightarrow> database
     \<Rightarrow> control_plane_reply result \<times> database" where
  "execute_command cp amb env prin command db =
     (if prin_process_role prin \<noteq> Host then (Inl (Bail ''only hosts may use the internal control-plane API''), db)
      else case command of
        RegisterLease request \<Rightarrow> register_lease cp amb prin request db
      | UnregisterLease host \<Rightarrow> unregister_lease prin host db
      | PrepareStateWrite actor host owner_epoch expected_version \<Rightarrow>
          prepare_state_write cp amb env prin actor host owner_epoch expected_version db
      | CommitState actor host owner_epoch expected_version state_object request_id \<Rightarrow>
          cp_commit_state cp amb env prin actor host owner_epoch expected_version state_object request_id db)"

text \<open>The gRPC status codes the handler maps its failures to, and the JSON framing of both directions.\<close>

datatype grpc_status = Unauthenticated string | InvalidArgument string | FailedPrecondition string | Internal string
  | PermissionDenied string | Unavailable string

record command_codec =
  enc_command :: "control_plane_command \<Rightarrow> string result"
  dec_command :: "string \<Rightarrow> control_plane_command result"
  enc_reply :: "control_plane_reply \<Rightarrow> string result"
  dec_reply :: "string \<Rightarrow> control_plane_reply result"
  debug_reply :: "control_plane_reply \<Rightarrow> string"

definition map_error :: "('e \<Rightarrow> 'f) \<Rightarrow> 'e + 'a \<Rightarrow> 'f + 'a" where
  "map_error f r = (case r of Inl e \<Rightarrow> Inl (f e) | Inr x \<Rightarrow> Inr x)"

lemma map_error_simps [simp]: "map_error f (Inl e) = Inl (f e)" "map_error f (Inr x) = Inr x"
  by (simp_all add: map_error_def)

fun error_head :: "error \<Rightarrow> string" where
  "error_head (Bail msg) = msg"
| "error_head (Context msg _) = msg"

definition cp_execute ::
    "('sk, 'vk) control_plane \<Rightarrow> command_codec \<Rightarrow> ambient \<Rightarrow> (database \<Rightarrow> database) \<Rightarrow> string result option \<Rightarrow> string \<Rightarrow> database
     \<Rightarrow> (grpc_status + string) \<times> database" where
  "cp_execute cp codec amb env metadata command_json db =
     (case map_error (\<lambda>e. Unauthenticated (show_error e)) (authenticate (cp_lib cp) (amb_seconds amb) (cp_verifier cp) metadata) of
        Inl st \<Rightarrow> (Inl st, db)
      | Inr prin \<Rightarrow>
          (case map_error (\<lambda>e. InvalidArgument (''invalid command: '' @ show_error e)) (dec_command codec command_json) of
             Inl st \<Rightarrow> (Inl st, db)
           | Inr command \<Rightarrow>
               (case execute_command cp amb env prin command db of
                  (Inl e, db') \<Rightarrow> (Inl (FailedPrecondition (error_head e)), db')
                | (Inr reply, db') \<Rightarrow> (map_error (\<lambda>e. Internal (error_head e)) (enc_reply codec reply), db'))))"

section \<open>Routing\<close>

definition host_matches_revision :: "host_id \<Rightarrow> string \<Rightarrow> string \<Rightarrow> bool" where
  "host_matches_revision host namespace revision \<longleftrightarrow>
     starts_with (''host.v1.'' @ namespace @ ''.'' @ revision @ ''.'') (host_str host)"

record routed_actor =
  routed_placement :: object_placement
  routed_lease :: host_lease
  routed_spec :: host_launch_spec

definition active_target :: "i64 \<Rightarrow> object_placement option \<Rightarrow> host_launch_spec \<Rightarrow> database \<Rightarrow> routed_actor option result" where
  "active_target now current spec db =
     (case current of
        None \<Rightarrow> Inr None
      | Some placement \<Rightarrow>
          if \<not> host_matches_revision (pl_owner placement) (spec_namespace_id spec) (spec_code_revision spec) then Inr None
          else and_then (lease_status now (pl_owner placement) db) (\<lambda>status.
               if \<not> is_active status then Inr None
               else and_then (ok_or (status_lease status) ''active lease is missing'') (\<lambda>lease.
                    Inr (Some \<lparr>routed_placement = placement, routed_lease = lease, routed_spec = spec\<rparr>))))"

definition select_target_region :: "object_placement option \<Rightarrow> string \<Rightarrow> string list \<Rightarrow> string result" where
  "select_target_region current storage_region configured_regions =
     (case current of
        Some placement \<Rightarrow> Inr (pl_home_region placement)
      | None \<Rightarrow> and_then (ensure (storage_region \<in> set configured_regions) ''workflow storage region has no Standard bucket'') (\<lambda>_.
          Inr storage_region))"

text \<open>The provisioner the control plane is configured with; provisioning may write the database (a new host registers its lease).\<close>

record host_provisioner =
  prov_ensure_host :: "host_launch_spec \<Rightarrow> string \<Rightarrow> database \<Rightarrow> host_lease result \<times> database"
  prov_public_host_route :: "host_launch_spec \<Rightarrow> string \<Rightarrow> database \<Rightarrow> string result"

definition claimed_placement :: "placement_claim \<Rightarrow> object_placement" where
  "claimed_placement c = (case c of Acquired p \<Rightarrow> p | Current p \<Rightarrow> p)"

text \<open>
  One turn of the routing loop. \<open>None\<close> asks for another turn: another control plane claimed the
  actor first. \<open>env\<close> runs before every statement after the first.
\<close>

definition route_turn ::
    "buckets \<Rightarrow> host_provisioner option \<Rightarrow> i64 \<Rightarrow> (database \<Rightarrow> database) \<Rightarrow> actor_key \<Rightarrow> string \<Rightarrow> host_launch_spec \<Rightarrow> database
     \<Rightarrow> routed_actor option result \<times> database" where
  "route_turn buckets provisioner now env actor storage_region spec db =
     (case placement_get (storage_key actor) db of
        Inl e \<Rightarrow> (Inl e, db)
      | Inr current \<Rightarrow>
          (let db1 = env db in
           case active_target now current spec db1 of
             Inl e \<Rightarrow> (Inl e, db1)
           | Inr (Some target) \<Rightarrow> (Inr (Some target), db1)
           | Inr None \<Rightarrow>
               (case and_then (select_target_region current storage_region (regions buckets)) (\<lambda>region.
                     and_then (ok_or provisioner ''sandbox provider is not configured'') (\<lambda>p. Inr (region, p))) of
                  Inl e \<Rightarrow> (Inl e, db1)
                | Inr (region, p) \<Rightarrow>
                    (case prov_ensure_host p spec region (env db1) of
                       (Inl e, db2) \<Rightarrow> (Inl e, db2)
                     | (Inr lease, db2) \<Rightarrow>
                         (case claim env (storage_key actor) current (lease_id lease) region (env db2) of
                            (Inl e, db3) \<Rightarrow> (Inl e, db3)
                          | (Inr c, db3) \<Rightarrow>
                              (Inr (if pl_owner (claimed_placement c) = lease_id lease
                                    then Some \<lparr>routed_placement = claimed_placement c, routed_lease = lease, routed_spec = spec\<rparr>
                                    else None), db3))))))"

text \<open>The loop, with fuel: \<open>None\<close> as the result when \<open>n\<close> turns were lost to other claimants.\<close>

fun route_loop ::
    "nat \<Rightarrow> buckets \<Rightarrow> host_provisioner option \<Rightarrow> i64 \<Rightarrow> (database \<Rightarrow> database) \<Rightarrow> actor_key \<Rightarrow> string \<Rightarrow> host_launch_spec \<Rightarrow> database
     \<Rightarrow> routed_actor result option \<times> database" where
  "route_loop 0 buckets provisioner now env actor storage_region spec db = (None, db)"
| "route_loop (Suc n) buckets provisioner now env actor storage_region spec db =
     (case route_turn buckets provisioner now env actor storage_region spec db of
        (Inl e, db') \<Rightarrow> (Some (Inl e), db')
      | (Inr (Some target), db') \<Rightarrow> (Some (Inr target), db')
      | (Inr None, db') \<Rightarrow> route_loop n buckets provisioner now env actor storage_region spec (env db'))"

text \<open>\<open>routing\<close> is absent on a control plane started without routing; its provisioner is optional too.\<close>

definition route_actor ::
    "nat \<Rightarrow> buckets \<Rightarrow> host_provisioner option option \<Rightarrow> i64 \<Rightarrow> (database \<Rightarrow> database) \<Rightarrow> actor_key \<Rightarrow> string \<Rightarrow> database
     \<Rightarrow> routed_actor result option \<times> database" where
  "route_actor n buckets routing now env actor storage_region db =
     (case and_then (ok_or routing ''actor routing is not configured'') (\<lambda>provisioner.
           and_then (launch_spec (namespace_id actor) db) (\<lambda>spec.
           and_then (ok_or spec ''project has no registered actor code'') (\<lambda>spec. Inr (provisioner, spec)))) of
        Inl e \<Rightarrow> (Some (Inl e), db)
      | Inr (provisioner, spec) \<Rightarrow> route_loop n buckets provisioner now env actor storage_region spec (env db))"

datatype workflow_route = InvocationRoute | ControlPlaneRoute

record workflow_actor_target =
  wt_route :: string
  wt_token :: string
  wt_owner_epoch :: u64
  wt_state_version :: u64
  wt_state_read_url :: string
  wt_expires_at_ms :: i64

text \<open>\<open>routes\<close> is the cache of public routes, by host and session.\<close>

type_synonym public_routes = "(host_id \<times> string) \<rightharpoonup> string"

definition public_route ::
    "host_provisioner option option \<Rightarrow> routed_actor \<Rightarrow> database \<Rightarrow> public_routes \<Rightarrow> string result \<times> public_routes" where
  "public_route routing target db routes =
     (if starts_with ''https://'' (lease_route (routed_lease target)) then (Inr (lease_route (routed_lease target)), routes)
      else let key = (lease_id (routed_lease target), lease_session_id (routed_lease target)) in
        case routes key of
          Some route \<Rightarrow> (Inr route, routes)
        | None \<Rightarrow>
            (case and_then (ok_or (Option.bind routing id) ''sandbox provider is not configured'') (\<lambda>p.
                  prov_public_host_route p (routed_spec target) (pl_home_region (routed_placement target)) db) of
               Inl e \<Rightarrow> (Inl e, routes)
             | Inr route \<Rightarrow> (Inr route, routes(key \<mapsto> route))))"

definition workflow_allowed :: "actor_principal \<Rightarrow> actor_key \<Rightarrow> unit result" where
  "workflow_allowed prin actor =
     and_then (actor_validate actor) (\<lambda>_.
     ensure (prin_process_role prin = Workflow \<and> scope_contains (prin_scope prin) actor) ''workflow token cannot resolve this actor'')"

text \<open>The part of \<^verbatim>\<open>resolve_workflow_route\<close> after routing: URL, token and route.\<close>

definition workflow_target ::
    "('sk, 'vk) control_plane \<Rightarrow> host_provisioner option option \<Rightarrow> ambient \<Rightarrow> actor_principal \<Rightarrow> actor_key \<Rightarrow> workflow_route \<Rightarrow> routed_actor
     \<Rightarrow> database \<Rightarrow> public_routes \<Rightarrow> workflow_actor_target result \<times> public_routes" where
  "workflow_target cp routing amb prin actor kind target db routes =
     (let placement = routed_placement target; lease = routed_lease target in
      case and_then (case pl_state_object placement of
                       Some object_name \<Rightarrow> read_url (cp_buckets cp) (cp_sign cp) (pl_home_region placement) object_name
                     | None \<Rightarrow> Inr []) (\<lambda>state_read_url.
           and_then (ok_or (cp_issuer cp) ''JWT issuer is not configured'') (\<lambda>issuer.
           and_then (issue_invocation_target (cp_lib cp) (amb_millis amb) issuer actor (lease_id lease) (lease_session_id lease)
             (spec_code_revision (routed_spec target)) (pl_home_region placement) (pl_owner_epoch placement)
             (pl_state_version placement) state_read_url (prin_expires_at prin)) (\<lambda>issued. Inr (state_read_url, issued)))) of
        Inl e \<Rightarrow> (Inl e, routes)
      | Inr (state_read_url, issued) \<Rightarrow>
          (case (if kind = InvocationRoute \<and> prin_private_routing prin \<and> prin_region prin = pl_home_region placement
                 then (Inr (lease_route lease), routes)
                 else public_route routing target db routes) of
             (Inl e, routes') \<Rightarrow> (Inl e, routes')
           | (Inr route, routes') \<Rightarrow>
               (Inr \<lparr>wt_route = route, wt_token = tok_token issued, wt_owner_epoch = pl_owner_epoch placement,
                 wt_state_version = pl_state_version placement, wt_state_read_url = state_read_url,
                 wt_expires_at_ms = tok_expires_at_ms issued\<rparr>, routes')))"

definition resolve_workflow_route ::
    "nat \<Rightarrow> ('sk, 'vk) control_plane \<Rightarrow> host_provisioner option option \<Rightarrow> ambient \<Rightarrow> (database \<Rightarrow> database) \<Rightarrow> actor_principal \<Rightarrow> actor_key
     \<Rightarrow> workflow_route \<Rightarrow> database \<times> public_routes \<Rightarrow> workflow_actor_target result option \<times> database \<times> public_routes" where
  "resolve_workflow_route n cp routing amb env prin actor kind st =
     (case st of (db, routes) \<Rightarrow>
        (case workflow_allowed prin actor of
           Inl e \<Rightarrow> (Some (Inl e), db, routes)
         | Inr _ \<Rightarrow>
             (case route_actor n (cp_buckets cp) routing (amb_lease_now amb) env actor (prin_region prin) db of
                (None, db') \<Rightarrow> (None, db', routes)
              | (Some (Inl e), db') \<Rightarrow> (Some (Inl e), db', routes)
              | (Some (Inr target), db') \<Rightarrow>
                  (case workflow_target cp routing amb prin actor kind target db' routes of
                     (r, routes') \<Rightarrow> (Some r, db', routes')))))"

section \<open>Provisioning through the sandbox provider\<close>

record sandbox_runtime_config =
  rt_control_plane_url :: string
  rt_jwt_issuer :: string
  rt_invocation_jwt_audience :: string
  rt_actor_idle_timeout_ms :: u64
  rt_host_idle_timeout_ms :: u64

definition launch_host_id :: "host_launch_spec \<Rightarrow> string \<Rightarrow> host_id" where
  "launch_host_id spec uuid =
     HostId (''host.v1.'' @ spec_namespace_id spec @ ''.'' @ spec_code_revision spec @ ''.'' @ uuid)"

text \<open>\<open>keys_json\<close> is the issuer's public key set as the JWK library serializes it; the identifiers are fresh UUIDs.\<close>

definition provision_request ::
    "('sk, 'vk) jwt_library \<Rightarrow> ('sk, 'vk) jwt_issuer \<Rightarrow> string result \<Rightarrow> sandbox_runtime_config \<Rightarrow> i64 result \<Rightarrow> string \<Rightarrow> string
     \<Rightarrow> host_launch_spec \<Rightarrow> string \<Rightarrow> ensure_host_request result" where
  "provision_request lib issuer keys_json runtime unix_millis host_uuid session_uuid spec region =
     (let host = launch_host_id spec host_uuid in
      and_then (issue_host lib unix_millis issuer (spec_namespace_id spec) host session_uuid (spec_code_revision spec) region) (\<lambda>issued.
      and_then keys_json (\<lambda>jwt_public_keys.
      Inr \<lparr>ehr_namespace_id = spec_namespace_id spec, ehr_code_revision = spec_code_revision spec, ehr_canonical_region = region,
           ehr_host_id = host, ehr_session_id = session_uuid, ehr_host_token = tok_token issued,
           ehr_jwt_public_keys = jwt_public_keys, ehr_control_plane_url = rt_control_plane_url runtime,
           ehr_jwt_issuer = rt_jwt_issuer runtime, ehr_invocation_jwt_audience = rt_invocation_jwt_audience runtime,
           ehr_image_ref = spec_image_ref spec, ehr_working_directory = spec_working_directory spec,
           ehr_actor_entrypoint = spec_actor_entrypoint spec, ehr_actor_idle_timeout_ms = rt_actor_idle_timeout_ms runtime,
           ehr_host_idle_timeout_ms = rt_host_idle_timeout_ms runtime\<rparr>)))"

definition provisioned_lease ::
    "(string \<Rightarrow> route_url result) \<Rightarrow> i64 \<Rightarrow> actor_host_handle \<Rightarrow> string \<Rightarrow> database \<Rightarrow> host_lease result" where
  "provisioned_lease parse now handle region db =
     and_then (ensure (hdl_canonical_region handle = region) ''sandbox provider returned the wrong region'') (\<lambda>_.
     and_then (validate_host_route parse (hdl_route handle)) (\<lambda>_.
     and_then (lease_status now (hdl_host_id handle) db) (\<lambda>status.
     and_then (ensure (is_active status) ''sandbox host lease is not active'') (\<lambda>_.
     and_then (ok_or (status_lease status) ''active sandbox lease is missing'') (\<lambda>lease.
     and_then (ensure (lease_route lease = hdl_route handle) ''sandbox route does not match its lease'') (\<lambda>_.
     Inr lease))))))"

text \<open>The provider command runs on the database too: it answers when the host it started has registered.\<close>

definition sandbox_ensure_host ::
    "(string \<Rightarrow> route_url result) \<Rightarrow> i64 \<Rightarrow> database sandbox_commands \<Rightarrow> string \<Rightarrow> (host_launch_spec \<Rightarrow> string \<Rightarrow> ensure_host_request result)
     \<Rightarrow> host_launch_spec \<Rightarrow> string \<Rightarrow> database \<Rightarrow> host_lease result \<times> database" where
  "sandbox_ensure_host parse now commands name request spec region db =
     (case request spec region of
        Inl e \<Rightarrow> (Inl e, db)
      | Inr r \<Rightarrow>
          (case provider_ensure_host commands name r db of
             (handle, db') \<Rightarrow> (and_then handle (\<lambda>h. provisioned_lease parse now h region db'), db')))"

definition sandbox_public_host_route ::
    "(string \<Rightarrow> route_url result) \<Rightarrow> database sandbox_commands \<Rightarrow> string \<Rightarrow> host_launch_spec \<Rightarrow> string \<Rightarrow> database \<Rightarrow> string result" where
  "sandbox_public_host_route parse commands name spec region db =
     and_then (fst (provider_public_host_route commands name
       \<lparr>phr_namespace_id = spec_namespace_id spec, phr_code_revision = spec_code_revision spec, phr_canonical_region = region\<rparr> db)) (\<lambda>route.
     and_then (validate_host_route parse route) (\<lambda>_. Inr route))"

definition sandbox_warm_image :: "database sandbox_commands \<Rightarrow> host_launch_spec \<Rightarrow> string \<Rightarrow> database \<Rightarrow> unit result \<times> database" where
  "sandbox_warm_image commands spec region =
     cmd_warm_image commands \<lparr>wir_namespace_id = spec_namespace_id spec, wir_code_revision = spec_code_revision spec,
       wir_canonical_region = region, wir_image_ref = spec_image_ref spec\<rparr>"

definition sandbox_terminate_hosts ::
    "database sandbox_commands \<Rightarrow> host_launch_spec \<Rightarrow> string list \<Rightarrow> database \<Rightarrow> string list result \<times> database" where
  "sandbox_terminate_hosts commands spec canonical_regions =
     cmd_terminate_hosts commands \<lparr>thr_namespace_id = spec_namespace_id spec, thr_code_revision = spec_code_revision spec,
       thr_canonical_regions = canonical_regions\<rparr>"

section \<open>Deployments\<close>

text \<open>A failed termination of the replaced hosts is only logged; \<open>terminate\<close> is absent without a provider.\<close>

definition terminate_deployment_hosts ::
    "(host_launch_spec \<Rightarrow> string list \<Rightarrow> database \<Rightarrow> string list result \<times> database) option \<Rightarrow> buckets \<Rightarrow> host_launch_spec
     \<Rightarrow> database \<Rightarrow> database" where
  "terminate_deployment_hosts terminate buckets spec db =
     (case terminate of None \<Rightarrow> db | Some f \<Rightarrow> snd (f spec (regions buckets) db))"

definition register_deployment ::
    "(host_launch_spec \<Rightarrow> string list \<Rightarrow> database \<Rightarrow> string list result \<times> database) option \<Rightarrow> buckets \<Rightarrow> (database \<Rightarrow> database)
     \<Rightarrow> host_launch_spec \<Rightarrow> database \<Rightarrow> bool result \<times> database" where
  "register_deployment terminate buckets env spec db =
     (case current_deployment (spec_namespace_id spec) db of
        Inl e \<Rightarrow> (Inl e, db)
      | Inr previous \<Rightarrow>
          (case ensure_namespace_and_register_deployment spec (env db) of
             (Inl e, db') \<Rightarrow> (Inl e, db')
           | (Inr changed, db') \<Rightarrow>
               (Inr changed,
                (case previous of
                   Some p \<Rightarrow> if changed then terminate_deployment_hosts terminate buckets p db' else db'
                 | None \<Rightarrow> db'))))"

text \<open>Warming is skipped for a region without a bucket and otherwise runs in the background.\<close>

definition warm_deployment_image ::
    "(host_launch_spec \<Rightarrow> string \<Rightarrow> database \<Rightarrow> unit result \<times> database) option \<Rightarrow> buckets \<Rightarrow> host_launch_spec \<Rightarrow> string
     \<Rightarrow> database \<Rightarrow> database" where
  "warm_deployment_image warm buckets spec region db =
     (case warm of
        None \<Rightarrow> db
      | Some f \<Rightarrow> if region \<notin> set (regions buckets) then db else snd (f spec region db))"

section \<open>Socket events\<close>

type_synonym socket_target_key = "actor_key \<times> host_id \<times> string \<times> i64"

record socket_caches =
  sc_targets :: "socket_target_key \<rightharpoonup> workflow_actor_target"
  sc_channels :: "string set"

definition socket_key :: "actor_principal \<Rightarrow> actor_key \<Rightarrow> socket_target_key" where
  "socket_key prin actor = (actor, prin_host_id prin, prin_session_id prin, prin_expires_at prin)"

definition invalidate :: "socket_target_key \<Rightarrow> socket_caches \<Rightarrow> socket_caches" where
  "invalidate key caches = caches\<lparr>sc_targets := (sc_targets caches)(key := None)\<rparr>"

text \<open>\<open>resolve\<close> is \<^verbatim>\<open>resolve_workflow_route\<close> for the control plane's own use; \<open>now\<close> the clock in seconds.\<close>

definition socket_target ::
    "i64 result \<Rightarrow> (actor_principal \<Rightarrow> actor_key \<Rightarrow> 'w \<Rightarrow> workflow_actor_target result \<times> 'w) \<Rightarrow> actor_principal \<Rightarrow> actor_key
     \<Rightarrow> 'w \<times> socket_caches \<Rightarrow> workflow_actor_target result \<times> 'w \<times> socket_caches" where
  "socket_target unix_seconds resolve prin actor st =
     (case st of (w, caches) \<Rightarrow>
        (case and_then (workflow_allowed prin actor) (\<lambda>_.
              and_then unix_seconds (\<lambda>now.
              and_then (ensure (now < prin_expires_at prin) ''workflow token has expired'') (\<lambda>_. Inr now))) of
           Inl e \<Rightarrow> (Inl e, w, caches)
         | Inr now \<Rightarrow>
             (let key = socket_key prin actor;
                  lookup = (\<lambda>caches. case resolve prin actor w of
                     (Inl e, w') \<Rightarrow> (Inl e, w', caches)
                   | (Inr target, w') \<Rightarrow> (Inr target, w', caches\<lparr>sc_targets := (sc_targets caches)(key \<mapsto> target)\<rparr>))
              in case sc_targets caches key of
                   Some target \<Rightarrow> if (now + 5) * 1000 < wt_expires_at_ms target then (Inr target, w, caches)
                     else lookup (invalidate key caches)
                 | None \<Rightarrow> lookup caches)))"

text \<open>\<open>send\<close> is the call of the host's socket handler at a target.\<close>

fun dispatch_attempts ::
    "nat \<Rightarrow> i64 result \<Rightarrow> (actor_principal \<Rightarrow> actor_key \<Rightarrow> 'w \<Rightarrow> workflow_actor_target result \<times> 'w)
     \<Rightarrow> (workflow_actor_target \<Rightarrow> actor_socket_invocation \<Rightarrow> 'w \<Rightarrow> actor_execution_result result \<times> 'w)
     \<Rightarrow> actor_principal \<Rightarrow> actor_socket_invocation \<Rightarrow> 'w \<times> socket_caches
     \<Rightarrow> actor_socket_effect list result \<times> 'w \<times> socket_caches" where
  "dispatch_attempts n unix_seconds resolve send prin invocation st =
     (let key = socket_key prin (sock_actor invocation) in
      case socket_target unix_seconds resolve prin (sock_actor invocation) st of
        (Inl e, st1) \<Rightarrow> (Inl e, st1)
      | (Inr target, (w1, caches1)) \<Rightarrow>
          (let channels = insert (wt_route target) (sc_channels caches1) in
           case send target invocation w1 of
             (Inr (Completed _ effects), w2) \<Rightarrow> (Inr effects, w2, caches1\<lparr>sc_channels := channels\<rparr>)
           | (Inr (Failed failure), w2) \<Rightarrow>
               (Inl (Bail (failure_code failure @ '': '' @ failure_message failure)), w2, caches1\<lparr>sc_channels := channels\<rparr>)
           | (Inl e, w2) \<Rightarrow>
               (Inl e, w2, invalidate key (caches1\<lparr>sc_channels := sc_channels caches1 - {wt_route target}\<rparr>))
           | (Inr _, w2) \<Rightarrow>
               (let caches2 = invalidate key (caches1\<lparr>sc_channels := channels\<rparr>) in
                case n of
                  0 \<Rightarrow> (Inl (Bail ''actor host remained unavailable after socket reroute''), w2, caches2)
                | Suc m \<Rightarrow> dispatch_attempts m unix_seconds resolve send prin invocation (w2, caches2))))"

text \<open>Two attempts.\<close>

definition dispatch_socket_event ::
    "i64 result \<Rightarrow> (actor_principal \<Rightarrow> actor_key \<Rightarrow> 'w \<Rightarrow> workflow_actor_target result \<times> 'w)
     \<Rightarrow> (workflow_actor_target \<Rightarrow> actor_socket_invocation \<Rightarrow> 'w \<Rightarrow> actor_execution_result result \<times> 'w)
     \<Rightarrow> actor_principal \<Rightarrow> actor_socket_invocation \<Rightarrow> 'w \<times> socket_caches
     \<Rightarrow> actor_socket_effect list result \<times> 'w \<times> socket_caches" where
  "dispatch_socket_event = dispatch_attempts 1"

section \<open>What a command may do\<close>

lemma lease_status_active:
  assumes "db_ok db" "i64_ok now" "lease_status now h db = Inr st" "is_active st" "status_lease st = Some l"
  shows "active_lease db h (lease_session_id l) now \<and> lease_id l = h \<and>
    db_leases db (host_str h) = Some \<lparr>lr_session_id = lease_session_id l, lr_route = lease_route l, lr_expires_at_ms = uint (lease_expires_at_ms l)\<rparr>"
proof (cases "db_leases db (host_str h)")
  case (Some row)
  then have "0 < lr_expires_at_ms row" "i64_ok (lr_expires_at_ms row)"
    using assms(1) by (auto dest: db_ok_lease simp: lease_row_ok_def)
  with assms Some show ?thesis
    by (auto simp: lease_status_def is_active_def active_lease_def u64_of_i64_def u64_of_i64_less uint_word_of_i64 result_simps ok_or_def
        split: if_splits)
qed (use assms in \<open>auto simp: lease_status_def is_active_def result_simps\<close>)

lemma require_active_host_lease:
  assumes "db_ok db" "i64_ok now" "require_active_host now prin db = Inr l"
  shows "active_lease db (prin_host_id prin) (prin_session_id prin) now"
proof -
  from assms(3) obtain st where st: "lease_status now (prin_host_id prin) db = Inr st" "is_active st" "status_lease st = Some l"
    and "lease_session_id l = prin_session_id prin"
    unfolding require_active_host_def by (simp only: and_then_eq_Inr ok_or_eq_Inr ensure_eq_Inr sum.inject) blast
  with lease_status_active [OF assms(1,2) st] show ?thesis by simp
qed

lemma commit_committed:
  assumes "db_ok db" "db_ok (env db)" "commit_state env now q db = (Inr (Committed p), db')"
  shows "head db' (cr_object q) = Some p" "pl_state_version p = saturating_add (cr_expected_version q) 1"
    "pl_state_object p = Some (cr_state_object q)" "pl_last_request_id p = Some (cr_request_id q)"
  using commit_step [OF assms]
  by (auto simp: is_replayed_commit_def commit_effect_def saturating_add_one)

abbreviation (input) commit_request :: "actor_principal \<Rightarrow> actor_key \<Rightarrow> host_id \<Rightarrow> u64 \<Rightarrow> u64 \<Rightarrow> string \<Rightarrow> string \<Rightarrow> state_commit_request" where
  "commit_request prin actor host epoch expected name req \<equiv>
     \<lparr>cr_object = storage_key actor, cr_owner = host, cr_session_id = prin_session_id prin, cr_owner_epoch = epoch,
      cr_expected_version = expected, cr_state_object = name, cr_request_id = req\<rparr>"

lemma cp_commit_state_Inr:
  assumes "cp_commit_state cp amb env prin actor host epoch expected name req db = (Inr r, db')"
  obtains l p where "actor_validate actor = Inr ()" "scope_contains (prin_scope prin) actor" "host = prin_host_id prin"
    "require_active_host (amb_lease_now amb) prin db = Inr l" "expected \<noteq> - 1"
    "validate_snapshot_object_name actor (expected + 1) name = Inr ()"
    "commit_state env (amb_commit_now amb) (commit_request prin actor host epoch expected name req) (env db) = (Inr (Committed p), db')"
    "r = StateCommitted (pl_state_version p) (ok (cp_state_write_ticket cp amb (pl_home_region p) actor (pl_state_version p)))"
proof -
  let ?guard = "and_then (actor_validate actor) (\<lambda>_.
      and_then (ensure (scope_contains (prin_scope prin) actor) ''actor crossed the host namespace'') (\<lambda>_.
      and_then (validate_host_id prin (host_str host)) (\<lambda>_.
      and_then (require_active_host (amb_lease_now amb) prin db) (\<lambda>_.
      and_then (ok_or (checked_add expected 1) ''actor state version overflow'') (\<lambda>version.
      validate_snapshot_object_name actor version name)))))"
  have guard: "?guard = Inr ()" using assms by (cases ?guard) (auto simp: cp_commit_state_def)
  then obtain l where "actor_validate actor = Inr ()" "scope_contains (prin_scope prin) actor" "host = prin_host_id prin"
    "require_active_host (amb_lease_now amb) prin db = Inr l" "expected \<noteq> - 1" "validate_snapshot_object_name actor (expected + 1) name = Inr ()"
    by (auto simp: and_then_eq_Inr validate_host_id_def ok_or_def checked_add_one_Some host_str_inject split: option.splits if_splits)
  moreover obtain p where "commit_state env (amb_commit_now amb) (commit_request prin actor host epoch expected name req) (env db) = (Inr (Committed p), db')"
    "r = StateCommitted (pl_state_version p) (ok (cp_state_write_ticket cp amb (pl_home_region p) actor (pl_state_version p)))"
    using assms by (auto simp: cp_commit_state_def guard split: sum.splits state_commit.splits prod.splits)
  ultimately show thesis by (rule that)
qed

text \<open>
  Claim C6. A commit the control plane acknowledges was sent by an authenticated host process
  for an actor of its own namespace, under its own identity and while its session's lease was
  unexpired; the actor's head is then the next version, its object is a snapshot name issued for
  exactly that actor and version, and its request is the committed one, whatever other connections
  did between the statements.
\<close>

theorem commit_command_sound:
  assumes ok: "db_ok db" "db_ok (env db)" "db_ok (env (env db))" "i64_ok (amb_lease_now amb)"
    and run: "execute_command cp amb env prin (CommitState actor host epoch expected name req) db = (Inr (StateCommitted v nw), db')"
  shows "prin_process_role prin = Host \<and> namespace_id actor = scope_namespace_id (prin_scope prin) \<and> host = prin_host_id prin \<and>
    active_lease db host (prin_session_id prin) (amb_lease_now amb) \<and> v = expected + 1 \<and> expected \<noteq> - 1 \<and>
    (\<exists>nonce. snapshot_object_name actor v nonce = Inr name) \<and>
    (\<exists>p. head db' (storage_key actor) = Some p \<and> pl_state_version p = v \<and> pl_state_object p = Some name \<and> pl_last_request_id p = Some req)"
proof -
  from run have role: "prin_process_role prin = Host" by (auto simp: execute_command_def split: if_splits)
  with run have commit: "cp_commit_state cp amb env prin actor host epoch expected name req db = (Inr (StateCommitted v nw), db')"
    by (simp add: execute_command_def)
  show ?thesis
  proof (rule cp_commit_state_Inr [OF commit])
    fix l p
    assume guards: "actor_validate actor = Inr ()" "scope_contains (prin_scope prin) actor" "host = prin_host_id prin"
      "require_active_host (amb_lease_now amb) prin db = Inr l" "expected \<noteq> - 1"
      "validate_snapshot_object_name actor (expected + 1) name = Inr ()"
      and committed: "commit_state env (amb_commit_now amb) (commit_request prin actor host epoch expected name req) (env db) = (Inr (Committed p), db')"
      and reply: "StateCommitted v nw = StateCommitted (pl_state_version p) (ok (cp_state_write_ticket cp amb (pl_home_region p) actor (pl_state_version p)))"
    note head = commit_committed [OF ok(2,3) committed]
    have v: "v = expected + 1" using head(2) reply guards(5) by (simp add: saturating_add_one)
    have "0 < expected + 1" using guards(5) u64_less_succ [of expected] by (metis word_gt_0 word_not_simps(1))
    then have "\<exists>nonce. snapshot_object_name actor v nonce = Inr name"
      using accepted_name_issued [OF guards(1) _ guards(6)] v by simp
    then show ?thesis
      using role guards require_active_host_lease [OF ok(1,4) guards(4)] head v reply by (auto simp: scope_contains_def)
  qed
qed

text \<open>
  Claim C20. Confinement: a command of a host, accepted or refused, changes no lease but the one of
  the authenticated host and no placement but that of the one actor it names, an actor of the host's
  own namespace; a process that is not a host changes nothing.
\<close>

theorem command_confined:
  assumes "execute_command cp amb id prin command db = (res, db')"
  shows "(\<forall>h. h \<noteq> host_str (prin_host_id prin) \<longrightarrow> db_leases db' h = db_leases db h) \<and>
    (\<forall>k. db_placements db' k \<noteq> db_placements db k \<longrightarrow>
       (\<exists>actor. k = key_str (storage_key actor) \<and> actor_validate actor = Inr () \<and>
          namespace_id actor = scope_namespace_id (prin_scope prin))) \<and>
    (prin_process_role prin \<noteq> Host \<longrightarrow> db' = db)"
proof (cases "prin_process_role prin = Host")
  case True
  show ?thesis
  proof (cases command)
    case (RegisterLease request)
    then show ?thesis
      using assms True
      by (auto simp: execute_command_def register_lease_def register_def register_statement_def validate_host_id_def Let_def and_then_eq_Inr
          split: sum.splits if_splits option.splits prod.splits)
  next
    case (UnregisterLease h)
    then show ?thesis
      using assms True
      by (auto simp: execute_command_def unregister_lease_def unregister_def validate_host_id_def
          split: sum.splits if_splits option.splits prod.splits)
  next
    case (PrepareStateWrite actor h e v)
    then show ?thesis
      using assms True by (auto simp: execute_command_def prepare_state_write_def split: sum.splits)
  next
    case (CommitState actor h e v name req)
    then show ?thesis
      using assms True
      by (auto simp: execute_command_def cp_commit_state_def commit_state_def commit_statement_def Let_def and_then_eq_Inr scope_contains_def
          split: sum.splits if_splits option.splits prod.splits state_commit.splits)
  qed
qed (use assms in \<open>simp add: execute_command_def\<close>)

section \<open>Concrete runs\<close>

text \<open>
  One namespace with one host in session \<^verbatim>\<open>u1\<close>, leased until 31000, which owns one actor in epoch 1;
  a control plane with one bucket whose signed URLs are the object names.
\<close>

abbreviation (input) cluster_host :: host_id where "cluster_host \<equiv> HostId ''host.v1.project-1.r1.a''"

abbreviation (input) cluster_object :: string where
  "cluster_object \<equiv> ''snapshots/01/0123456789abcdef0123456789abcdef/project-1/Counter/account.42/1.json''"

definition cluster_db :: database where
  "cluster_db = \<lparr>db_leases = [''host.v1.project-1.r1.a'' \<mapsto> \<lparr>lr_session_id = ''u1'', lr_route = ''https://a'', lr_expires_at_ms = 31000\<rparr>],
     db_placements = [''object.v1.project-1.Counter.account.42'' \<mapsto> \<lparr>pr_owner_host_id = ''host.v1.project-1.r1.a'', pr_owner_epoch = 1,
       pr_home_region = ''eu-west'', pr_state_version = 0, pr_state_object = None, pr_last_request_id = None\<rparr>],
     db_namespaces = {''project-1''},
     db_specs = [''project-1'' \<mapsto> \<lparr>sr_code_revision = ''r1'', sr_image_ref = ''image'', sr_working_directory = ''/app'', sr_actor_entrypoint = None\<rparr>]\<rparr>"

definition cluster_cp :: "(unit, unit) control_plane" where
  "cluster_cp = \<lparr>cp_lib = sample_lib (host_claims sample_issuer ''project-1'' cluster_host ''u1'' ''r1'' ''eu-west'' 5000 3605000),
     cp_verifier = sample_verifier ControlPlane ''cp'', cp_issuer = Some sample_issuer, cp_buckets = [(''eu-west'', ''b'')],
     cp_sign = (\<lambda>r. Inr (''https://store/'' @ sign_object r)), cp_parse_route = (\<lambda>_. Inl (Bail ''url''))\<rparr>"

definition cluster_ambient :: ambient where
  "cluster_ambient = \<lparr>amb_lease_now = 2000, amb_commit_now = 2001, amb_seconds = Inr 2, amb_millis = Inr 2000,
     amb_nonce = ''0123456789abcdef0123456789abcdef''\<rparr>"

definition cluster_principal :: actor_principal where
  "cluster_principal = \<lparr>prin_scope = \<lparr>scope_namespace_id = ''project-1''\<rparr>, prin_host_id = cluster_host, prin_session_id = ''u1'',
     prin_process_role = Host, prin_region = ''eu-west'', prin_private_routing = False, prin_code_revision = Some ''r1'',
     prin_expires_at = 3605, prin_invocation = None\<rparr>"

abbreviation (input) cluster_commit :: control_plane_command where
  "cluster_commit \<equiv> CommitState sample_actor cluster_host 1 0 cluster_object ''req-1''"

lemma cluster_db_ok [simp]: "db_ok cluster_db"
  by (auto simp: db_ok_def cluster_db_def placement_row_ok_def lease_row_ok_def i64_ok_def split: if_splits)

lemma cluster_object_name: "snapshot_object_name sample_actor 1 ''0123456789abcdef0123456789abcdef'' = Inr cluster_object"
proof -
  have "digit_char (Suc 0) = CHR ''1''" by code_simp
  then show ?thesis by (simp add: snapshot_object_name_def nonce_ok_def ascii_defs show_nat.simps [of "Suc 0"])
qed

lemma cluster_object_valid: "validate_snapshot_object_name sample_actor 1 cluster_object = Inr ()"
  using sample_actor_valid cluster_object_name by (rule issued_name_accepted)

lemmas cluster_evals = cluster_db_def cluster_ambient_def cluster_principal_def
  require_active_host_def lease_status_def is_active_def storage_key_def scope_contains_def validate_host_id_def checked_add_one
  commit_state_def commit_statement_def validate_state_commit_def storage_key_validate_def
  i64_of_u64_def placement_from_row_def u64_of_i64_def bigint_add_def i64_ok_def placement_get_def ok_or_def
  is_replayed_commit_def saturating_add_def Let_def

lemma cluster_commit_run:
  "\<exists>nw db'. execute_command cluster_cp cluster_ambient id cluster_principal cluster_commit cluster_db = (Inr (StateCommitted 1 nw), db') \<and>
     db_placements db' \<noteq> db_placements cluster_db"
  using cluster_object_valid sample_actor_valid
  by (simp add: execute_command_def cp_commit_state_def cluster_evals fun_eq_iff)

theorem commit_command_sound_witness:
  "\<exists>p. head (snd (execute_command cluster_cp cluster_ambient id cluster_principal cluster_commit cluster_db)) (storage_key sample_actor) = Some p \<and>
     pl_state_version p = 1 \<and> pl_state_object p = Some cluster_object"
proof -
  obtain nw db' where run: "execute_command cluster_cp cluster_ambient id cluster_principal cluster_commit cluster_db = (Inr (StateCommitted 1 nw), db')"
    using cluster_commit_run by blast
  from commit_command_sound [OF _ _ _ _ run] show ?thesis unfolding run by (auto simp: cluster_ambient_def i64_ok_def)
qed

theorem command_confined_witness:
  "db_placements (snd (execute_command cluster_cp cluster_ambient id cluster_principal cluster_commit cluster_db)) ''object.v1.p2.T.a''
     = db_placements cluster_db ''object.v1.p2.T.a''"
  using command_confined [of cluster_cp cluster_ambient cluster_principal cluster_commit cluster_db, OF surjective_pairing]
  by (force simp: cluster_principal_def storage_key_def)

end
