(* ===== verification/Client.thy ===== *)
theory Client
  imports Control_Plane
begin

text \<open>
  The host's client of the control plane (\<^verbatim>\<open>src/control_plane/client.rs\<close>): it encodes a command,
  attaches its current bearer token, and reads the typed reply; a renewed lease may carry the next
  token. \<open>rpc\<close> is the gRPC call, which takes the authorization metadata and the request bytes, and
  \<open>parse_metadata\<close> the check of the metadata library that a value is printable ASCII.
\<close>

record cp_client =
  cl_authorization :: string

type_synonym 'w rpc = "string \<Rightarrow> string \<Rightarrow> 'w \<Rightarrow> string result \<times> 'w"

definition bearer_authorization :: "(string \<Rightarrow> string result) \<Rightarrow> string \<Rightarrow> string result" where
  "bearer_authorization parse_metadata token =
     and_then (ensure (token \<noteq> [] \<and> is_trimmed token) ''actor token is invalid'') (\<lambda>_.
     with_context (parse_metadata (''Bearer '' @ token)) ''actor token is not valid gRPC metadata'')"

text \<open>\<open>parsed\<close> and \<open>connected\<close> are the outcomes of parsing the endpoint and of opening the channel.\<close>

definition client_connect :: "(string \<Rightarrow> string result) \<Rightarrow> unit result \<Rightarrow> unit result \<Rightarrow> string \<Rightarrow> cp_client result" where
  "client_connect parse_metadata parsed connected token =
     and_then (with_context parsed ''parse actor control-plane endpoint'') (\<lambda>_.
     and_then (with_context connected ''connect to actor control plane'') (\<lambda>_.
     and_then (bearer_authorization parse_metadata token) (\<lambda>a. Inr \<lparr>cl_authorization = a\<rparr>)))"

definition client_execute ::
    "command_codec \<Rightarrow> 'w rpc \<Rightarrow> cp_client \<Rightarrow> control_plane_command \<Rightarrow> 'w \<Rightarrow> control_plane_reply result \<times> 'w" where
  "client_execute codec rpc client command w =
     (case enc_command codec command of
        Inl e \<Rightarrow> (Inl e, w)
      | Inr bytes \<Rightarrow>
          (case rpc (cl_authorization client) bytes w of
             (reply, w') \<Rightarrow>
               (and_then (with_context reply ''execute actor control-plane command'') (\<lambda>r.
                with_context (dec_reply codec r) ''decode actor control-plane reply''), w')))"

definition unexpected_reply :: "command_codec \<Rightarrow> string \<Rightarrow> control_plane_reply \<Rightarrow> 'a result" where
  "unexpected_reply codec what reply = Inl (Bail (''unexpected '' @ what @ '' reply: '' @ debug_reply codec reply))"

definition client_prepare_state_write ::
    "command_codec \<Rightarrow> 'w rpc \<Rightarrow> cp_client \<Rightarrow> actor_key \<Rightarrow> host_id \<Rightarrow> u64 \<Rightarrow> u64 \<Rightarrow> 'w \<Rightarrow> state_write_ticket result \<times> 'w" where
  "client_prepare_state_write codec rpc client actor host owner_epoch expected_version w =
     (case client_execute codec rpc client (PrepareStateWrite actor host owner_epoch expected_version) w of
        (reply, w') \<Rightarrow>
          (and_then reply (\<lambda>r. case r of
             StateWriteTicketReply ticket \<Rightarrow> Inr ticket
           | _ \<Rightarrow> unexpected_reply codec ''prepare-state-write'' r), w'))"

definition client_commit_state ::
    "command_codec \<Rightarrow> 'w rpc \<Rightarrow> cp_client \<Rightarrow> actor_key \<Rightarrow> host_id \<Rightarrow> u64 \<Rightarrow> u64 \<Rightarrow> string \<Rightarrow> string
     \<Rightarrow> 'w \<Rightarrow> (u64 \<times> state_write_ticket option) result \<times> 'w" where
  "client_commit_state codec rpc client actor host owner_epoch expected_version state_object request_id w =
     (case client_execute codec rpc client (CommitState actor host owner_epoch expected_version state_object request_id) w of
        (reply, w') \<Rightarrow>
          (and_then reply (\<lambda>r. case r of
             StateCommitted version next_write \<Rightarrow> Inr (version, next_write)
           | _ \<Rightarrow> unexpected_reply codec ''commit-state'' r), w'))"

definition replace_token :: "(string \<Rightarrow> string result) \<Rightarrow> string \<Rightarrow> cp_client \<Rightarrow> cp_client result" where
  "replace_token parse_metadata token client =
     and_then (bearer_authorization parse_metadata token) (\<lambda>a. Inr (client\<lparr>cl_authorization := a\<rparr>))"

definition client_register ::
    "(string \<Rightarrow> string result) \<Rightarrow> command_codec \<Rightarrow> 'w rpc \<Rightarrow> host_lease_request \<Rightarrow> cp_client \<times> 'w
     \<Rightarrow> host_lease result \<times> cp_client \<times> 'w" where
  "client_register parse_metadata codec rpc request st =
     (case st of (client, w) \<Rightarrow>
        (case client_execute codec rpc client (RegisterLease request) w of
           (Inl e, w') \<Rightarrow> (Inl e, client, w')
         | (Inr (LeaseReply lease None), w') \<Rightarrow> (Inr lease, client, w')
         | (Inr (LeaseReply lease (Some token)), w') \<Rightarrow>
             (case replace_token parse_metadata token client of
                Inl e \<Rightarrow> (Inl e, client, w')
              | Inr client' \<Rightarrow> (Inr lease, client', w'))
         | (Inr r, w') \<Rightarrow> (unexpected_reply codec ''register-lease'' r, client, w')))"

definition client_unregister ::
    "command_codec \<Rightarrow> 'w rpc \<Rightarrow> cp_client \<Rightarrow> host_id \<Rightarrow> 'w \<Rightarrow> unit result \<times> 'w" where
  "client_unregister codec rpc client host w =
     (case client_execute codec rpc client (UnregisterLease host) w of
        (reply, w') \<Rightarrow>
          (and_then reply (\<lambda>r. case r of
             UnitReply \<Rightarrow> Inr ()
           | _ \<Rightarrow> unexpected_reply codec ''unregister-lease'' r), w'))"

section \<open>What a reply means\<close>

text \<open>The serializers of commands and replies read back what they wrote.\<close>

definition wire_inverse :: "command_codec \<Rightarrow> bool" where
  "wire_inverse codec \<longleftrightarrow>
     (\<forall>c bytes. enc_command codec c = Inr bytes \<longrightarrow> dec_command codec bytes = Inr c) \<and>
     (\<forall>r bytes. enc_reply codec r = Inr bytes \<longrightarrow> dec_reply codec bytes = Inr r)"

lemma wire_command: "wire_inverse codec \<Longrightarrow> enc_command codec c = Inr bytes \<Longrightarrow> dec_command codec bytes = Inr c"
  by (simp add: wire_inverse_def)

lemma wire_reply: "wire_inverse codec \<Longrightarrow> enc_reply codec r = Inr bytes \<Longrightarrow> dec_reply codec bytes = Inr r"
  by (simp add: wire_inverse_def)

lemma client_commit_Inr:
  "client_commit_state codec rpc client a h e v name req w = (Inr (ver, nw), w') \<longleftrightarrow>
   client_execute codec rpc client (CommitState a h e v name req) w = (Inr (StateCommitted ver nw), w')"
proof (cases "client_execute codec rpc client (CommitState a h e v name req) w")
  case (Pair r w1)
  then show ?thesis
    by (cases r; cases "projr r") (auto simp: client_commit_state_def result_simps unexpected_reply_def)
qed

lemma client_prepare_Inr:
  "client_prepare_state_write codec rpc client a h e v w = (Inr t, w') \<longleftrightarrow>
   client_execute codec rpc client (PrepareStateWrite a h e v) w = (Inr (StateWriteTicketReply t), w')"
proof (cases "client_execute codec rpc client (PrepareStateWrite a h e v) w")
  case (Pair r w1)
  then show ?thesis
    by (cases r; cases "projr r") (auto simp: client_prepare_state_write_def result_simps unexpected_reply_def)
qed

text \<open>A command does nothing but its call.\<close>

lemma client_execute_world:
  "client_execute codec rpc client c w = (r, w') \<Longrightarrow> w' = w \<or> (\<exists>bytes. enc_command codec c = Inr bytes \<and> w' = snd (rpc (cl_authorization client) bytes w))"
  by (auto simp: client_execute_def split: sum.splits prod.splits)

lemma client_execute_Inr:
  assumes "client_execute codec rpc client c w = (Inr r, w')"
  obtains bytes reply where "enc_command codec c = Inr bytes" "rpc (cl_authorization client) bytes w = (Inr reply, w')"
    "dec_reply codec reply = Inr r"
  using assms by (auto simp: client_execute_def result_simps split: sum.splits prod.splits)

end
