(* ===== verification/Sockets.thy ===== *)
theory Sockets
  imports Actor_Protocol
begin

text \<open>
  Limits on the socket effects an actor returns (\<^verbatim>\<open>src/actor/socket.rs\<close>). The base64 decoder and
  the JSON serializer are libraries and are parameters: \<open>decode\<close> and \<open>to_vec\<close>. The lemmas show
  that validation accepts exactly the effects within the documented limits; in particular that the
  pre-check on the encoded length never refuses a message whose decoded length is allowed.
\<close>

abbreviation max_socket_metadata_bytes :: nat where "max_socket_metadata_bytes \<equiv> 65536"
abbreviation max_socket_message_bytes :: nat where "max_socket_message_bytes \<equiv> 16777216"
abbreviation max_socket_connection_id_bytes :: nat where "max_socket_connection_id_bytes \<equiv> 128"
abbreviation max_socket_tags :: nat where "max_socket_tags \<equiv> 128"
abbreviation max_socket_tag_characters :: nat where "max_socket_tag_characters \<equiv> 256"
abbreviation max_socket_tag_bytes :: nat where "max_socket_tag_bytes \<equiv> 8192"
abbreviation max_socket_close_reason_bytes :: nat where "max_socket_close_reason_bytes \<equiv> 123"

definition validate_socket_metadata :: "(json \<Rightarrow> string result) \<Rightarrow> json \<Rightarrow> unit result" where
  "validate_socket_metadata to_vec metadata =
     and_then (to_vec metadata) (\<lambda>bytes.
     ensure (length bytes \<le> max_socket_metadata_bytes) ''socket metadata exceeds 65536 bytes'')"

definition div_ceil :: "nat \<Rightarrow> nat \<Rightarrow> nat" where
  "div_ceil a b = (a + b - 1) div b"

fun validate_socket_message :: "(string \<Rightarrow> string result) \<Rightarrow> actor_socket_message \<Rightarrow> unit result" where
  "validate_socket_message decode (Text data) =
     ensure (length data \<le> max_socket_message_bytes) ''socket message exceeds 16777216 bytes''"
| "validate_socket_message decode (Binary data) =
     and_then (ensure (length data \<le> div_ceil max_socket_message_bytes 3 * 4)
       ''socket message exceeds 16777216 decoded bytes'') (\<lambda>_.
     and_then (with_context (decode data) ''socket binary message is not valid base64'') (\<lambda>decoded.
     ensure (length decoded \<le> max_socket_message_bytes) ''socket message exceeds 16777216 decoded bytes''))"

definition validate_connection_id :: "string \<Rightarrow> unit result" where
  "validate_connection_id connection_id =
     and_then (ensure (connection_id \<noteq> []) ''socket connection ID is empty'') (\<lambda>_.
     ensure (length connection_id \<le> max_socket_connection_id_bytes) ''socket connection ID exceeds 128 bytes'')"

text \<open>\<^verbatim>\<open>usize::saturating_add\<close> on the 64-bit targets.\<close>

definition usize_saturating_add :: "nat \<Rightarrow> nat \<Rightarrow> nat" where
  "usize_saturating_add a b = min (a + b) (2 ^ 64 - 1)"

fun tags_total :: "string list \<Rightarrow> nat \<Rightarrow> nat result" where
  "tags_total [] total_bytes = Inr total_bytes"
| "tags_total (tag # tags) total_bytes =
     and_then (ensure (tag \<noteq> []) ''socket tag is empty'') (\<lambda>_.
     and_then (ensure (char_count tag \<le> max_socket_tag_characters) ''socket tag exceeds 256 characters'') (\<lambda>_.
     tags_total tags (usize_saturating_add total_bytes (length tag))))"

definition validate_socket_tags :: "string list \<Rightarrow> unit result" where
  "validate_socket_tags tags =
     and_then (ensure (length tags \<le> max_socket_tags) ''socket tags exceed 128 entries'') (\<lambda>_.
     and_then (tags_total tags 0) (\<lambda>total_bytes.
     ensure (total_bytes \<le> max_socket_tag_bytes) ''socket tags exceed 8192 bytes''))"

definition validate_close :: "u16 \<Rightarrow> string \<Rightarrow> unit result" where
  "validate_close code reason =
     and_then (ensure (code = 1000 \<or> 3000 \<le> code \<and> code \<le> 4999)
       ''socket close code must be 1000 or between 3000 and 4999'') (\<lambda>_.
     ensure (length reason \<le> max_socket_close_reason_bytes) ''socket close reason exceeds 123 bytes'')"

fun validate_socket_effect ::
    "(string \<Rightarrow> string result) \<Rightarrow> (json \<Rightarrow> string result) \<Rightarrow> actor_socket_effect \<Rightarrow> unit result" where
  "validate_socket_effect decode to_vec (Send connection_id message) =
     and_then (validate_connection_id connection_id) (\<lambda>_. validate_socket_message decode message)"
| "validate_socket_effect decode to_vec (Broadcast message except_connection_ids tags) =
     and_then (ensure (length except_connection_ids \<le> max_socket_tags)
       ''socket broadcast exclusions exceed 128 entries'') (\<lambda>_.
     and_then (check_all validate_connection_id except_connection_ids) (\<lambda>_.
     and_then (validate_socket_tags tags) (\<lambda>_.
     validate_socket_message decode message)))"
| "validate_socket_effect decode to_vec (Close connection_id code reason) =
     and_then (validate_connection_id connection_id) (\<lambda>_. validate_close code reason)"
| "validate_socket_effect decode to_vec (Reject connection_id code reason) =
     and_then (validate_connection_id connection_id) (\<lambda>_. validate_close code reason)"
| "validate_socket_effect decode to_vec (SetMetadata connection_id metadata) =
     and_then (validate_connection_id connection_id) (\<lambda>_. validate_socket_metadata to_vec metadata)"
| "validate_socket_effect decode to_vec (SetTags connection_id tags) =
     and_then (validate_connection_id connection_id) (\<lambda>_. validate_socket_tags tags)"

definition validate_socket_effects ::
    "(string \<Rightarrow> string result) \<Rightarrow> (json \<Rightarrow> string result) \<Rightarrow> actor_socket_effect list \<Rightarrow> unit result" where
  "validate_socket_effects decode to_vec effects = check_all (validate_socket_effect decode to_vec) effects"

section \<open>The limits\<close>

definition connection_id_within :: "string \<Rightarrow> bool" where
  "connection_id_within i \<longleftrightarrow> 0 < length i \<and> length i \<le> 128"

definition tags_within :: "string list \<Rightarrow> bool" where
  "tags_within tags \<longleftrightarrow> length tags \<le> 128 \<and> (\<forall>t \<in> set tags. t \<noteq> [] \<and> char_count t \<le> 256) \<and>
     sum_list (map length tags) \<le> 8192"

fun message_within :: "(string \<Rightarrow> string result) \<Rightarrow> actor_socket_message \<Rightarrow> bool" where
  "message_within decode (Text data) = (length data \<le> 16777216)"
| "message_within decode (Binary data) = (case decode data of Inl _ \<Rightarrow> False | Inr d \<Rightarrow> length d \<le> 16777216)"

definition close_within :: "u16 \<Rightarrow> string \<Rightarrow> bool" where
  "close_within code reason \<longleftrightarrow> (unat code = 1000 \<or> unat code \<in> {3000..4999}) \<and> length reason \<le> 123"

fun effect_within :: "(string \<Rightarrow> string result) \<Rightarrow> (json \<Rightarrow> string result) \<Rightarrow> actor_socket_effect \<Rightarrow> bool" where
  "effect_within decode to_vec (Send i m) = (connection_id_within i \<and> message_within decode m)"
| "effect_within decode to_vec (Broadcast m ex tags) =
     (length ex \<le> 128 \<and> list_all connection_id_within ex \<and> tags_within tags \<and> message_within decode m)"
| "effect_within decode to_vec (Close i code reason) = (connection_id_within i \<and> close_within code reason)"
| "effect_within decode to_vec (Reject i code reason) = (connection_id_within i \<and> close_within code reason)"
| "effect_within decode to_vec (SetMetadata i metadata) =
     (connection_id_within i \<and> (case to_vec metadata of Inl _ \<Rightarrow> False | Inr bytes \<Rightarrow> length bytes \<le> 65536))"
| "effect_within decode to_vec (SetTags i tags) = (connection_id_within i \<and> tags_within tags)"

lemma validate_connection_id_iff: "validate_connection_id i = Inr u \<longleftrightarrow> connection_id_within i"
  by (auto simp: validate_connection_id_def connection_id_within_def result_simps)

lemma tags_total_Inr:
  "acc \<le> 2 ^ 64 - 1 \<Longrightarrow> tags_total tags acc = Inr n \<longleftrightarrow>
    (\<forall>t \<in> set tags. t \<noteq> [] \<and> char_count t \<le> 256) \<and> n = min (acc + sum_list (map length tags)) (2 ^ 64 - 1)"
proof (induction tags arbitrary: acc)
  case (Cons t tags)
  have le: "usize_saturating_add acc (length t) \<le> 2 ^ 64 - 1" by (simp add: usize_saturating_add_def)
  show ?case using Cons.IH [OF le] by (auto simp: result_simps usize_saturating_add_def)
qed auto

lemma validate_socket_tags_iff: "validate_socket_tags tags = Inr u \<longleftrightarrow> tags_within tags"
  by (auto simp: validate_socket_tags_def tags_within_def result_simps tags_total_Inr)

lemma validate_close_iff: "validate_close code reason = Inr u \<longleftrightarrow> close_within code reason"
proof -
  have "code = 1000 \<longleftrightarrow> unat code = 1000" by (simp add: word_unat_eq_iff)
  then show ?thesis by (auto simp: validate_close_def close_within_def result_simps word_le_nat_alt)
qed

text \<open>\<open>STANDARD\<close> base64 decodes only canonically padded text: four characters per three bytes.\<close>

definition padded_base64 :: "(string \<Rightarrow> string result) \<Rightarrow> bool" where
  "padded_base64 decode \<longleftrightarrow> (\<forall>s d. decode s = Inr d \<longrightarrow> length s = (length d + 2) div 3 * 4)"

lemma validate_socket_message_iff:
  assumes "padded_base64 decode"
  shows "validate_socket_message decode m = Inr u \<longleftrightarrow> message_within decode m"
proof (cases m)
  case (Binary data)
  have "length data \<le> div_ceil max_socket_message_bytes 3 * 4" if "decode data = Inr d" "length d \<le> 16777216" for d
  proof -
    from that(2) have "(length d + 2) div 3 \<le> (16777216 + 2) div 3" by (intro div_le_mono) simp
    then show ?thesis using assms that(1) by (simp add: padded_base64_def div_ceil_def)
  qed
  then show ?thesis using Binary by (auto simp: result_simps split: sum.splits)
qed (simp add: result_simps)

text \<open>
  The validation of an actor's socket effects accepts exactly the lists in which every
  effect is within the documented limits (identifiers, exclusions, tags, close codes and reasons,
  metadata and decoded message size); saturation and the encoded-length pre-check refuse nothing more.
\<close>

lemma validate_socket_effects_iff:
  assumes "padded_base64 decode"
  shows "validate_socket_effects decode to_vec effects = Inr () \<longleftrightarrow> list_all (effect_within decode to_vec) effects"
proof -
  have "validate_socket_effect decode to_vec e = Inr () \<longleftrightarrow> effect_within decode to_vec e" for e
    by (cases e)
      (auto simp: result_simps validate_connection_id_iff validate_socket_tags_iff validate_close_iff
        validate_socket_message_iff [OF assms] validate_socket_metadata_def list_all_iff split: sum.splits)
  then show ?thesis by (simp add: validate_socket_effects_def check_all_eq_Inr list_all_iff)
qed

definition sample_decode :: "string \<Rightarrow> string result" where
  "sample_decode s = (if s = ''aGk='' then Inr ''hi'' else Inl (Bail ''invalid''))"

lemma sample_validate_socket_effects_iff:
  "validate_socket_effects sample_decode (\<lambda>_. Inr ''{}'')
     [Send ''c1'' (Binary ''aGk=''), SetTags ''c1'' [''room''], Close ''c2'' 3001 ''bye''] = Inr ()"
proof -
  have "padded_base64 sample_decode" by (simp add: padded_base64_def sample_decode_def)
  from validate_socket_effects_iff [OF this] show ?thesis
    by (simp add: connection_id_within_def sample_decode_def tags_within_def close_within_def char_count_def)
qed

end
