(* ===== verification/Actor_Host.thy ===== *)
theory Actor_Host
  imports State_Log Storage_Urls Sockets
begin

text \<open>
  The actor host (\<^verbatim>\<open>src/host/actor_host.rs\<close>): it runs an actor's method or socket event on the
  actor's state, publishes the next state as an immutable snapshot and acknowledges only after the
  control plane has committed it. The trait objects the host is built from (executor, commit
  authority, state transport) and the clock are the fields of \<^verbatim>\<open>host_env\<close>, acting on a world of
  type \<open>'w\<close>; the laws a commit authority and a store of immutable objects promise are the
  locale \<^verbatim>\<open>state_authority\<close>. \<open>wait\<close> is the admission gate of \<^verbatim>\<open>Execution_Gate\<close>: its answer,
  and what the other tasks of the process did while this one was queued. Timings and log lines are
  left out.
\<close>

abbreviation state_write_ticket_safety_ms :: i64 where "state_write_ticket_safety_ms \<equiv> 5000"

record committed_state =
  com_state_version :: u64
  com_next_write :: "state_write_ticket option"

record 'w host_env =
  env_supports :: "string \<Rightarrow> bool"
  env_invoke :: "actor_method_invocation \<Rightarrow> 'w \<Rightarrow> actor_method_outcome result \<times> 'w"
  env_handle_socket :: "actor_socket_invocation \<Rightarrow> 'w \<Rightarrow> actor_socket_outcome result \<times> 'w"
  env_evict :: "actor_key \<Rightarrow> 'w \<Rightarrow> unit result \<times> 'w"
  env_prepare_state_write :: "actor_key \<Rightarrow> host_id \<Rightarrow> u64 \<Rightarrow> u64 \<Rightarrow> 'w \<Rightarrow> state_write_ticket result \<times> 'w"
  env_commit_state :: "actor_key \<Rightarrow> host_id \<Rightarrow> u64 \<Rightarrow> u64 \<Rightarrow> string \<Rightarrow> string \<Rightarrow> 'w \<Rightarrow> committed_state result \<times> 'w"
  env_read :: "string \<Rightarrow> 'w \<Rightarrow> string result \<times> 'w"
  env_write :: "string \<Rightarrow> string \<Rightarrow> 'w \<Rightarrow> state_write result \<times> 'w"
  env_unix_millis :: "'w \<Rightarrow> i64 result"
  env_codec :: snapshot_codec
  env_base64 :: "string \<Rightarrow> string result"

record pending_state_commit =
  pend_snapshot :: state_snapshot
  pend_ticket :: state_write_ticket

record cached_actor_state =
  ca_owner_epoch :: u64
  ca_state_version :: u64
  ca_state :: "json option"
  ca_last_request_id :: "string option"
  ca_last_result :: "json option"
  ca_next_write :: "state_write_ticket option"
  ca_pending :: "pending_state_commit option"

text \<open>The host's mutable fields, with the world it acts on.\<close>

record 'w actor_host =
  ah_endpoint :: host_endpoint
  ah_namespace_id :: string
  ah_cached_state :: "actor_storage_key \<rightharpoonup> cached_actor_state"
  ah_accepting :: bool
  ah_active :: u64
  ah_activity :: u64
  ah_world :: 'w

definition host_new :: "host_endpoint \<Rightarrow> string \<Rightarrow> 'w \<Rightarrow> 'w actor_host" where
  "host_new endpoint namespace w = \<lparr>ah_endpoint = endpoint, ah_namespace_id = namespace, ah_cached_state = Map.empty,
     ah_accepting = True, ah_active = 0, ah_activity = 0, ah_world = w\<rparr>"

definition on_world :: "('w \<Rightarrow> 'a \<times> 'w) \<Rightarrow> 'w actor_host \<Rightarrow> 'a \<times> 'w actor_host" where
  "on_world f s = (case f (ah_world s) of (x, w) \<Rightarrow> (x, s\<lparr>ah_world := w\<rparr>))"

definition failed :: "string \<Rightarrow> string \<Rightarrow> actor_execution_result" where
  "failed code message = Failed \<lparr>failure_code = code, failure_message = message\<rparr>"

section \<open>The state cache\<close>

definition cached_new :: "u64 \<Rightarrow> cached_actor_state" where
  "cached_new owner_epoch = \<lparr>ca_owner_epoch = owner_epoch, ca_state_version = 0, ca_state = None,
     ca_last_request_id = None, ca_last_result = None, ca_next_write = None, ca_pending = None\<rparr>"

definition cached_from_loaded :: "snapshot_codec \<Rightarrow> u64 \<Rightarrow> u64 \<Rightarrow> string \<Rightarrow> cached_actor_state result" where
  "cached_from_loaded codec owner_epoch state_version bytes =
     and_then (snapshot_decode codec bytes) (\<lambda>snapshot.
     and_then (ensure (snap_state_version snapshot = state_version)
       ''actor snapshot version does not match its state head'') (\<lambda>_.
     and_then (ensure (snap_owner_epoch snapshot \<le> owner_epoch)
       ''actor snapshot belongs to a newer owner epoch'') (\<lambda>_.
     Inr \<lparr>ca_owner_epoch = owner_epoch, ca_state_version = state_version,
          ca_state = Some (snap_state snapshot), ca_last_request_id = Some (snap_request_id snapshot),
          ca_last_result = Some (snap_result snapshot), ca_next_write = None, ca_pending = None\<rparr>)))"

definition cached_replay :: "cached_actor_state \<Rightarrow> string \<Rightarrow> json option" where
  "cached_replay c request_id = (if ca_last_request_id c = Some request_id then ca_last_result c else None)"

definition take_cached_state :: "actor_storage_key \<Rightarrow> 'w actor_host \<Rightarrow> cached_actor_state option \<times> 'w actor_host" where
  "take_cached_state object s = (ah_cached_state s object, s\<lparr>ah_cached_state := (ah_cached_state s)(object := None)\<rparr>)"

definition store_cached_state :: "actor_storage_key \<Rightarrow> cached_actor_state \<Rightarrow> 'w actor_host \<Rightarrow> 'w actor_host" where
  "store_cached_state object c s = s\<lparr>ah_cached_state := (ah_cached_state s)(object \<mapsto> c)\<rparr>"

definition take_or_load_state ::
    "'w host_env \<Rightarrow> actor_storage_key \<Rightarrow> u64 \<Rightarrow> u64 \<Rightarrow> string \<Rightarrow> 'w actor_host \<Rightarrow> cached_actor_state result \<times> 'w actor_host" where
  "take_or_load_state env object owner_epoch state_version state_read_url s =
     (case take_cached_state object s of
        (cached, s1) \<Rightarrow>
          (let load =
             (if state_version = 0 then
                (and_then (ensure (state_read_url = []) ''uninitialized actor has a state URL'') (\<lambda>_.
                 Inr (cached_new owner_epoch)), s1)
              else if state_read_url = [] then (Inl (Bail ''initialized actor has no state URL''), s1)
              else (case on_world (env_read env state_read_url) s1 of
                      (loaded, s2) \<Rightarrow>
                        (and_then (with_context loaded ''load actor state'') (\<lambda>bytes.
                         cached_from_loaded (env_codec env) owner_epoch state_version bytes), s2)))
           in case cached of
                Some c \<Rightarrow> if ca_owner_epoch c = owner_epoch then (Inr c, s1) else load
              | None \<Rightarrow> load))"

section \<open>Execution\<close>

text \<open>A failed eviction is only logged.\<close>

definition evict :: "'w host_env \<Rightarrow> actor_key \<Rightarrow> 'w actor_host \<Rightarrow> 'w actor_host" where
  "evict env actor s = snd (on_world (env_evict env actor) s)"

definition failure_class :: "actor_invocation_failure \<Rightarrow> string" where
  "failure_class failure = (if failure_code failure = ''resource_exhausted'' then ''resource_exhausted'' else ''actor_error'')"

definition execute_method ::
    "'w host_env \<Rightarrow> actor_invocation \<Rightarrow> json option \<Rightarrow> actor_socket_connection list \<Rightarrow> 'w actor_host
     \<Rightarrow> (actor_execution_result + json \<times> json \<times> actor_socket_effect list) \<times> 'w actor_host" where
  "execute_method env invocation state connections s =
     (case on_world (env_invoke env \<lparr>meth_request_id = inv_request_id invocation, meth_actor = inv_actor invocation,
              meth_method = inv_method invocation, meth_args = inv_args invocation,
              meth_state = state, meth_connections = connections\<rparr>) s of
        (Inr (MethodCompleted res next_state effects), s1) \<Rightarrow>
          (case validate_socket_effects (env_base64 env) (value_to_vec (env_codec env)) effects of
             Inr _ \<Rightarrow> (Inr (res, next_state, effects), s1)
           | Inl e \<Rightarrow> (Inl (failed ''actor_error'' (''actor returned invalid socket effects: '' @ show_error e)),
                       evict env (inv_actor invocation) s1))
      | (Inr (MethodFailed failure), s1) \<Rightarrow>
          (Inl (failed (failure_class failure) (failure_message failure)), evict env (inv_actor invocation) s1)
      | (Inl e, s1) \<Rightarrow>
          (Inl (failed ''actor_error'' (''actor executor failed: '' @ show_error e)), evict env (inv_actor invocation) s1))"

definition execute_socket_event ::
    "'w host_env \<Rightarrow> actor_socket_invocation \<Rightarrow> json option \<Rightarrow> 'w actor_host
     \<Rightarrow> (actor_execution_result + json \<times> actor_socket_effect list) \<times> 'w actor_host" where
  "execute_socket_event env invocation state s =
     (case on_world (env_handle_socket env (invocation\<lparr>sock_state := state\<rparr>)) s of
        (Inr (SocketHandled next_state effects), s1) \<Rightarrow>
          (case validate_socket_effects (env_base64 env) (value_to_vec (env_codec env)) effects of
             Inr _ \<Rightarrow> (Inr (next_state, effects), s1)
           | Inl e \<Rightarrow> (Inl (failed ''actor_error'' (''actor returned invalid socket effects: '' @ show_error e)),
                       evict env (sock_actor invocation) s1))
      | (Inr (SocketFailed failure), s1) \<Rightarrow> (Inl (failed (failure_class failure) (failure_message failure)), s1)
      | (Inl e, s1) \<Rightarrow> (Inl (failed ''actor_error'' (''actor executor failed: '' @ show_error e)), s1))"

section \<open>Publication\<close>

definition finish_pending_commit ::
    "'w host_env \<Rightarrow> actor_invocation \<Rightarrow> cached_actor_state \<Rightarrow> 'w actor_host
     \<Rightarrow> unit result \<times> cached_actor_state \<times> 'w actor_host" where
  "finish_pending_commit env invocation cached s =
     (case ca_pending cached of
        None \<Rightarrow> (Inr (), cached, s)
      | Some pending \<Rightarrow>
          (case on_world (env_commit_state env (inv_actor invocation) (endpoint_id (ah_endpoint s))
                  (ca_owner_epoch cached) (ca_state_version cached) (ticket_object_name (pend_ticket pending))
                  (snap_request_id (pend_snapshot pending))) s of
             (Inl e, s1) \<Rightarrow> (Inl e, cached, s1)
           | (Inr committed, s1) \<Rightarrow>
               if com_state_version committed \<noteq> snap_state_version (pend_snapshot pending)
               then (Inl (Bail ''control plane committed the wrong actor state version''), cached, s1)
               else (Inr (), cached\<lparr>ca_pending := None,
                       ca_state_version := snap_state_version (pend_snapshot pending),
                       ca_state := Some (snap_state (pend_snapshot pending)),
                       ca_last_request_id := Some (snap_request_id (pend_snapshot pending)),
                       ca_last_result := Some (snap_result (pend_snapshot pending)),
                       ca_next_write := com_next_write committed\<rparr>, s1)))"

text \<open>The ticket kept from the last commit is used if it is for the next version and not about to expire.\<close>

definition write_ticket_for ::
    "'w host_env \<Rightarrow> actor_invocation \<Rightarrow> u64 \<Rightarrow> u64 \<Rightarrow> cached_actor_state \<Rightarrow> 'w actor_host
     \<Rightarrow> state_write_ticket result \<times> 'w actor_host" where
  "write_ticket_for env invocation owner_epoch next_version cached s =
     (let prepare = on_world (env_prepare_state_write env (inv_actor invocation) (endpoint_id (ah_endpoint s))
            owner_epoch (ca_state_version cached)) s
      in case ca_next_write cached of
           None \<Rightarrow> prepare
         | Some ticket \<Rightarrow>
             if ticket_state_version ticket = next_version
             then (case env_unix_millis env (ah_world s) of
                     Inl e \<Rightarrow> (Inl e, s)
                   | Inr now \<Rightarrow>
                       if i64_saturating (now + state_write_ticket_safety_ms) < ticket_expires_at_ms ticket
                       then (Inr ticket, s) else prepare)
             else prepare)"

definition publish_result_once ::
    "'w host_env \<Rightarrow> actor_invocation \<Rightarrow> u64 \<Rightarrow> cached_actor_state \<Rightarrow> json \<Rightarrow> json \<Rightarrow> 'w actor_host
     \<Rightarrow> actor_execution_result result \<times> cached_actor_state \<times> 'w actor_host" where
  "publish_result_once env invocation owner_epoch cached res next_state s =
     (case checked_add (ca_state_version cached) 1 of
        None \<Rightarrow> (Inl (Bail ''actor state version overflow''), cached, s)
      | Some next_version \<Rightarrow>
          (let cached1 = cached\<lparr>ca_next_write := None\<rparr> in
           case write_ticket_for env invocation owner_epoch next_version cached s of
             (Inl e, s1) \<Rightarrow> (Inl e, cached1, s1)
           | (Inr ticket, s1) \<Rightarrow>
               (case and_then (ensure (ticket_state_version ticket = next_version) ''state write ticket has the wrong version'') (\<lambda>_.
                     and_then (snapshot_new (env_codec env) next_version owner_epoch (inv_request_id invocation) next_state res) (\<lambda>snapshot.
                     and_then (snapshot_encode (env_codec env) snapshot) (\<lambda>bytes. Inr (snapshot, bytes)))) of
                  Inl e \<Rightarrow> (Inl e, cached1, s1)
                | Inr (snapshot, bytes) \<Rightarrow>
                    (case on_world (env_write env (ticket_url ticket) bytes) s1 of
                       (Inl e, s2) \<Rightarrow> (Inl e, cached1, s2)
                     | (Inr _, s2) \<Rightarrow>
                         (let cached2 = cached1\<lparr>ca_pending := Some \<lparr>pend_snapshot = snapshot, pend_ticket = ticket\<rparr>\<rparr> in
                          case finish_pending_commit env invocation cached2 s2 of
                            (Inl e, cached3, s3) \<Rightarrow> (Inl e, cached3, s3)
                          | (Inr _, cached3, s3) \<Rightarrow> (Inr (Completed res []), cached3, s3))))))"

section \<open>Operations\<close>

text \<open>The activity count wraps as the source's atomic counter does; the watch channel holds the last value sent.\<close>

definition begin_activity :: "'w actor_host \<Rightarrow> 'w actor_host" where
  "begin_activity s = s\<lparr>ah_active := ah_active s + 1, ah_activity := ah_active s + 1\<rparr>"

definition finish_activity :: "'w actor_host \<Rightarrow> 'w actor_host" where
  "finish_activity s = s\<lparr>ah_active := ah_active s - 1, ah_activity := ah_active s - 1\<rparr>"

definition with_activity :: "('w actor_host \<Rightarrow> 'a \<times> 'w actor_host) \<Rightarrow> 'w actor_host \<Rightarrow> 'a \<times> 'w actor_host" where
  "with_activity f s = (case f (begin_activity s) of (x, s') \<Rightarrow> (x, finish_activity s'))"

definition validate_operation ::
    "'w host_env \<Rightarrow> actor_invocation \<Rightarrow> bool \<Rightarrow> 'w actor_host \<Rightarrow> actor_execution_result option result" where
  "validate_operation env invocation allowed_while_draining s =
     (if \<not> allowed_while_draining \<and> \<not> ah_accepting s then Inr (Some HostUnavailable)
      else and_then (invocation_validate invocation) (\<lambda>_.
           if namespace_id (inv_actor invocation) \<noteq> ah_namespace_id s
           then Inl (Bail ''actor invocation crossed the host namespace'')
           else if \<not> env_supports env (actor_type (inv_actor invocation))
           then Inr (Some (failed ''actor_error'' ''actor type is not loaded by this host''))
           else Inr None))"

definition outcome_unknown :: actor_execution_result where
  "outcome_unknown = Failed outcome_unknown_after_execution"

text \<open>The part of \<^verbatim>\<open>invoke_actor_once\<close> after the state is available.\<close>

definition run_invocation ::
    "'w host_env \<Rightarrow> actor_invocation \<Rightarrow> u64 \<Rightarrow> cached_actor_state \<Rightarrow> 'w actor_host
     \<Rightarrow> actor_execution_result \<times> 'w actor_host" where
  "run_invocation env invocation owner_epoch cached s =
     (let object = storage_key (inv_actor invocation) in
      case finish_pending_commit env invocation cached s of
        (Inl _, cached1, s1) \<Rightarrow> (outcome_unknown, store_cached_state object cached1 s1)
      | (Inr _, cached1, s1) \<Rightarrow>
          (case cached_replay cached1 (inv_request_id invocation) of
             Some res \<Rightarrow> (Completed res [], store_cached_state object cached1 s1)
           | None \<Rightarrow>
               (case execute_method env invocation (ca_state cached1) [] s1 of
                  (Inl failure, s2) \<Rightarrow> (failure, store_cached_state object cached1 s2)
                | (Inr (res, next_state, effects), s2) \<Rightarrow>
                    if ca_state cached1 = Some next_state
                    then (Completed res effects, store_cached_state object cached1 s2)
                    else (case publish_result_once env invocation owner_epoch cached1 res next_state s2 of
                            (Inl _, cached2, s3) \<Rightarrow>
                              (outcome_unknown, store_cached_state object cached2 (evict env (inv_actor invocation) s3))
                          | (Inr published, cached2, s3) \<Rightarrow>
                              ((case published of Completed r _ \<Rightarrow> Completed r effects | other \<Rightarrow> other),
                               store_cached_state object cached2 s3)))))"

definition invoke_actor_once ::
    "'w host_env \<Rightarrow> ('w actor_host \<Rightarrow> bool \<times> 'w actor_host) \<Rightarrow> actor_invocation \<Rightarrow> u64 \<Rightarrow> u64 \<Rightarrow> string \<Rightarrow> 'w actor_host
     \<Rightarrow> actor_execution_result result \<times> 'w actor_host" where
  "invoke_actor_once env wait invocation owner_epoch state_version state_read_url s =
     (case validate_operation env invocation False s of
        Inl e \<Rightarrow> (Inl e, s)
      | Inr (Some res) \<Rightarrow> (Inr res, s)
      | Inr None \<Rightarrow> with_activity (\<lambda>s0.
          case wait s0 of
            (False, s1) \<Rightarrow> (Inr HostUnavailable, s1)
          | (True, s1) \<Rightarrow>
              if \<not> ah_accepting s1 then (Inr HostUnavailable, s1)
              else (case take_or_load_state env (storage_key (inv_actor invocation)) owner_epoch state_version state_read_url s1 of
                      (Inl e, s2) \<Rightarrow> (Inl e, s2)
                    | (Inr cached, s2) \<Rightarrow>
                        (case run_invocation env invocation owner_epoch cached s2 of (res, s3) \<Rightarrow> (Inr res, s3)))) s)"

datatype actor_socket_execution_result =
    Handled "actor_socket_effect list"
  | SocketExecFailed actor_invocation_failure
  | SocketHostUnavailable

fun from_actor_result :: "actor_execution_result \<Rightarrow> actor_socket_execution_result" where
  "from_actor_result (Completed _ effects) = Handled effects"
| "from_actor_result (Failed failure) = SocketExecFailed failure"
| "from_actor_result Reroute = SocketHostUnavailable"
| "from_actor_result HostUnavailable = SocketHostUnavailable"

fun socket_event_name :: "actor_socket_event \<Rightarrow> string" where
  "socket_event_name (Connect _) = ''onConnect''"
| "socket_event_name (Message _ _) = ''onMessage''"
| "socket_event_name (Disconnect _ _ _ _) = ''onDisconnect''"

definition run_socket_event ::
    "'w host_env \<Rightarrow> actor_socket_invocation \<Rightarrow> actor_invocation \<Rightarrow> u64 \<Rightarrow> cached_actor_state \<Rightarrow> 'w actor_host
     \<Rightarrow> actor_socket_execution_result \<times> 'w actor_host" where
  "run_socket_event env invocation persistence owner_epoch cached s =
     (let object = storage_key (sock_actor invocation) in
      case finish_pending_commit env persistence cached s of
        (Inl _, cached1, s1) \<Rightarrow> (SocketExecFailed outcome_unknown_after_execution, store_cached_state object cached1 s1)
      | (Inr _, cached1, s1) \<Rightarrow>
          (case execute_socket_event env invocation (ca_state cached1) s1 of
             (Inl failure, s2) \<Rightarrow> (from_actor_result failure, store_cached_state object cached1 s2)
           | (Inr (next_state, effects), s2) \<Rightarrow>
               if ca_state cached1 = Some next_state
               then (Handled effects, store_cached_state object cached1 s2)
               else (case publish_result_once env persistence owner_epoch cached1 Null next_state s2 of
                       (Inl _, cached2, s3) \<Rightarrow>
                         (SocketExecFailed outcome_unknown_after_execution,
                          store_cached_state object cached2 (evict env (inv_actor persistence) s3))
                     | (Inr published, cached2, s3) \<Rightarrow>
                         ((case published of Completed _ _ \<Rightarrow> Handled effects | other \<Rightarrow> from_actor_result other),
                          store_cached_state object cached2 s3))))"

definition is_disconnect :: "actor_socket_event \<Rightarrow> bool" where
  "is_disconnect event = (case event of Disconnect _ _ _ _ \<Rightarrow> True | _ \<Rightarrow> False)"

definition handle_socket_event_once ::
    "'w host_env \<Rightarrow> ('w actor_host \<Rightarrow> bool \<times> 'w actor_host) \<Rightarrow> actor_socket_invocation \<Rightarrow> u64 \<Rightarrow> u64 \<Rightarrow> string
     \<Rightarrow> actor_invocation \<Rightarrow> 'w actor_host \<Rightarrow> actor_socket_execution_result result \<times> 'w actor_host" where
  "handle_socket_event_once env wait invocation owner_epoch state_version state_read_url persistence s =
     (let disconnecting = is_disconnect (sock_event invocation) in
      case validate_operation env persistence disconnecting s of
        Inl e \<Rightarrow> (Inl e, s)
      | Inr (Some res) \<Rightarrow> (Inr (from_actor_result res), s)
      | Inr None \<Rightarrow> with_activity (\<lambda>s0.
          case wait s0 of
            (False, s1) \<Rightarrow> (Inr SocketHostUnavailable, s1)
          | (True, s1) \<Rightarrow>
              if \<not> disconnecting \<and> \<not> ah_accepting s1 then (Inr SocketHostUnavailable, s1)
              else (case take_or_load_state env (storage_key (sock_actor invocation)) owner_epoch state_version state_read_url s1 of
                      (Inl e, s2) \<Rightarrow> (Inl e, s2)
                    | (Inr cached, s2) \<Rightarrow>
                        (case run_socket_event env invocation persistence owner_epoch cached s2 of (res, s3) \<Rightarrow> (Inr res, s3)))) s)"

definition handle_socket_event ::
    "'w host_env \<Rightarrow> ('w actor_host \<Rightarrow> bool \<times> 'w actor_host) \<Rightarrow> actor_socket_invocation \<Rightarrow> u64 \<Rightarrow> u64 \<Rightarrow> string
     \<Rightarrow> 'w actor_host \<Rightarrow> actor_socket_execution_result result \<times> 'w actor_host" where
  "handle_socket_event env wait invocation owner_epoch state_version state_read_url =
     handle_socket_event_once env wait invocation owner_epoch state_version state_read_url
       \<lparr>inv_request_id = sock_request_id invocation, inv_actor = sock_actor invocation,
        inv_method = socket_event_name (sock_event invocation), inv_args = []\<rparr>"

section \<open>The exits of the operations\<close>

text \<open>One rule per operation, with a case for each way it returns and the calls that led there.\<close>

lemma publish_build:
  assumes "and_then (ensure b msg) (\<lambda>_. and_then (snapshot_new codec v e rid next_state res) (\<lambda>snapshot.
      and_then (snapshot_encode codec snapshot) (\<lambda>bytes. Inr (snapshot, bytes)))) = Inr (snap, bytes)"
  shows "snapshot_encode codec snap = Inr bytes" "snap_state_version snap = v" "snap_request_id snap = rid"
    "snap_result snap = res" "snap_state snap = next_state"
  using assms by (auto simp: result_simps snapshot_new_Inr split: if_splits)

lemma publish_cases:
  assumes run: "publish_result_once env inv0 e c res next_state s = (r, c', s')"
  obtains (overflow) err where "r = Inl err" "c' = c" "s' = s"
    | (unticketed) err where "r = Inl err" "c' = c\<lparr>ca_next_write := None\<rparr>"
        "write_ticket_for env inv0 e (ca_state_version c + 1) c s = (Inl err, s')"
    | (unbuilt) err t where "r = Inl err" "c' = c\<lparr>ca_next_write := None\<rparr>"
        "write_ticket_for env inv0 e (ca_state_version c + 1) c s = (Inr t, s')"
    | (unwritten) err t bytes s1 w2 where "r = Inl err" "c' = c\<lparr>ca_next_write := None\<rparr>"
        "write_ticket_for env inv0 e (ca_state_version c + 1) c s = (Inr t, s1)"
        "env_write env (ticket_url t) bytes (ah_world s1) = (Inl err, w2)" "s' = s1\<lparr>ah_world := w2\<rparr>"
    | (finished) t snap bytes s1 w2 y rf where "r = and_then rf (\<lambda>_. Inr (Completed res []))" "ca_state_version c \<noteq> - 1"
        "write_ticket_for env inv0 e (ca_state_version c + 1) c s = (Inr t, s1)"
        "env_write env (ticket_url t) bytes (ah_world s1) = (Inr y, w2)"
        "finish_pending_commit env inv0 (c\<lparr>ca_next_write := None, ca_pending := Some \<lparr>pend_snapshot = snap, pend_ticket = t\<rparr>\<rparr>)
          (s1\<lparr>ah_world := w2\<rparr>) = (rf, c', s')"
        "snapshot_encode (env_codec env) snap = Inr bytes" "snap_state_version snap = ca_state_version c + 1"
        "snap_request_id snap = inv_request_id inv0" "snap_result snap = res" "snap_state snap = next_state"
proof (cases "ca_state_version c = - 1")
  case True
  then have "checked_add (ca_state_version c) 1 = None"
    using checked_add_one_Some [of "ca_state_version c"] by (cases "checked_add (ca_state_version c) 1") auto
  with run overflow show thesis by (auto simp: publish_result_once_def)
next
  case False
  let ?v = "ca_state_version c + 1"
  note unfold = publish_result_once_def Let_def on_world_def checked_add_one [OF False]
  obtain rt s1 where ticket: "write_ticket_for env inv0 e ?v c s = (rt, s1)" by fastforce
  show thesis
  proof (cases rt)
    case (Inl err)
    with run ticket unticketed show thesis by (auto simp: unfold)
  next
    case (Inr t)
    consider (bad) err where "and_then (ensure (ticket_state_version t = ?v) ''state write ticket has the wrong version'') (\<lambda>_.
      and_then (snapshot_new (env_codec env) ?v e (inv_request_id inv0) next_state res) (\<lambda>snapshot.
      and_then (snapshot_encode (env_codec env) snapshot) (\<lambda>bytes. Inr (snapshot, bytes)))) = Inl err"
      | (good) snap bytes where "and_then (ensure (ticket_state_version t = ?v) ''state write ticket has the wrong version'') (\<lambda>_.
      and_then (snapshot_new (env_codec env) ?v e (inv_request_id inv0) next_state res) (\<lambda>snapshot.
      and_then (snapshot_encode (env_codec env) snapshot) (\<lambda>bytes. Inr (snapshot, bytes)))) = Inr (snap, bytes)"
      by (rule result_pair_cases)
    then show thesis
    proof cases
      case bad
      with run ticket Inr unbuilt show thesis by (auto simp: unfold)
    next
      case good
      with run ticket Inr unwritten [of _ t s1 bytes] finished [OF _ False, of _ t s1 bytes _ _ snap, OF _ _ _ _ publish_build [OF good]] show thesis
        by (auto simp: unfold split: prod.splits sum.splits)
    qed
  qed
qed

lemma run_invocation_cases:
  assumes run: "run_invocation env inv0 e c s = (r, s')"
  obtains (unfinished) err c1 s1 where "finish_pending_commit env inv0 c s = (Inl err, c1, s1)" "r = outcome_unknown"
      "s' = store_cached_state (storage_key (inv_actor inv0)) c1 s1"
    | (replayed) c1 s1 res where "finish_pending_commit env inv0 c s = (Inr (), c1, s1)" "cached_replay c1 (inv_request_id inv0) = Some res"
        "r = Completed res []" "s' = store_cached_state (storage_key (inv_actor inv0)) c1 s1"
    | (unexecuted) c1 s1 s2 where "finish_pending_commit env inv0 c s = (Inr (), c1, s1)"
        "execute_method env inv0 (ca_state c1) [] s1 = (Inl r, s2)" "s' = store_cached_state (storage_key (inv_actor inv0)) c1 s2"
    | (unchanged) c1 s1 s2 res st effects where "finish_pending_commit env inv0 c s = (Inr (), c1, s1)"
        "execute_method env inv0 (ca_state c1) [] s1 = (Inr (res, st, effects), s2)" "ca_state c1 = Some st"
        "r = Completed res effects" "s' = store_cached_state (storage_key (inv_actor inv0)) c1 s2"
        "cached_replay c1 (inv_request_id inv0) = None"
    | (unpublished) c1 s1 s2 res st effects err c2 s3 where "finish_pending_commit env inv0 c s = (Inr (), c1, s1)"
        "execute_method env inv0 (ca_state c1) [] s1 = (Inr (res, st, effects), s2)"
        "publish_result_once env inv0 e c1 res st s2 = (Inl err, c2, s3)" "r = outcome_unknown"
        "s' = store_cached_state (storage_key (inv_actor inv0)) c2 (evict env (inv_actor inv0) s3)"
    | (published) c1 s1 s2 res st effects x c2 s3 where "finish_pending_commit env inv0 c s = (Inr (), c1, s1)"
        "execute_method env inv0 (ca_state c1) [] s1 = (Inr (res, st, effects), s2)" "ca_state c1 \<noteq> Some st"
        "publish_result_once env inv0 e c1 res st s2 = (Inr x, c2, s3)"
        "r = (case x of Completed r _ \<Rightarrow> Completed r effects | other \<Rightarrow> other)"
        "s' = store_cached_state (storage_key (inv_actor inv0)) c2 s3"
proof -
  obtain rf c1 s1 where finish: "finish_pending_commit env inv0 c s = (rf, c1, s1)" by (metis prod_cases3)
  show thesis
  proof (cases rf)
    case (Inl err)
    with run finish unfinished show thesis by (simp add: run_invocation_def)
  next
    case (Inr u)
    with run finish replayed unexecuted unchanged unpublished published show thesis
      by (auto simp: run_invocation_def Let_def split: prod.splits sum.splits option.splits if_splits)
  qed
qed

lemma run_socket_event_cases:
  assumes run: "run_socket_event env sinv inv0 e c s = (r, s')"
  obtains (unfinished) err c1 s1 where "finish_pending_commit env inv0 c s = (Inl err, c1, s1)"
      "r = SocketExecFailed outcome_unknown_after_execution" "s' = store_cached_state (storage_key (sock_actor sinv)) c1 s1"
    | (unexecuted) c1 s1 s2 failure where "finish_pending_commit env inv0 c s = (Inr (), c1, s1)"
        "execute_socket_event env sinv (ca_state c1) s1 = (Inl failure, s2)" "r = from_actor_result failure"
        "s' = store_cached_state (storage_key (sock_actor sinv)) c1 s2"
    | (unchanged) c1 s1 s2 st effects where "finish_pending_commit env inv0 c s = (Inr (), c1, s1)"
        "execute_socket_event env sinv (ca_state c1) s1 = (Inr (st, effects), s2)" "ca_state c1 = Some st"
        "r = Handled effects" "s' = store_cached_state (storage_key (sock_actor sinv)) c1 s2"
    | (unpublished) c1 s1 s2 st effects err c2 s3 where "finish_pending_commit env inv0 c s = (Inr (), c1, s1)"
        "execute_socket_event env sinv (ca_state c1) s1 = (Inr (st, effects), s2)"
        "publish_result_once env inv0 e c1 Null st s2 = (Inl err, c2, s3)" "r = SocketExecFailed outcome_unknown_after_execution"
        "s' = store_cached_state (storage_key (sock_actor sinv)) c2 (evict env (inv_actor inv0) s3)"
    | (published) c1 s1 s2 st effects x c2 s3 where "finish_pending_commit env inv0 c s = (Inr (), c1, s1)"
        "execute_socket_event env sinv (ca_state c1) s1 = (Inr (st, effects), s2)"
        "publish_result_once env inv0 e c1 Null st s2 = (Inr x, c2, s3)"
        "r = (case x of Completed _ _ \<Rightarrow> Handled effects | other \<Rightarrow> from_actor_result other)"
        "s' = store_cached_state (storage_key (sock_actor sinv)) c2 s3"
proof -
  obtain rf c1 s1 where finish: "finish_pending_commit env inv0 c s = (rf, c1, s1)" by (metis prod_cases3)
  show thesis
  proof (cases rf)
    case (Inl err)
    with run finish unfinished show thesis by (simp add: run_socket_event_def)
  next
    case (Inr u)
    with run finish unexecuted unchanged unpublished published show thesis
      by (auto simp: run_socket_event_def Let_def split: prod.splits sum.splits option.splits if_splits)
  qed
qed

section \<open>The commit authority\<close>

text \<open>
  \<open>objects\<close>: the immutable objects, by name. An object holds a snapshot if it is the snapshot's encoding, or decodes
  to it: the two agree for the values that \<^verbatim>\<open>serde_json\<close> reads back as it wrote them, which excludes very deep
  nesting and some floating-point numbers. A cache entry is backed when its state, its last
  request and its last result are those of a stored snapshot of its version (or it is at version 0
  and empty), its spare ticket is unused, and its pending snapshot is stored under its ticket's name
  and follows its version.
\<close>

definition holds_snapshot :: "snapshot_codec \<Rightarrow> (string \<rightharpoonup> string) \<Rightarrow> string \<Rightarrow> state_snapshot \<Rightarrow> bool" where
  "holds_snapshot codec objects name snap \<longleftrightarrow>
     (\<exists>bytes. objects name = Some bytes \<and> (snapshot_encode codec snap = Inr bytes \<or> snapshot_decode codec bytes = Inr snap))"

definition shows_snapshot :: "cached_actor_state \<Rightarrow> state_snapshot \<Rightarrow> bool" where
  "shows_snapshot c snap \<longleftrightarrow> ca_state_version c = snap_state_version snap \<and> ca_state c = Some (snap_state snap) \<and>
     ca_last_request_id c = Some (snap_request_id snap) \<and> ca_last_result c = Some (snap_result snap)"

definition cache_backed ::
    "snapshot_codec \<Rightarrow> (state_write_ticket \<Rightarrow> bool) \<Rightarrow> (string \<rightharpoonup> string) \<Rightarrow> cached_actor_state \<Rightarrow> bool" where
  "cache_backed codec usable objects c \<longleftrightarrow>
     ((ca_state_version c = 0 \<and> ca_state c = None \<and> ca_last_request_id c = None \<and> ca_last_result c = None)
      \<or> (\<exists>name snap. holds_snapshot codec objects name snap \<and> shows_snapshot c snap)) \<and>
     (\<forall>t. ca_next_write c = Some t \<longrightarrow> usable t) \<and>
     (\<forall>p. ca_pending c = Some p \<longrightarrow> holds_snapshot codec objects (ticket_object_name (pend_ticket p)) (pend_snapshot p) \<and>
        ca_state_version c \<noteq> - 1 \<and> snap_state_version (pend_snapshot p) = ca_state_version c + 1)"

text \<open>
  A published result: the actor's head names a stored snapshot of this request, this result and the
  next state, which the cache shows.
\<close>

definition published_head ::
    "snapshot_codec \<Rightarrow> (string \<rightharpoonup> string) \<Rightarrow> (u64 \<times> string \<times> string) option \<Rightarrow> actor_invocation \<Rightarrow> json \<Rightarrow> json
     \<Rightarrow> cached_actor_state \<Rightarrow> bool" where
  "published_head codec objs hv inv0 res next_state c \<longleftrightarrow> (\<exists>name snap.
     hv = Some (ca_state_version c, name, inv_request_id inv0) \<and>
     holds_snapshot codec objs name snap \<and> shows_snapshot c snap \<and>
     snap_request_id snap = inv_request_id inv0 \<and> snap_result snap = res \<and> snap_state snap = next_state)"

text \<open>
  What stands behind an answer, from the entry \<open>c0\<close> the call started with and the entry \<open>c\<close> it leaves: a stored snapshot that
  \<open>c0\<close> showed before the call and that records this request and this result; or the pending snapshot of \<open>c0\<close> that
  records them, which is now the head; or a run of the executor on this request and the state \<open>c0\<close> holds, which either kept the state, and that
  state is the one of a stored snapshot, or was published.
\<close>

definition held_state :: "cached_actor_state \<Rightarrow> json option" where
  "held_state c = (case ca_pending c of None \<Rightarrow> ca_state c | Some p \<Rightarrow> Some (snap_state (pend_snapshot p)))"

definition justified_result ::
    "'w host_env \<Rightarrow> (string \<rightharpoonup> string) \<Rightarrow> (u64 \<times> string \<times> string) option \<Rightarrow> actor_invocation \<Rightarrow> json
     \<Rightarrow> actor_socket_effect list \<Rightarrow> cached_actor_state \<Rightarrow> cached_actor_state \<Rightarrow> bool" where
  "justified_result env objs hv inv0 res effects c0 c \<longleftrightarrow>
     (effects = [] \<and> ca_pending c0 = None \<and> (\<exists>name snap. holds_snapshot (env_codec env) objs name snap \<and> shows_snapshot c0 snap \<and>
        snap_request_id snap = inv_request_id inv0 \<and> snap_result snap = res)) \<or>
     (effects = [] \<and> (\<exists>p. ca_pending c0 = Some p \<and>
        hv = Some (snap_state_version (pend_snapshot p), ticket_object_name (pend_ticket p), inv_request_id inv0) \<and>
        holds_snapshot (env_codec env) objs (ticket_object_name (pend_ticket p)) (pend_snapshot p) \<and> shows_snapshot c (pend_snapshot p) \<and>
        snap_request_id (pend_snapshot p) = inv_request_id inv0 \<and> snap_result (pend_snapshot p) = res)) \<or>
     (\<exists>m w1 st. fst (env_invoke env m w1) = Inr (MethodCompleted res st effects) \<and> meth_request_id m = inv_request_id inv0 \<and>
        meth_actor m = inv_actor inv0 \<and> meth_method m = inv_method inv0 \<and> meth_args m = inv_args inv0 \<and>
        meth_state m = held_state c0 \<and>
        (if held_state c0 = Some st
         then \<exists>name snap. holds_snapshot (env_codec env) objs name snap \<and> shows_snapshot c snap \<and> snap_state snap = st
         else published_head (env_codec env) objs hv inv0 res st c))"

text \<open>
  What the host relies on. \<open>committed\<close> gives the version, object and request of an actor's
  committed head, \<open>usable\<close> tells that a ticket's URL writes the object it names and that no object
  has that name yet, \<open>sound\<close> is the invariant of the world. A commit that succeeds makes the named
  object the head; new tickets name unused objects (their names carry a random nonce); a PUT with a
  usable ticket stores the bytes or fails and never changes another object; nothing else touches
  heads or objects, and usable tickets stay usable until a PUT.
\<close>

definition frame ::
    "('w \<Rightarrow> bool) \<Rightarrow> ('w \<Rightarrow> string \<rightharpoonup> string) \<Rightarrow> ('w \<Rightarrow> state_write_ticket \<Rightarrow> bool) \<Rightarrow> 'w \<Rightarrow> 'w \<Rightarrow> bool" where
  "frame sound objects usable w w' \<longleftrightarrow> sound w' \<and> objects w' = objects w \<and> (\<forall>t. usable w t \<longrightarrow> usable w' t)"

locale state_authority =
  fixes env :: "'w host_env"
    and sound :: "'w \<Rightarrow> bool"
    and committed :: "'w \<Rightarrow> actor_storage_key \<Rightarrow> (u64 \<times> string \<times> string) option"
    and objects :: "'w \<Rightarrow> string \<rightharpoonup> string"
    and usable :: "'w \<Rightarrow> state_write_ticket \<Rightarrow> bool"
  assumes commit_frame: "sound w \<Longrightarrow> env_commit_state env a h e v name req w = (rc, w') \<Longrightarrow> frame sound objects usable w w'"
    and commit_head: "sound w \<Longrightarrow> env_commit_state env a h e v name req w = (Inr c, w') \<Longrightarrow>
          committed w' (storage_key a) = Some (com_state_version c, name, req)"
    and commit_ticket: "sound w \<Longrightarrow> env_commit_state env a h e v name req w = (Inr c, w') \<Longrightarrow> com_next_write c = Some t \<Longrightarrow> usable w' t"
    and prepare_frame: "sound w \<Longrightarrow> env_prepare_state_write env a h e v w = (rt, w') \<Longrightarrow> frame sound objects usable w w'"
    and prepare_ticket: "sound w \<Longrightarrow> env_prepare_state_write env a h e v w = (Inr t, w') \<Longrightarrow> usable w' t"
    and write_frame: "sound w \<Longrightarrow> usable w t \<Longrightarrow> env_write env (ticket_url t) bytes w = (rw, w') \<Longrightarrow>
          sound w' \<and> committed w' = committed w \<and> objects w (ticket_object_name t) = None \<and>
          (objects w' = objects w \<and> (\<forall>x. rw \<noteq> Inr x) \<or> objects w' = (objects w)(ticket_object_name t \<mapsto> bytes))"
    and read_object: "sound w \<Longrightarrow> env_read env url w = (Inr bytes, w') \<Longrightarrow> \<exists>name. objects w name = Some bytes"
    and read_frame: "sound w \<Longrightarrow> env_read env url w = (rb, w') \<Longrightarrow> frame sound objects usable w w' \<and> committed w' = committed w"
    and invoke_frame: "sound w \<Longrightarrow> env_invoke env m w = (ro, w') \<Longrightarrow> frame sound objects usable w w' \<and> committed w' = committed w"
    and socket_frame: "sound w \<Longrightarrow> env_handle_socket env m' w = (rs, w') \<Longrightarrow> frame sound objects usable w w' \<and> committed w' = committed w"
    and evict_frame: "sound w \<Longrightarrow> env_evict env a w = (ru, w') \<Longrightarrow> frame sound objects usable w w' \<and> committed w' = committed w"
begin

abbreviation (input) backed :: "'w \<Rightarrow> cached_actor_state \<Rightarrow> bool" where
  "backed w c \<equiv> sound w \<and> cache_backed (env_codec env) (usable w) (objects w) c"

abbreviation (input) kept :: "'w \<Rightarrow> 'w \<Rightarrow> bool" where
  "kept \<equiv> frame sound objects usable"

lemma kept_refl: "sound w \<Longrightarrow> kept w w"
  by (simp add: frame_def)

lemma kept_trans: "kept w1 w2 \<Longrightarrow> kept w2 w3 \<Longrightarrow> kept w1 w3"
  by (simp add: frame_def)

lemma kept_backed: "kept w w' \<Longrightarrow> backed w c \<Longrightarrow> backed w' c"
  by (auto simp: frame_def cache_backed_def)

lemma kept_objects: "kept w w' \<Longrightarrow> objects w' = objects w"
  by (simp add: frame_def)

lemma kept_sound: "kept w w' \<Longrightarrow> sound w'"
  by (simp add: frame_def)

lemmas kept_facts = kept_backed kept_objects kept_sound

lemma on_world_cases: "on_world f s = (x, s') \<longleftrightarrow> (\<exists>w'. f (ah_world s) = (x, w') \<and> s' = s\<lparr>ah_world := w'\<rparr>)"
  by (auto simp: on_world_def split: prod.splits)

lemma backed_committed:
  assumes "holds_snapshot (env_codec env) objs name snap" "\<And>t. nw = Some t \<Longrightarrow> P t"
  shows "cache_backed (env_codec env) P objs (c\<lparr>ca_pending := None, ca_state_version := snap_state_version snap,
    ca_state := Some (snap_state snap), ca_last_request_id := Some (snap_request_id snap),
    ca_last_result := Some (snap_result snap), ca_next_write := nw\<rparr>)"
  unfolding cache_backed_def using assms by (auto simp: shows_snapshot_def)

lemma finish_pending_commit_spec:
  assumes "backed (ah_world s) c" "finish_pending_commit env inv0 c s = (r, c', s')"
  shows "backed (ah_world s') c' \<and> ca_owner_epoch c' = ca_owner_epoch c \<and> ah_cached_state s' = ah_cached_state s \<and>
    objects (ah_world s') = objects (ah_world s) \<and>
    (\<forall>u. r = Inr u \<longrightarrow> ca_pending c' = None \<and>
      (case ca_pending c of
         None \<Rightarrow> c' = c \<and> s' = s
       | Some p \<Rightarrow> shows_snapshot c' (pend_snapshot p) \<and>
           committed (ah_world s') (storage_key (inv_actor inv0)) =
             Some (snap_state_version (pend_snapshot p), ticket_object_name (pend_ticket p), snap_request_id (pend_snapshot p))))"
proof (cases "ca_pending c")
  case None
  with assms show ?thesis by (auto simp: finish_pending_commit_def)
next
  case (Some p)
  let ?commit = "env_commit_state env (inv_actor inv0) (endpoint_id (ah_endpoint s)) (ca_owner_epoch c) (ca_state_version c)
    (ticket_object_name (pend_ticket p)) (snap_request_id (pend_snapshot p)) (ah_world s)"
  obtain rc w' where commit: "?commit = (rc, w')" by fastforce
  have sound: "sound (ah_world s)" using assms(1) ..
  note kept = commit_frame [OF sound commit]
  note objs = kept_objects [OF kept] and bc = kept_backed [OF kept assms(1)]
  show ?thesis
  proof (cases rc)
    case (Inl e)
    with assms Some commit objs bc show ?thesis by (auto simp: finish_pending_commit_def on_world_def)
  next
    case (Inr cm)
    note head = commit_head [OF sound commit [unfolded Inr]] and ticket = commit_ticket [OF sound commit [unfolded Inr]]
    have "holds_snapshot (env_codec env) (objects w') (ticket_object_name (pend_ticket p)) (pend_snapshot p)"
      using bc Some by (simp add: cache_backed_def)
    from backed_committed [OF this ticket] have "cache_backed (env_codec env) (usable w') (objects w') (c\<lparr>ca_pending := None,
        ca_state_version := snap_state_version (pend_snapshot p), ca_state := Some (snap_state (pend_snapshot p)),
        ca_last_request_id := Some (snap_request_id (pend_snapshot p)), ca_last_result := Some (snap_result (pend_snapshot p)),
        ca_next_write := com_next_write cm\<rparr>)" by simp
    with assms Some commit objs bc Inr head show ?thesis
      by (cases "com_state_version cm = snap_state_version (pend_snapshot p)")
        (simp_all add: finish_pending_commit_def on_world_def, auto simp: shows_snapshot_def)
  qed
qed

lemma holds_snapshot_upd:
  "objects w n = None \<Longrightarrow> holds_snapshot (env_codec env) (objects w) name snap \<Longrightarrow>
   holds_snapshot (env_codec env) ((objects w)(n \<mapsto> bytes)) name snap"
  by (auto simp: holds_snapshot_def)

lemma backed_no_ticket: "backed w c \<Longrightarrow> backed w (c\<lparr>ca_next_write := None\<rparr>)"
  by (auto simp: cache_backed_def shows_snapshot_def)

lemma backed_upd:
  "cache_backed (env_codec env) P (objects w) c \<Longrightarrow> ca_next_write c = None \<Longrightarrow> objects w n = None \<Longrightarrow>
   cache_backed (env_codec env) Q ((objects w)(n \<mapsto> bytes)) c"
  by (auto simp: cache_backed_def intro: holds_snapshot_upd)

lemma backed_no_next:
  "cache_backed (env_codec env) P objs c \<Longrightarrow> ca_next_write c = None \<Longrightarrow> cache_backed (env_codec env) Q objs c"
  by (auto simp: cache_backed_def)

lemma write_ticket_kept:
  assumes "sound (ah_world s)" "write_ticket_for env inv0 e v c s = (r, s')"
  shows "kept (ah_world s) (ah_world s')" "ah_cached_state s' = ah_cached_state s"
  using assms prepare_frame [OF assms(1)] kept_refl [OF assms(1)]
  by (auto simp: write_ticket_for_def Let_def on_world_def split: option.splits if_splits sum.splits prod.splits)

lemma write_ticket_usable:
  assumes "backed (ah_world s) c" "write_ticket_for env inv0 e v c s = (Inr t, s')"
  shows "usable (ah_world s') t"
  using assms prepare_ticket
  by (auto simp: write_ticket_for_def Let_def on_world_def cache_backed_def split: option.splits if_splits sum.splits prod.splits)

lemma encode_holds:
  "snapshot_encode (env_codec env) snap = Inr bytes \<Longrightarrow> objects w name = Some bytes \<Longrightarrow>
   holds_snapshot (env_codec env) (objects w) name snap"
  by (auto simp: holds_snapshot_def)

abbreviation (input) published :: "'w \<Rightarrow> actor_invocation \<Rightarrow> json \<Rightarrow> json \<Rightarrow> cached_actor_state \<Rightarrow> bool" where
  "published w inv0 \<equiv> published_head (env_codec env) (objects w) (committed w (storage_key (inv_actor inv0))) inv0"

text \<open>Once the snapshot is stored under an unused name, finishing the commit keeps the entry backed.\<close>

lemma publish_stored:
  assumes c: "backed w c" "ca_pending c = None" "ca_next_write c = None" "ca_state_version c \<noteq> - 1"
    and t: "objects w (ticket_object_name t) = None"
    and snap: "snapshot_encode (env_codec env) snap = Inr bytes" "snap_state_version snap = ca_state_version c + 1"
    and stored: "sound (ah_world s)" "objects (ah_world s) = (objects w)(ticket_object_name t \<mapsto> bytes)"
    and finish: "finish_pending_commit env inv0 (c\<lparr>ca_pending := Some \<lparr>pend_snapshot = snap, pend_ticket = t\<rparr>\<rparr>) s = (rf, c', s')"
  shows "backed (ah_world s') c' \<and> ca_owner_epoch c' = ca_owner_epoch c \<and> ah_cached_state s' = ah_cached_state s \<and>
    (\<forall>u. rf = Inr u \<longrightarrow> ca_pending c' = None \<and> shows_snapshot c' snap \<and>
      holds_snapshot (env_codec env) (objects (ah_world s')) (ticket_object_name t) snap \<and>
      committed (ah_world s') (storage_key (inv_actor inv0)) = Some (ca_state_version c', ticket_object_name t, snap_request_id snap))"
proof -
  let ?c2 = "c\<lparr>ca_pending := Some \<lparr>pend_snapshot = snap, pend_ticket = t\<rparr>\<rparr>"
  have holds: "holds_snapshot (env_codec env) (objects (ah_world s)) (ticket_object_name t) snap"
    using snap(1) stored(2) by (intro encode_holds) simp_all
  have "backed (ah_world s) c" using stored c(1,3) t backed_upd [of "usable w" w c "ticket_object_name t"] by simp
  then have "backed (ah_world s) ?c2" using holds c(4) snap(2) by (auto simp: cache_backed_def shows_snapshot_def)
  from finish_pending_commit_spec [OF this finish] holds show ?thesis by (auto simp: shows_snapshot_def)
qed

lemma publish_spec:
  assumes c: "backed (ah_world s) c" "ca_pending c = None"
    and run: "publish_result_once env inv0 e c res next_state s = (r, c', s')"
  shows "backed (ah_world s') c' \<and> ca_owner_epoch c' = ca_owner_epoch c \<and> ah_cached_state s' = ah_cached_state s \<and>
    (\<forall>x. r = Inr x \<longrightarrow> x = Completed res [] \<and> ca_pending c' = None \<and> published (ah_world s') inv0 res next_state c')"
proof -
  have sound: "sound (ah_world s)" using c(1) ..
  have c1: "backed (ah_world s1) (c\<lparr>ca_next_write := None\<rparr>)" "kept (ah_world s) (ah_world s1)" "ah_cached_state s1 = ah_cached_state s"
    if "write_ticket_for env inv0 e v c s = (rt, s1)" for rt s1 v
    using write_ticket_kept [OF sound that] kept_backed backed_no_ticket [OF c(1)] by auto
  note wf = write_frame [OF kept_sound [OF c1(2)] write_ticket_usable [OF c(1)]]
  from run show ?thesis
  proof (cases rule: publish_cases)
    case (unwritten err t bytes s1 w2)
    have "backed w2 (c\<lparr>ca_next_write := None\<rparr>)"
      using wf [OF unwritten(3,3,4)] c1(1) [OF unwritten(3)] backed_upd [of "usable (ah_world s1)" "ah_world s1" _ "ticket_object_name t"]
        backed_no_next [of "usable (ah_world s1)" _ "c\<lparr>ca_next_write := None\<rparr>"] by auto
    with unwritten c1(3) [OF unwritten(3)] show ?thesis by auto
  next
    case (finished t snap bytes s1 w2 y rf)
    have "sound w2" "objects w2 = (objects (ah_world s1))(ticket_object_name t \<mapsto> bytes)" "objects (ah_world s1) (ticket_object_name t) = None"
      using wf [OF finished(3,3,4)] by auto
    with publish_stored [OF c1(1) [OF finished(3)] _ _ _ _ finished(6) _ _ _ finished(5)] c(2) finished c1(3) [OF finished(3)] show ?thesis
      by (auto simp: published_head_def and_then_eq_Inr)
  qed (use c c1 in auto)
qed

lemma evict_kept:
  assumes "sound (ah_world s)"
  shows "kept (ah_world s) (ah_world (evict env a s))" "committed (ah_world (evict env a s)) = committed (ah_world s)"
    "ah_cached_state (evict env a s) = ah_cached_state s"
  using assms evict_frame [of "ah_world s" a] by (auto simp: evict_def on_world_def split: prod.splits)

lemma execute_method_spec:
  assumes "sound (ah_world s)" "execute_method env inv0 state conns s = (r, s')"
  shows "kept (ah_world s) (ah_world s') \<and> committed (ah_world s') = committed (ah_world s) \<and>
    ah_cached_state s' = ah_cached_state s \<and> (\<forall>f. r = Inl f \<longrightarrow> (\<exists>code msg. f = failed code msg)) \<and>
    (\<forall>res st eff. r = Inr (res, st, eff) \<longrightarrow> fst (env_invoke env
       \<lparr>meth_request_id = inv_request_id inv0, meth_actor = inv_actor inv0, meth_method = inv_method inv0,
        meth_args = inv_args inv0, meth_state = state, meth_connections = conns\<rparr> (ah_world s)) = Inr (MethodCompleted res st eff))"
proof -
  let ?m = "\<lparr>meth_request_id = inv_request_id inv0, meth_actor = inv_actor inv0, meth_method = inv_method inv0,
        meth_args = inv_args inv0, meth_state = state, meth_connections = conns\<rparr>"
  obtain ro w1 where call: "env_invoke env ?m (ah_world s) = (ro, w1)" by fastforce
  note kept1 = invoke_frame [OF assms(1) call]
  have sound1: "sound (ah_world (s\<lparr>ah_world := w1\<rparr>))" using kept1 kept_sound [of "ah_world s" w1] by simp
  note ev = evict_kept [OF sound1, of "inv_actor inv0"]
  have "kept (ah_world s) (ah_world (evict env (inv_actor inv0) (s\<lparr>ah_world := w1\<rparr>)))"
    using kept_trans [of "ah_world s" w1] kept1 ev(1) by simp
  then show ?thesis
    using assms call kept1 ev(2,3)
    by (cases ro; cases "projr ro")
      (auto simp: execute_method_def on_world_def split: sum.splits)
qed

lemma execute_socket_spec:
  assumes "sound (ah_world s)" "execute_socket_event env sinv state s = (r, s')"
  shows "kept (ah_world s) (ah_world s') \<and> committed (ah_world s') = committed (ah_world s) \<and>
    ah_cached_state s' = ah_cached_state s \<and> (\<forall>f. r = Inl f \<longrightarrow> (\<exists>code msg. f = failed code msg)) \<and>
    (\<forall>st eff. r = Inr (st, eff) \<longrightarrow> fst (env_handle_socket env (sinv\<lparr>sock_state := state\<rparr>) (ah_world s)) = Inr (SocketHandled st eff))"
proof -
  obtain ro w1 where call: "env_handle_socket env (sinv\<lparr>sock_state := state\<rparr>) (ah_world s) = (ro, w1)" by fastforce
  note kept1 = socket_frame [OF assms(1) call]
  have sound1: "sound (ah_world (s\<lparr>ah_world := w1\<rparr>))" using kept1 kept_sound [of "ah_world s" w1] by simp
  note ev = evict_kept [OF sound1, of "sock_actor sinv"]
  have "kept (ah_world s) (ah_world (evict env (sock_actor sinv) (s\<lparr>ah_world := w1\<rparr>)))"
    using kept_trans [of "ah_world s" w1] kept1 ev(1) by simp
  then show ?thesis
    using assms call kept1 ev(2,3)
    by (cases ro; cases "projr ro")
      (auto simp: execute_socket_event_def on_world_def split: sum.splits)
qed

abbreviation (input) justified ::
    "'w \<Rightarrow> actor_invocation \<Rightarrow> json \<Rightarrow> actor_socket_effect list \<Rightarrow> cached_actor_state \<Rightarrow> cached_actor_state \<Rightarrow> bool" where
  "justified w inv0 \<equiv> justified_result env (objects w) (committed w (storage_key (inv_actor inv0))) inv0"

lemma finished_backed:
  assumes "backed (ah_world s) c" "finish_pending_commit env inv0 c s = (Inr (), c1, s1)" "kept (ah_world s1) (ah_world s2)"
  shows "backed (ah_world s2) c1 \<and> ca_pending c1 = None \<and> objects (ah_world s2) = objects (ah_world s1)"
  using finish_pending_commit_spec [OF assms(1,2)] kept_backed [OF assms(3)] kept_objects [OF assms(3)] by auto

lemma backed_state: "backed w c \<Longrightarrow> ca_state c = Some st \<Longrightarrow>
    \<exists>name snap. holds_snapshot (env_codec env) (objects w) name snap \<and> shows_snapshot c snap \<and> snap_state snap = st"
  by (auto simp: cache_backed_def shows_snapshot_def)

lemma replay_justified:
  assumes c: "backed (ah_world s) c" and fin: "finish_pending_commit env inv0 c s = (Inr (), c1, s1)"
    and replay: "cached_replay c1 (inv_request_id inv0) = Some res"
  shows "justified (ah_world s1) inv0 res [] c c1"
proof -
  note spec = finish_pending_commit_spec [OF c fin]
  have last: "ca_last_request_id c1 = Some (inv_request_id inv0)" "ca_last_result c1 = Some res"
    using replay by (auto simp: cached_replay_def split: if_splits)
  show ?thesis
  proof (cases "ca_pending c")
    case None
    then have "c1 = c" "s1 = s" using spec by auto
    moreover obtain name snap where "holds_snapshot (env_codec env) (objects (ah_world s)) name snap" "shows_snapshot c snap"
      using c last \<open>c1 = c\<close> by (auto simp: cache_backed_def)
    moreover from this have "snap_request_id snap = inv_request_id inv0" "snap_result snap = res"
      using last \<open>c1 = c\<close> by (simp_all add: shows_snapshot_def)
    ultimately show ?thesis unfolding justified_result_def using None by blast
  next
    case (Some p)
    with spec c have "holds_snapshot (env_codec env) (objects (ah_world s1)) (ticket_object_name (pend_ticket p)) (pend_snapshot p)"
      by (auto simp: cache_backed_def)
    with Some spec last show ?thesis by (auto simp: justified_result_def shows_snapshot_def)
  qed
qed

lemma executed_justified:
  assumes "fst (env_invoke env \<lparr>meth_request_id = inv_request_id inv0, meth_actor = inv_actor inv0, meth_method = inv_method inv0,
      meth_args = inv_args inv0, meth_state = state, meth_connections = conns\<rparr> w1) = Inr (MethodCompleted res st effects)" "state = held_state c0"
    and "if state = Some st then \<exists>name snap. holds_snapshot (env_codec env) (objects w) name snap \<and> shows_snapshot c snap \<and> snap_state snap = st
      else published w inv0 res st c"
  shows "justified w inv0 res effects c0 c"
  using assms unfolding justified_result_def by (intro disjI2 exI conjI) (assumption | simp)+

text \<open>A failed publication evicts the actor from the executor; the entry stays backed.\<close>

lemma publish_evicted:
  assumes "backed (ah_world s) c" "ca_pending c = None" "publish_result_once env inv0 e c res st s = (Inl err, c', s')"
  shows "backed (ah_world (evict env a s')) c' \<and> ca_owner_epoch c' = ca_owner_epoch c \<and> ah_cached_state (evict env a s') = ah_cached_state s"
proof -
  note published = publish_spec [OF assms]
  then have "sound (ah_world s')" by simp
  note ev = evict_kept(1,3) [OF this, of a]
  from kept_backed [OF ev(1)] ev(2) published show ?thesis by auto
qed

lemma run_invocation_spec:
  assumes c: "backed (ah_world s) c" and run: "run_invocation env inv0 e c s = (r, s')"
  shows "\<exists>c'. ah_cached_state s' = (ah_cached_state s)(storage_key (inv_actor inv0) \<mapsto> c') \<and> backed (ah_world s') c' \<and>
    ca_owner_epoch c' = ca_owner_epoch c \<and>
    (\<forall>res effects. r = Completed res effects \<longrightarrow> ca_pending c' = None \<and> justified (ah_world s') inv0 res effects c c') \<and>
    (ca_pending c = None \<longrightarrow> (\<forall>res effects. r \<noteq> Completed res effects) \<longrightarrow> r \<noteq> outcome_unknown \<longrightarrow>
      c' = c \<and> committed (ah_world s') = committed (ah_world s) \<and> objects (ah_world s') = objects (ah_world s))"
proof -
  note fin = finish_pending_commit_spec [OF c]
  have executed: "backed (ah_world s2) c1" "ca_pending c1 = None" "objects (ah_world s2) = objects (ah_world s1)"
      "ah_cached_state s2 = ah_cached_state s1"
    if "finish_pending_commit env inv0 c s = (Inr (), c1, s1)" "execute_method env inv0 (ca_state c1) [] s1 = (rx, s2)" for c1 s1 s2 rx
    using finished_backed [OF c that(1), of s2] fin [OF that(1)] execute_method_spec [OF _ that(2)] by auto
  have held: "ca_state c1 = held_state c" if "finish_pending_commit env inv0 c s = (Inr (), c1, s1)" for c1 s1
    using fin [OF that] by (auto simp: held_state_def shows_snapshot_def split: option.splits)
  have ran: "fst (env_invoke env \<lparr>meth_request_id = inv_request_id inv0, meth_actor = inv_actor inv0, meth_method = inv_method inv0,
      meth_args = inv_args inv0, meth_state = ca_state c1, meth_connections = []\<rparr> (ah_world s1)) = Inr (MethodCompleted res st effects)"
    if "finish_pending_commit env inv0 c s = (Inr (), c1, s1)" "execute_method env inv0 (ca_state c1) [] s1 = (Inr (res, st, effects), s2)"
    for c1 s1 s2 res st effects
    using fin [OF that(1)] execute_method_spec [OF _ that(2)] by auto
  from run show ?thesis
  proof (cases rule: run_invocation_cases)
    case (unfinished err c1 s1)
    with fin [OF unfinished(1)] show ?thesis by (auto simp: store_cached_state_def outcome_unknown_def)
  next
    case (replayed c1 s1 res)
    have "justified (ah_world s1) inv0 res [] c c1" by (rule replay_justified [OF c replayed(1,2)])
    with replayed fin [OF replayed(1)] show ?thesis by (auto simp: store_cached_state_def)
  next
    case (unexecuted c1 s1 s2)
    with fin [OF unexecuted(1)] executed [OF unexecuted(1,2)] execute_method_spec [OF _ unexecuted(2)] show ?thesis
      by (auto simp: store_cached_state_def failed_def)
  next
    case (unchanged c1 s1 s2 res st effects)
    note done1 = executed [OF unchanged(1,2)]
    have "justified (ah_world s2) inv0 res effects c c1"
      by (rule executed_justified [OF ran [OF unchanged(1,2)] held [OF unchanged(1)]]) (use backed_state [OF done1(1) unchanged(3)] unchanged(3) in simp)
    with unchanged fin [OF unchanged(1)] done1 show ?thesis by (auto simp: store_cached_state_def)
  next
    case (unpublished c1 s1 s2 res st effects err c2 s3)
    note done1 = executed [OF unpublished(1,2)]
    with fin [OF unpublished(1)] unpublished publish_evicted [OF done1(1,2) unpublished(3), of "inv_actor inv0"] show ?thesis
      by (auto simp: store_cached_state_def outcome_unknown_def)
  next
    case (published c1 s1 s2 res st effects x c2 s3)
    note done1 = executed [OF published(1,2)] and pub = publish_spec [OF executed(1,2) [OF published(1,2)] published(4)]
    have "justified (ah_world s3) inv0 res effects c c2"
      by (rule executed_justified [OF ran [OF published(1,2)] held [OF published(1)]]) (use published(3) pub in simp)
    with fin [OF published(1)] published done1 pub show ?thesis by (auto simp: store_cached_state_def)
  qed
qed

lemma load_backed:
  "cached_from_loaded (env_codec env) e v bytes = Inr c \<Longrightarrow> objects w name = Some bytes \<Longrightarrow> sound w \<Longrightarrow>
   backed w c \<and> ca_owner_epoch c = e \<and> ca_pending c = None"
  by (auto simp: cached_from_loaded_def result_simps cache_backed_def holds_snapshot_def shows_snapshot_def
      intro!: exI [of _ name] split: if_splits)

lemma new_backed: "sound w \<Longrightarrow> backed w (cached_new e)"
  by (simp add: cached_new_def cache_backed_def)

lemma take_or_load_spec:
  assumes sound: "sound (ah_world s)" and entry: "\<And>c. ah_cached_state s k = Some c \<Longrightarrow> backed (ah_world s) c"
    and run: "take_or_load_state env k e v url s = (Inr c, s')"
  shows "backed (ah_world s') c \<and> ca_owner_epoch c = e"
proof -
  have fresh: "backed (ah_world s') c \<and> ca_owner_epoch c = e"
    if "\<not> (\<exists>c0. ah_cached_state s k = Some c0 \<and> ca_owner_epoch c0 = e)"
  proof (cases "v = 0")
    case True
    with that run have "c = cached_new e" "ah_world s' = ah_world s"
      by (auto simp: take_or_load_state_def take_cached_state_def Let_def result_simps split: option.splits if_splits)
    then show ?thesis using sound new_backed [of "ah_world s" e] by (simp add: cached_new_def)
  next
    case False
    let ?s1 = "s\<lparr>ah_cached_state := (ah_cached_state s)(k := None)\<rparr>"
    obtain rb w1 where read: "env_read env url (ah_world s) = (rb, w1)" by fastforce
    with that False run obtain bytes where b: "rb = Inr bytes" "cached_from_loaded (env_codec env) e v bytes = Inr c"
      and s': "s' = ?s1\<lparr>ah_world := w1\<rparr>"
      by (auto simp: take_or_load_state_def take_cached_state_def Let_def on_world_def result_simps
          split: option.splits if_splits)
    obtain name where "objects (ah_world s) name = Some bytes" using read_object [OF sound] read b by blast
    then show ?thesis using load_backed [OF b(2), of w1] read_frame [OF sound read] kept_facts(2,3) [of "ah_world s" w1] s' by auto
  qed
  show ?thesis
  proof (cases "\<exists>c0. ah_cached_state s k = Some c0 \<and> ca_owner_epoch c0 = e")
    case True
    with run entry show ?thesis by (auto simp: take_or_load_state_def take_cached_state_def Let_def)
  qed (rule fresh)
qed

lemma run_socket_event_spec:
  assumes c: "backed (ah_world s) c" and run: "run_socket_event env sinv inv0 e c s = (r, s')"
    and same: "inv_actor inv0 = sock_actor sinv"
  shows "\<exists>c'. ah_cached_state s' = (ah_cached_state s)(storage_key (sock_actor sinv) \<mapsto> c') \<and> backed (ah_world s') c' \<and>
    ca_owner_epoch c' = ca_owner_epoch c \<and>
    (\<forall>effects. r = Handled effects \<longrightarrow> ca_pending c' = None \<and>
      (\<exists>m w1 st. sock_actor m = sock_actor sinv \<and> sock_request_id m = sock_request_id sinv \<and> sock_event m = sock_event sinv \<and>
         fst (env_handle_socket env m w1) = Inr (SocketHandled st effects) \<and> ca_state c' = Some st \<and>
         (sock_state m = Some st \<or> published (ah_world s') inv0 Null st c')))"
proof -
  note fin = finish_pending_commit_spec [OF c]
  have executed: "backed (ah_world s2) c1" "ca_pending c1 = None" "ah_cached_state s2 = ah_cached_state s1"
    if "finish_pending_commit env inv0 c s = (Inr (), c1, s1)" "execute_socket_event env sinv (ca_state c1) s1 = (rx, s2)" for c1 s1 s2 rx
    using finished_backed [OF c that(1), of s2] fin [OF that(1)] execute_socket_spec [OF _ that(2)] by auto
  from run show ?thesis
  proof (cases rule: run_socket_event_cases)
    case (unfinished err c1 s1)
    with fin [OF unfinished(1)] show ?thesis by (auto simp: store_cached_state_def)
  next
    case (unexecuted c1 s1 s2 failure)
    with fin [OF unexecuted(1)] executed [OF unexecuted(1,2)] execute_socket_spec [OF _ unexecuted(2)] show ?thesis
      by (auto simp: store_cached_state_def failed_def)
  next
    case (unchanged c1 s1 s2 st effects)
    with fin [OF unchanged(1)] executed [OF unchanged(1,2)] execute_socket_spec [OF _ unchanged(2)] show ?thesis
      by (auto simp: store_cached_state_def intro!: exI [of _ "sinv\<lparr>sock_state := Some st\<rparr>"] exI [of _ "ah_world s1"])
  next
    case (unpublished c1 s1 s2 st effects err c2 s3)
    note done1 = executed [OF unpublished(1,2)]
    with fin [OF unpublished(1)] unpublished publish_evicted [OF done1(1,2) unpublished(3), of "inv_actor inv0"] show ?thesis
      by (auto simp: store_cached_state_def)
  next
    case (published c1 s1 s2 st effects x c2 s3)
    note done1 = executed [OF published(1,2)] and pub = publish_spec [OF executed(1,2) [OF published(1,2)] published(3)]
    have "ca_state c2 = Some st" using pub by (auto simp: published_head_def shows_snapshot_def)
    moreover have "fst (env_handle_socket env (sinv\<lparr>sock_state := ca_state c1\<rparr>) (ah_world s1)) = Inr (SocketHandled st effects)"
      using fin [OF published(1)] execute_socket_spec [OF _ published(2)] by auto
    ultimately show ?thesis using fin [OF published(1)] done1 pub published(4,5)
      by (auto simp: store_cached_state_def intro!: exI [of _ c2] exI [of _ "sinv\<lparr>sock_state := ca_state c1\<rparr>"] exI [of _ "ah_world s1"])
  qed
qed

text \<open>An acknowledged invocation: the cache entry it leaves is settled, backed and justifies the answer.\<close>

lemma invoke_durable:
  assumes sound: "sound (ah_world (snd (wait (begin_activity s))))"
    and entry: "\<And>c. ah_cached_state (snd (wait (begin_activity s))) (storage_key (inv_actor inv0)) = Some c \<Longrightarrow>
      backed (ah_world (snd (wait (begin_activity s)))) c"
    and run: "invoke_actor_once env wait inv0 e v url s = (Inr (Completed res effects), s')"
  shows "\<exists>c. ah_cached_state s' (storage_key (inv_actor inv0)) = Some c \<and> ca_pending c = None \<and> ca_owner_epoch c = e \<and>
    backed (ah_world s') c \<and> (\<exists>c0 s0. take_or_load_state env (storage_key (inv_actor inv0)) e v url (snd (wait (begin_activity s))) = (Inr c0, s0) \<and>
      justified (ah_world s') inv0 res effects c0 c)"
proof -
  let ?k = "storage_key (inv_actor inv0)"
  obtain b s1 where w: "wait (begin_activity s) = (b, s1)" by fastforce
  obtain rc s2 where load: "take_or_load_state env ?k e v url s1 = (rc, s2)" by fastforce
  have "validate_operation env inv0 False s = Inr None"
    using run by (auto simp: invoke_actor_once_def validate_operation_def failed_def result_simps split: sum.splits option.splits if_splits)
  with run w have b: "b" "ah_accepting s1" and go: "\<exists>c. rc = Inr c"
    using load by (auto simp: invoke_actor_once_def with_activity_def split: bool.splits if_splits sum.splits)
  then obtain c where c: "rc = Inr c" by blast
  have "backed (ah_world s2) c \<and> ca_owner_epoch c = e"
    using take_or_load_spec [of s1 ?k e v url c s2] sound entry w load c by simp
  moreover obtain r s3 where exec: "run_invocation env inv0 e c s2 = (r, s3)" by fastforce
  moreover have "r = Completed res effects" "s' = finish_activity s3"
    using run w load b c exec \<open>validate_operation env inv0 False s = Inr None\<close>
    by (auto simp: invoke_actor_once_def with_activity_def)
  ultimately show ?thesis
    using run_invocation_spec [of s2 c inv0 e r s3] w load c by (auto simp: finish_activity_def)
qed

text \<open>A handled socket event: its state is committed before its effects are handed out.\<close>

lemma socket_durable:
  assumes sound: "sound (ah_world (snd (wait (begin_activity s))))"
    and entry: "\<And>c. ah_cached_state (snd (wait (begin_activity s))) (storage_key (sock_actor sinv)) = Some c \<Longrightarrow>
      backed (ah_world (snd (wait (begin_activity s)))) c"
    and run: "handle_socket_event env wait sinv e v url s = (Inr (Handled effects), s')"
  shows "\<exists>c st m w1. ah_cached_state s' (storage_key (sock_actor sinv)) = Some c \<and> ca_pending c = None \<and> ca_owner_epoch c = e \<and>
    ca_state c = Some st \<and> sock_actor m = sock_actor sinv \<and> sock_request_id m = sock_request_id sinv \<and> sock_event m = sock_event sinv \<and>
    fst (env_handle_socket env m w1) = Inr (SocketHandled st effects) \<and>
    (sock_state m = Some st \<or> (\<exists>name snap. committed (ah_world s') (storage_key (sock_actor sinv)) =
         Some (ca_state_version c, name, sock_request_id sinv) \<and>
       holds_snapshot (env_codec env) (objects (ah_world s')) name snap \<and> snap_state snap = st))"
proof -
  let ?k = "storage_key (sock_actor sinv)"
  let ?p = "\<lparr>inv_request_id = sock_request_id sinv, inv_actor = sock_actor sinv,
        inv_method = socket_event_name (sock_event sinv), inv_args = []\<rparr>"
  obtain b s1 where w: "wait (begin_activity s) = (b, s1)" by fastforce
  obtain rc s2 where load: "take_or_load_state env ?k e v url s1 = (rc, s2)" by fastforce
  note unfold = handle_socket_event_def handle_socket_event_once_def with_activity_def Let_def
  have valid: "validate_operation env ?p (is_disconnect (sock_event sinv)) s = Inr None"
    using run by (auto simp: unfold validate_operation_def failed_def result_simps split: sum.splits option.splits if_splits)
  with run w have b: "b" "is_disconnect (sock_event sinv) \<or> ah_accepting s1" and go: "\<exists>c. rc = Inr c"
    using load by (auto simp: unfold split: bool.splits if_splits sum.splits)
  then obtain c where c: "rc = Inr c" by blast
  have "backed (ah_world s2) c \<and> ca_owner_epoch c = e"
    using take_or_load_spec [of s1 ?k e v url c s2] sound entry w load c by simp
  moreover obtain r s3 where exec: "run_socket_event env sinv ?p e c s2 = (r, s3)" by fastforce
  moreover have "r = Handled effects" "s' = finish_activity s3"
    using run w load b c exec valid by (auto simp: unfold split: if_splits)
  ultimately show ?thesis
    using run_socket_event_spec [of s2 c sinv ?p e r s3] by (fastforce simp: finish_activity_def published_head_def)
qed

end

section \<open>Retries\<close>

lemma invocation_admitted:
  assumes "ah_accepting s" "invocation_validate inv0 = Inr ()" "namespace_id (inv_actor inv0) = ah_namespace_id s"
    "env_supports env (actor_type (inv_actor inv0))"
  shows "validate_operation env inv0 False s = Inr None"
  using assms by (simp add: validate_operation_def)

lemma publish_recorded:
  assumes "publish_result_once env inv0 e c res st s = (Inr x, c', s')"
  shows "x = Completed res [] \<and> ca_pending c' = None \<and> ca_owner_epoch c' = ca_owner_epoch c \<and>
    ca_last_request_id c' = Some (inv_request_id inv0) \<and> ca_last_result c' = Some res"
  using assms
proof (cases rule: publish_cases)
  case (finished t snap bytes s1 w2 y rf)
  then show ?thesis
    by (auto simp: finish_pending_commit_def and_then_eq_Inr split: prod.splits sum.splits if_splits)
qed auto

lemma finish_settles: "finish_pending_commit env inv0 c s = (Inr (), c', s') \<Longrightarrow> ca_pending c' = None \<and> ca_owner_epoch c' = ca_owner_epoch c"
  by (auto simp: finish_pending_commit_def split: option.splits prod.splits sum.splits if_splits)

text \<open>An answered invocation leaves a settled entry, and if that entry records the request, then with the answer.\<close>

lemma run_invocation_recorded:
  assumes "run_invocation env inv0 e c s = (Completed res effects, s')"
  shows "\<exists>c'. ah_cached_state s' (storage_key (inv_actor inv0)) = Some c' \<and> ca_pending c' = None \<and> ca_owner_epoch c' = ca_owner_epoch c \<and>
    cached_replay c' (inv_request_id inv0) \<in> {None, Some res}"
  using assms
proof (cases rule: run_invocation_cases)
  case (unexecuted c1 s1 s2)
  then show ?thesis
    by (auto simp: execute_method_def failed_def split: prod.splits sum.splits actor_method_outcome.splits)
next
  case (published c1 s1 s2 res' st effects' x c2 s3)
  with publish_recorded [OF published(4)] finish_settles [OF published(1)] show ?thesis
    by (auto simp: store_cached_state_def cached_replay_def)
qed (auto simp: store_cached_state_def outcome_unknown_def dest!: finish_settles)

lemma take_or_load_epoch: "take_or_load_state env k e v url s = (Inr c, s') \<Longrightarrow> ca_owner_epoch c = e"
  by (auto simp: take_or_load_state_def Let_def cached_new_def cached_from_loaded_def result_simps on_world_def
      split: option.splits if_splits prod.splits)

lemma invoke_recorded:
  assumes run: "invoke_actor_once env wait inv0 e v url s = (Inr (Completed res effects), s')"
  shows "invocation_validate inv0 = Inr () \<and> env_supports env (actor_type (inv_actor inv0)) \<and>
    (\<exists>c. ah_cached_state s' (storage_key (inv_actor inv0)) = Some c \<and> ca_pending c = None \<and> ca_owner_epoch c = e \<and>
       cached_replay c (inv_request_id inv0) \<in> {None, Some res})"
proof -
  let ?k = "storage_key (inv_actor inv0)"
  have valid: "validate_operation env inv0 False s = Inr None"
    using run by (auto simp: invoke_actor_once_def validate_operation_def failed_def result_simps split: sum.splits option.splits if_splits)
  obtain b s1 where w: "wait (begin_activity s) = (b, s1)" by fastforce
  obtain rc s2 where load: "take_or_load_state env ?k e v url s1 = (rc, s2)" by fastforce
  from run w valid load obtain c where c: "rc = Inr c" and b: "b" "ah_accepting s1"
    by (auto simp: invoke_actor_once_def with_activity_def split: bool.splits if_splits sum.splits)
  obtain r s3 where exec: "run_invocation env inv0 e c s2 = (r, s3)" by fastforce
  have "r = Completed res effects" "s' = finish_activity s3"
    using run w load b c exec valid by (auto simp: invoke_actor_once_def with_activity_def)
  with run_invocation_recorded [of env inv0 e c s2 res effects s3] exec take_or_load_epoch [of env ?k e v url s1 c s2] load c valid show ?thesis
    by (auto simp: finish_activity_def validate_operation_def result_simps split: if_splits)
qed

text \<open>
  Claim C24. Retries. Let an invocation be answered with a result, and let the same invocation arrive at the host again
  in the same ownership epoch, while the actor's entry is still the one the first call left, whatever happened to the rest of
  the host and the world. If the entry records the request, as it does when the call published a new state, the retry is
  answered with the recorded result and no effects, and touches neither the executor, the control plane nor the store.
  Otherwise the request runs again on the held state: only the last recorded request is replayed.
\<close>

theorem retry_replays_result:
  assumes first: "invoke_actor_once env wait inv0 e v url s = (Inr (Completed res effects), s1)"
    and entry: "ah_cached_state s1 (storage_key (inv_actor inv0)) = Some c" "ah_cached_state s3 (storage_key (inv_actor inv0)) = Some c"
    and admitted: "ah_accepting s2" "namespace_id (inv_actor inv0) = ah_namespace_id s2"
      "wait' (begin_activity s2) = (True, s3)" "ah_accepting s3"
  shows "(ca_last_request_id c = Some (inv_request_id inv0) \<and> ca_last_result c \<noteq> None \<longrightarrow>
      invoke_actor_once env wait' inv0 e v' url' s2 = (Inr (Completed res []), finish_activity s3)) \<and>
    (ca_last_request_id c \<noteq> Some (inv_request_id inv0) \<longrightarrow>
      (case fst (execute_method env inv0 (ca_state c) [] (s3\<lparr>ah_cached_state := (ah_cached_state s3)(storage_key (inv_actor inv0) := None)\<rparr>)) of
         Inl failure \<Rightarrow> fst (invoke_actor_once env wait' inv0 e v' url' s2) = Inr failure
       | Inr (res', st, effects') \<Rightarrow> ca_state c = Some st \<longrightarrow> fst (invoke_actor_once env wait' inv0 e v' url' s2) = Inr (Completed res' effects')))"
proof -
  let ?k = "storage_key (inv_actor inv0)"
  let ?s = "s3\<lparr>ah_cached_state := (ah_cached_state s3)(?k := None)\<rparr>"
  from invoke_recorded [OF first] entry(1) have c: "ca_pending c = None" "ca_owner_epoch c = e"
    and rec: "cached_replay c (inv_request_id inv0) \<in> {None, Some res}"
    and valid: "invocation_validate inv0 = Inr ()" "env_supports env (actor_type (inv_actor inv0))" by auto
  note ok = invocation_admitted [OF admitted(1) valid(1) admitted(2) valid(2)]
  have invoke: "invoke_actor_once env wait' inv0 e v' url' s2 = (case run_invocation env inv0 e c ?s of (r, s4) \<Rightarrow> (Inr r, finish_activity s4))"
    using ok admitted c entry(2)
    by (simp add: invoke_actor_once_def with_activity_def take_or_load_state_def take_cached_state_def split: prod.splits)
  have settled: "finish_pending_commit env inv0 c ?s = (Inr (), c, ?s)" using c by (simp add: finish_pending_commit_def)
  have restored: "store_cached_state ?k c ?s = s3" using entry(2) by (simp add: store_cached_state_def fun_upd_idem)
  show ?thesis
  proof (intro conjI impI)
    assume "ca_last_request_id c = Some (inv_request_id inv0) \<and> ca_last_result c \<noteq> None"
    then have "cached_replay c (inv_request_id inv0) = Some res" using rec by (auto simp: cached_replay_def)
    then show "invoke_actor_once env wait' inv0 e v' url' s2 = (Inr (Completed res []), finish_activity s3)"
      using invoke settled restored by (simp add: run_invocation_def)
  next
    assume "ca_last_request_id c \<noteq> Some (inv_request_id inv0)"
    then have "cached_replay c (inv_request_id inv0) = None" by (simp add: cached_replay_def)
    then show "case fst (execute_method env inv0 (ca_state c) [] ?s) of
         Inl failure \<Rightarrow> fst (invoke_actor_once env wait' inv0 e v' url' s2) = Inr failure
       | Inr (res', st, effects') \<Rightarrow> ca_state c = Some st \<longrightarrow> fst (invoke_actor_once env wait' inv0 e v' url' s2) = Inr (Completed res' effects')"
      using invoke settled by (auto simp: run_invocation_def Let_def split: prod.splits sum.splits)
  qed
qed

section \<open>Concrete runs\<close>

text \<open>A host whose actor answers \<^verbatim>\<open>null\<close> and keeps an empty state, with nothing behind it.\<close>

definition sample_env :: "unit host_env" where
  "sample_env = \<lparr>env_supports = (\<lambda>t. t = ''T''),
     env_invoke = (\<lambda>_ w. (Inr (MethodCompleted Null (JObject []) []), w)),
     env_handle_socket = (\<lambda>_ w. (Inr (SocketHandled (JObject []) []), w)), env_evict = (\<lambda>_ w. (Inr (), w)),
     env_prepare_state_write = (\<lambda>_ _ _ _ w. (Inl (Bail ''offline''), w)),
     env_commit_state = (\<lambda>_ _ _ _ _ _ w. (Inl (Bail ''offline''), w)),
     env_read = (\<lambda>_ w. (Inl (Bail ''offline''), w)), env_write = (\<lambda>_ _ w. (Inl (Bail ''offline''), w)),
     env_unix_millis = (\<lambda>_. Inr 0), env_codec = sample_codec, env_base64 = sample_decode\<rparr>"

definition sample_invocation :: actor_invocation where
  "sample_invocation = \<lparr>inv_request_id = ''r1'', inv_actor = \<lparr>namespace_id = ''ns'', actor_type = ''T'', actor_id = ''a''\<rparr>,
     inv_method = ''get'', inv_args = []\<rparr>"

definition sample_cached :: cached_actor_state where
  "sample_cached = \<lparr>ca_owner_epoch = 1, ca_state_version = 1, ca_state = Some (JObject []), ca_last_request_id = Some ''r1'',
     ca_last_result = Some (JBool True), ca_next_write = None, ca_pending = None\<rparr>"

definition sample_host :: "unit actor_host" where
  "sample_host = (host_new \<lparr>endpoint_id = HostId ''host-a'', endpoint_route = ''https://a''\<rparr> ''ns'' ())
     \<lparr>ah_cached_state := [ActorStorageKey ''object.v1.ns.T.a'' \<mapsto> sample_cached]\<rparr>"

lemma sample_invocation_valid: "invocation_validate sample_invocation = Inr ()"
proof -
  have "actor_validate (inv_actor sample_invocation) = Inr ()"
    by (rule actor_validI) (simp_all add: sample_invocation_def component_char_def ascii_defs)
  then show ?thesis
    by (simp add: invocation_validate_def validate_component_def) (simp add: sample_invocation_def component_char_def ascii_defs)
qed

theorem retry_replays_result_witness:
  "fst (invoke_actor_once sample_env (Pair True) sample_invocation 1 0 [] sample_host) = Inr (Completed (JBool True) [])"
proof -
  have k: "storage_key (inv_actor sample_invocation) = ActorStorageKey ''object.v1.ns.T.a''"
    by (simp add: sample_invocation_def storage_key_def)
  obtain s1 where first: "invoke_actor_once sample_env (Pair True) sample_invocation 1 0 [] sample_host = (Inr (Completed (JBool True) []), s1)"
    and entry: "ah_cached_state s1 (storage_key (inv_actor sample_invocation)) = Some sample_cached"
    using sample_invocation_valid k
    by (simp add: invoke_actor_once_def validate_operation_def with_activity_def take_or_load_state_def take_cached_state_def run_invocation_def
        finish_pending_commit_def cached_replay_def store_cached_state_def begin_activity_def finish_activity_def
        sample_host_def host_new_def sample_env_def sample_cached_def sample_invocation_def)
  have "ah_cached_state (begin_activity sample_host) (storage_key (inv_actor sample_invocation)) = Some sample_cached"
    using k by (simp add: sample_host_def begin_activity_def)
  from retry_replays_result [OF first entry this, of sample_host "Pair True"] show ?thesis
    by (simp add: sample_host_def host_new_def sample_cached_def sample_invocation_def begin_activity_def)
qed

end
