(* ===== verification/Execution_Gate.thy ===== *)
theory Execution_Gate
  imports Actor_Protocol
begin

text \<open>
  The per-actor admission gate (\<^verbatim>\<open>src/actor_state/actor.rs\<close>): a map of weak references from actors
  to gates, each with a semaphore of 33 permits and a fair mutex. The steps are those of
  \<^verbatim>\<open>admit\<close>, of tasks on several threads: a task gets its actor's gate (after expired weak
  references are dropped), tries to take a permit, waits for the mutex, and runs until its guard
  is dropped; a waiting task can also be cancelled. A gate is alive while some task holds a strong
  reference to it. The lemmas show that dropping weak references never gives two live tasks of one
  actor different gates, so at most one of them runs and at most 33 are admitted.
\<close>

abbreviation max_admitted_invocations_per_actor :: nat where "max_admitted_invocations_per_actor \<equiv> 33"

text \<open>\<^verbatim>\<open>Entered\<close>: holds the gate. \<^verbatim>\<open>Queued\<close>: holds a permit and waits. \<^verbatim>\<open>Running\<close>: owns the guard.\<close>

datatype task_phase = Entered | Queued | Running

record gate_task =
  task_id :: nat
  task_key :: actor_storage_key
  task_gate :: nat
  task_phase :: task_phase

record execution_gate =
  gate_permits :: nat
  gate_queue :: "nat list"
  gate_holder :: "nat option"

record execution_locks =
  locks :: "actor_storage_key \<rightharpoonup> nat"
  gates :: "nat \<Rightarrow> execution_gate"
  next_gate :: nat
  tasks :: "gate_task list"

definition fresh_gate :: execution_gate where
  "fresh_gate = \<lparr>gate_permits = max_admitted_invocations_per_actor, gate_queue = [], gate_holder = None\<rparr>"

definition locks_new :: execution_locks where
  "locks_new = \<lparr>locks = Map.empty, gates = (\<lambda>_. fresh_gate), next_gate = 0, tasks = []\<rparr>"

definition strong_count :: "execution_locks \<Rightarrow> nat \<Rightarrow> nat" where
  "strong_count s g = length (filter (\<lambda>t. task_gate t = g) (tasks s))"

text \<open>\<^verbatim>\<open>locks.retain(|_, gate| gate.strong_count() > 0)\<close>.\<close>

definition retain_live :: "execution_locks \<Rightarrow> actor_storage_key \<rightharpoonup> nat" where
  "retain_live s = (\<lambda>k. case locks s k of
     None \<Rightarrow> None | Some g \<Rightarrow> if 0 < strong_count s g then Some g else None)"

definition enter_gate :: "nat \<Rightarrow> actor_storage_key \<Rightarrow> execution_locks \<Rightarrow> execution_locks" where
  "enter_gate i key s =
     (let live = retain_live s in
      case live key of
        Some g \<Rightarrow> s\<lparr>locks := live,
          tasks := tasks s @ [\<lparr>task_id = i, task_key = key, task_gate = g, task_phase = Entered\<rparr>]\<rparr>
      | None \<Rightarrow> s\<lparr>locks := live(key \<mapsto> next_gate s),
          gates := (gates s)(next_gate s := fresh_gate), next_gate := Suc (next_gate s),
          tasks := tasks s @ [\<lparr>task_id = i, task_key = key, task_gate = next_gate s, task_phase = Entered\<rparr>]\<rparr>)"

definition set_phase :: "nat \<Rightarrow> task_phase \<Rightarrow> gate_task list \<Rightarrow> gate_task list" where
  "set_phase i p ts = map (\<lambda>t. if task_id t = i then t\<lparr>task_phase := p\<rparr> else t) ts"

definition drop_task :: "nat \<Rightarrow> gate_task list \<Rightarrow> gate_task list" where
  "drop_task i ts = filter (\<lambda>t. task_id t \<noteq> i) ts"

text \<open>\<^verbatim>\<open>try_acquire_owned\<close>: without a permit the call answers \<^verbatim>\<open>Full\<close> and drops its reference.\<close>

definition try_admit :: "gate_task \<Rightarrow> execution_locks \<Rightarrow> execution_locks" where
  "try_admit t s =
     (let g = gates s (task_gate t) in
      if gate_permits g = 0 then s\<lparr>tasks := drop_task (task_id t) (tasks s)\<rparr>
      else s\<lparr>gates := (gates s)(task_gate t := g\<lparr>gate_permits := gate_permits g - 1,
                gate_queue := gate_queue g @ [task_id t]\<rparr>),
             tasks := set_phase (task_id t) Queued (tasks s)\<rparr>)"

text \<open>The mutex is granted in the order of the queue.\<close>

definition grant :: "nat \<Rightarrow> execution_locks \<Rightarrow> execution_locks" where
  "grant g s =
     (case (gate_holder (gates s g), gate_queue (gates s g)) of
        (None, i # rest) \<Rightarrow>
          s\<lparr>gates := (gates s)(g := (gates s g)\<lparr>gate_holder := Some i, gate_queue := rest\<rparr>),
            tasks := set_phase i Running (tasks s)\<rparr>
      | _ \<Rightarrow> s)"

text \<open>Dropping the guard of a running task, or cancelling a waiting one: reference, mutex and permit.\<close>

definition leave :: "gate_task \<Rightarrow> execution_locks \<Rightarrow> execution_locks" where
  "leave t s =
     (let g = gates s (task_gate t);
          tasks' = drop_task (task_id t) (tasks s) in
      case task_phase t of
        Entered \<Rightarrow> s\<lparr>tasks := tasks'\<rparr>
      | Queued \<Rightarrow> s\<lparr>gates := (gates s)(task_gate t := g\<lparr>gate_permits := gate_permits g + 1,
          gate_queue := removeAll (task_id t) (gate_queue g)\<rparr>), tasks := tasks'\<rparr>
      | Running \<Rightarrow> s\<lparr>gates := (gates s)(task_gate t := g\<lparr>gate_permits := gate_permits g + 1,
          gate_holder := None\<rparr>), tasks := tasks'\<rparr>)"

inductive gate_step :: "execution_locks \<Rightarrow> execution_locks \<Rightarrow> bool" where
  enter: "i \<notin> task_id ` set (tasks s) \<Longrightarrow> gate_step s (enter_gate i key s)"
| admit: "t \<in> set (tasks s) \<Longrightarrow> task_phase t = Entered \<Longrightarrow> gate_step s (try_admit t s)"
| grant: "gate_step s (grant g s)"
| leave: "t \<in> set (tasks s) \<Longrightarrow> gate_step s (leave t s)"

inductive gate_reachable :: "execution_locks \<Rightarrow> bool" where
  init: "gate_reachable locks_new"
| step: "gate_reachable s \<Longrightarrow> gate_step s s' \<Longrightarrow> gate_reachable s'"

section \<open>The invariant\<close>

definition admitted :: "gate_task list \<Rightarrow> nat \<Rightarrow> nat" where
  "admitted ts g = length (filter (\<lambda>t. task_gate t = g \<and> task_phase t \<noteq> Entered) ts)"

definition in_phase :: "gate_task list \<Rightarrow> nat \<Rightarrow> task_phase \<Rightarrow> nat \<Rightarrow> bool" where
  "in_phase ts g p i \<longleftrightarrow> (\<exists>t \<in> set ts. task_id t = i \<and> task_gate t = g \<and> task_phase t = p)"

definition gate_ok :: "gate_task list \<Rightarrow> nat \<Rightarrow> execution_gate \<Rightarrow> bool" where
  "gate_ok ts g gate \<longleftrightarrow>
     gate_permits gate + admitted ts g = max_admitted_invocations_per_actor \<and>
     (\<forall>i. gate_holder gate = Some i \<longleftrightarrow> in_phase ts g Running i) \<and>
     (\<forall>i. i \<in> set (gate_queue gate) \<longleftrightarrow> in_phase ts g Queued i) \<and>
     distinct (gate_queue gate)"

definition gate_inv :: "execution_locks \<Rightarrow> bool" where
  "gate_inv s \<longleftrightarrow>
     distinct (map task_id (tasks s)) \<and>
     (\<forall>t \<in> set (tasks s). locks s (task_key t) = Some (task_gate t)) \<and>
     (\<forall>k g. locks s k = Some g \<longrightarrow> g < next_gate s) \<and>
     (\<forall>k k' g. locks s k = Some g \<longrightarrow> locks s k' = Some g \<longrightarrow> k = k') \<and>
     (\<forall>g. gate_ok (tasks s) g (gates s g))"

lemma set_drop_task [simp]: "set (drop_task i ts) = {t \<in> set ts. task_id t \<noteq> i}"
  by (auto simp: drop_task_def)

lemma distinct_drop_task: "distinct (map task_id ts) \<Longrightarrow> distinct (map task_id (drop_task i ts))"
  by (simp add: drop_task_def distinct_map_filter)

lemma map_task_id_set_phase [simp]: "map task_id (set_phase i p ts) = map task_id ts"
  by (simp add: set_phase_def)

lemma task_id_inj: "distinct (map task_id ts) \<Longrightarrow> t \<in> set ts \<Longrightarrow> u \<in> set ts \<Longrightarrow> task_id u = task_id t \<Longrightarrow> u = t"
  by (simp add: distinct_map inj_on_def)

lemma set_set_phase:
  assumes "distinct (map task_id ts)" "t \<in> set ts"
  shows "set (set_phase (task_id t) p ts) = insert (t\<lparr>task_phase := p\<rparr>) {u \<in> set ts. task_id u \<noteq> task_id t}"
  using assms task_id_inj [OF assms] by (auto simp: set_phase_def image_iff)

lemma in_phase_simps:
  assumes "distinct (map task_id ts)" "t \<in> set ts"
  shows "in_phase ts g p (task_id t) \<longleftrightarrow> task_gate t = g \<and> task_phase t = p"
    "in_phase (drop_task (task_id t) ts) g p i \<longleftrightarrow> in_phase ts g p i \<and> i \<noteq> task_id t"
    "in_phase (set_phase (task_id t) q ts) g p i \<longleftrightarrow>
       (if i = task_id t then g = task_gate t \<and> p = q else in_phase ts g p i)"
  using task_id_inj [OF assms] assms(2) by (auto simp: in_phase_def set_set_phase [OF assms])

lemma drop_task_absent: "i \<notin> task_id ` set ts \<Longrightarrow> drop_task i ts = ts"
  by (auto simp: drop_task_def intro: filter_True)

lemma set_phase_absent: "i \<notin> task_id ` set ts \<Longrightarrow> set_phase i p ts = ts"
  unfolding set_phase_def by (rule map_idI) auto

lemma admitted_drop:
  "distinct (map task_id ts) \<Longrightarrow> t \<in> set ts \<Longrightarrow>
   admitted ts g = admitted (drop_task (task_id t) ts) g + (if task_gate t = g \<and> task_phase t \<noteq> Entered then 1 else 0)"
proof (induction ts)
  case (Cons u ts)
  show ?case
  proof (cases "u = t")
    case True
    with Cons.prems have "drop_task (task_id t) ts = ts" by (auto intro: drop_task_absent)
    with True show ?thesis by (simp add: admitted_def drop_task_def)
  next
    case False
    with Cons.prems have "task_id u \<noteq> task_id t" by (auto simp: image_iff)
    with Cons False show ?thesis by (auto simp: admitted_def drop_task_def)
  qed
qed simp

lemma admitted_set_phase:
  "distinct (map task_id ts) \<Longrightarrow> t \<in> set ts \<Longrightarrow>
   admitted (set_phase (task_id t) p ts) g =
     admitted (drop_task (task_id t) ts) g + (if task_gate t = g \<and> p \<noteq> Entered then 1 else 0)"
proof (induction ts)
  case (Cons u ts)
  show ?case
  proof (cases "u = t")
    case True
    with Cons.prems have "drop_task (task_id t) ts = ts" "set_phase (task_id t) p ts = ts"
      by (auto intro: drop_task_absent set_phase_absent)
    with True show ?thesis by (simp add: admitted_def drop_task_def set_phase_def)
  next
    case False
    with Cons.prems have "task_id u \<noteq> task_id t" by (auto simp: image_iff)
    with Cons False show ?thesis by (auto simp: admitted_def drop_task_def set_phase_def)
  qed
qed simp

lemma gate_inv_new: "gate_inv locks_new"
  by (simp add: gate_inv_def locks_new_def gate_ok_def fresh_gate_def admitted_def in_phase_def)

lemma retain_live_task: "gate_inv s \<Longrightarrow> t \<in> set (tasks s) \<Longrightarrow> retain_live s (task_key t) = Some (task_gate t)"
  by (auto simp: gate_inv_def retain_live_def strong_count_def filter_empty_conv)

lemma retain_live_sub: "retain_live s k = Some g \<Longrightarrow> locks s k = Some g"
  by (auto simp: retain_live_def split: option.splits if_splits)

lemma gate_ok_enter: "gate_ok ts g gate \<Longrightarrow> task_phase t = Entered \<Longrightarrow> gate_ok (ts @ [t]) g gate"
  by (auto simp: gate_ok_def admitted_def in_phase_def)

lemma gate_ok_fresh: "\<forall>t \<in> set ts. task_gate t \<noteq> g \<Longrightarrow> gate_ok ts g fresh_gate"
  by (auto simp: gate_ok_def fresh_gate_def admitted_def in_phase_def filter_empty_conv)

lemma gate_inv_enter:
  assumes "gate_inv s" "i \<notin> task_id ` set (tasks s)"
  shows "gate_inv (enter_gate i key s)"
proof -
  have "\<forall>t \<in> set (tasks s). task_gate t \<noteq> next_gate s" using assms(1) by (fastforce simp: gate_inv_def)
  then have fresh: "gate_ok (tasks s) (next_gate s) fresh_gate" by (rule gate_ok_fresh)
  have live: "\<And>t. t \<in> set (tasks s) \<Longrightarrow> retain_live s (task_key t) = Some (task_gate t)"
    by (rule retain_live_task [OF assms(1)])
  have sub: "\<And>k g. retain_live s k = Some g \<Longrightarrow> g < next_gate s"
    using assms(1) by (auto simp: gate_inv_def dest: retain_live_sub)
  have inj: "\<And>k k' g. retain_live s k = Some g \<Longrightarrow> retain_live s k' = Some g \<Longrightarrow> k = k'"
    using assms(1) by (auto simp: gate_inv_def dest!: retain_live_sub)
  have "gate_inv (enter_gate i key s)" if "retain_live s key = None"
    using assms fresh live sub inj that
    by (auto simp: enter_gate_def gate_inv_def Let_def intro: gate_ok_enter less_SucI)
  moreover have "gate_inv (enter_gate i key s)" if "retain_live s key = Some g" for g
    using assms live sub inj that by (auto simp: enter_gate_def gate_inv_def Let_def intro: gate_ok_enter)
  ultimately show ?thesis by (cases "retain_live s key") auto
qed

lemma gate_ok_drop_other:
  assumes d: "distinct (map task_id ts)" "t \<in> set ts" and "gate_ok ts g gate" "task_gate t \<noteq> g \<or> task_phase t = Entered"
  shows "gate_ok (drop_task (task_id t) ts) g gate"
  using assms(3,4) admitted_drop [OF d, of g] in_phase_simps(1) [OF d]
  by (auto simp: gate_ok_def in_phase_simps(2) [OF d] split: if_splits)

lemma gate_ok_phase_other:
  assumes d: "distinct (map task_id ts)" "t \<in> set ts" and "gate_ok ts g gate" "task_gate t \<noteq> g"
  shows "gate_ok (set_phase (task_id t) p ts) g gate"
  using assms(3,4) admitted_drop [OF d, of g] admitted_set_phase [OF d, of p g] in_phase_simps(1) [OF d]
  by (auto simp: gate_ok_def in_phase_simps(3) [OF d])

text \<open>An operation that changes one gate and the phase of one task, or drops one task, keeps the invariant.\<close>

lemma gate_inv_phase:
  assumes inv: "gate_inv s" and t: "t \<in> set (tasks s)"
    and ok: "gate_ok (set_phase (task_id t) p (tasks s)) (task_gate t) gate"
  shows "gate_inv (s\<lparr>gates := (gates s)(task_gate t := gate), tasks := set_phase (task_id t) p (tasks s)\<rparr>)"
proof -
  have d: "distinct (map task_id (tasks s))" using inv by (simp add: gate_inv_def)
  have "gate_ok (set_phase (task_id t) p (tasks s)) g (gates s g)" if "g \<noteq> task_gate t" for g
    using inv that t d by (intro gate_ok_phase_other) (auto simp: gate_inv_def)
  with inv t d ok show ?thesis by (auto simp: gate_inv_def set_set_phase)
qed

lemma gate_inv_drop:
  assumes inv: "gate_inv s" and t: "t \<in> set (tasks s)"
    and ok: "gate_ok (drop_task (task_id t) (tasks s)) (task_gate t) gate"
  shows "gate_inv (s\<lparr>gates := (gates s)(task_gate t := gate), tasks := drop_task (task_id t) (tasks s)\<rparr>)"
proof -
  have d: "distinct (map task_id (tasks s))" using inv by (simp add: gate_inv_def)
  have "gate_ok (drop_task (task_id t) (tasks s)) g (gates s g)" if "g \<noteq> task_gate t" for g
    using inv that t d by (intro gate_ok_drop_other) (auto simp: gate_inv_def)
  with inv t d ok show ?thesis by (auto simp: gate_inv_def distinct_drop_task)
qed

lemma gate_inv_parts:
  assumes "gate_inv s" "t \<in> set (tasks s)"
  shows "distinct (map task_id (tasks s))" "gate_ok (tasks s) (task_gate t) (gates s (task_gate t))"
  using assms by (simp_all add: gate_inv_def)

lemma gate_inv_admit:
  assumes inv: "gate_inv s" and t: "t \<in> set (tasks s)" "task_phase t = Entered"
  shows "gate_inv (try_admit t s)"
proof -
  note d = gate_inv_parts(1) [OF inv t(1)] t(1) and ok = gate_inv_parts(2) [OF inv t(1)]
  show ?thesis
  proof (cases "gate_permits (gates s (task_gate t)) = 0")
    case True
    have "gate_ok (drop_task (task_id t) (tasks s)) (task_gate t) (gates s (task_gate t))"
      using gate_ok_drop_other [OF d ok] t(2) by simp
    from gate_inv_drop [OF inv t(1) this] True show ?thesis by (simp add: try_admit_def Let_def)
  next
    case False
    let ?g = "gates s (task_gate t)"
    have "gate_ok (set_phase (task_id t) Queued (tasks s)) (task_gate t)
        (?g\<lparr>gate_permits := gate_permits ?g - 1, gate_queue := gate_queue ?g @ [task_id t]\<rparr>)"
      using ok False t(2) admitted_drop [OF d, of "task_gate t"] admitted_set_phase [OF d, of Queued "task_gate t"] in_phase_simps(1) [OF d]
      by (auto simp: gate_ok_def in_phase_simps(3) [OF d])
    from gate_inv_phase [OF inv t(1) this] False show ?thesis by (simp add: try_admit_def Let_def)
  qed
qed

lemma gate_inv_grant:
  assumes inv: "gate_inv s"
  shows "gate_inv (grant g s)"
proof (cases "gate_holder (gates s g) = None \<and> gate_queue (gates s g) \<noteq> []")
  case True
  then obtain i rest where q: "gate_holder (gates s g) = None" "gate_queue (gates s g) = i # rest"
    by (cases "gate_queue (gates s g)") auto
  have "i \<in> set (gate_queue (gates s g))" using q by simp
  moreover have "gate_ok (tasks s) g (gates s g)" using inv by (simp add: gate_inv_def)
  ultimately have "in_phase (tasks s) g Queued i" by (simp add: gate_ok_def)
  then obtain t where t: "t \<in> set (tasks s)" "i = task_id t" "task_gate t = g" "task_phase t = Queued"
    unfolding in_phase_def by blast
  note d = gate_inv_parts(1) [OF inv t(1)] t(1) and ok = gate_inv_parts(2) [OF inv t(1)]
  have "gate_ok (set_phase (task_id t) Running (tasks s)) (task_gate t) ((gates s g)\<lparr>gate_holder := Some i, gate_queue := rest\<rparr>)"
    using ok q t admitted_drop [OF d, of g] admitted_set_phase [OF d, of Running g] in_phase_simps(1) [OF d]
    by (auto simp: gate_ok_def in_phase_simps(3) [OF d])
  from gate_inv_phase [OF inv t(1) this] q t show ?thesis by (simp add: grant_def)
next
  case False
  then have "grant g s = s" by (auto simp: grant_def split: list.splits option.splits)
  with inv show ?thesis by simp
qed

lemma gate_inv_leave:
  assumes inv: "gate_inv s" and t: "t \<in> set (tasks s)"
  shows "gate_inv (leave t s)"
proof -
  note d = gate_inv_parts(1) [OF inv t] t and ok = gate_inv_parts(2) [OF inv t]
  let ?g = "gates s (task_gate t)"
  let ?ok = "gate_ok (drop_task (task_id t) (tasks s)) (task_gate t)"
  note facts = ok admitted_drop [OF d, of "task_gate t"] in_phase_simps(1) [OF d]
  show ?thesis
  proof (cases "task_phase t")
    case Entered
    have "?ok ?g" using gate_ok_drop_other [OF d ok] Entered by simp
    from gate_inv_drop [OF inv t this] Entered show ?thesis by (simp add: leave_def Let_def)
  next
    case Queued
    have "?ok (?g\<lparr>gate_permits := gate_permits ?g + 1, gate_queue := removeAll (task_id t) (gate_queue ?g)\<rparr>)"
      using facts Queued by (auto simp: gate_ok_def in_phase_simps(2) [OF d] distinct_removeAll)
    from gate_inv_drop [OF inv t this] Queued show ?thesis by (simp add: leave_def Let_def)
  next
    case Running
    then have "gate_holder ?g = Some (task_id t)" using facts by (simp add: gate_ok_def)
    with ok have "in_phase (tasks s) (task_gate t) Running i \<Longrightarrow> i = task_id t" for i
      unfolding gate_ok_def by (metis option.inject)
    then have "?ok (?g\<lparr>gate_permits := gate_permits ?g + 1, gate_holder := None\<rparr>)"
      using facts Running by (auto simp: gate_ok_def in_phase_simps(2) [OF d])
    from gate_inv_drop [OF inv t this] Running show ?thesis by (simp add: leave_def Let_def)
  qed
qed

lemma gate_inv_reachable: "gate_reachable s \<Longrightarrow> gate_inv s"
proof (induction rule: gate_reachable.induct)
  case (step s s')
  from step.hyps(2) step.IH show ?case
    by (cases rule: gate_step.cases) (auto intro: gate_inv_enter gate_inv_admit gate_inv_grant gate_inv_leave)
qed (rule gate_inv_new)

lemma length_filter_imp: "(\<And>x. x \<in> set xs \<Longrightarrow> P x \<Longrightarrow> Q x) \<Longrightarrow> length (filter P xs) \<le> length (filter Q xs)"
  by (induction xs) (auto intro: le_SucI)

text \<open>
  Claim C7. Single execution: in every reachable state at most one task of an actor runs, and at
  most 33 tasks of an actor are admitted, although the gate of an actor is dropped and recreated
  when no task refers to it.
\<close>

theorem actor_mutual_exclusion:
  assumes "gate_reachable s"
  shows "(\<forall>t \<in> set (tasks s). \<forall>u \<in> set (tasks s).
      task_key t = task_key u \<longrightarrow> task_phase t = Running \<longrightarrow> task_phase u = Running \<longrightarrow> t = u) \<and>
    length (filter (\<lambda>t. task_key t = k \<and> task_phase t \<noteq> Entered) (tasks s)) \<le> 33"
proof (intro conjI ballI impI)
  have inv: "gate_inv s" using assms by (rule gate_inv_reachable)
  fix t u assume t: "t \<in> set (tasks s)" "u \<in> set (tasks s)" "task_key t = task_key u" "task_phase t = Running" "task_phase u = Running"
  have "task_gate t = task_gate u" using inv t(1-3) unfolding gate_inv_def by (metis option.inject)
  moreover have "gate_holder (gates s (task_gate t)) = Some (task_id t)" "gate_holder (gates s (task_gate u)) = Some (task_id u)"
    using gate_inv_parts(2) [OF inv] t unfolding gate_ok_def in_phase_def by blast+
  ultimately show "t = u" using task_id_inj [OF gate_inv_parts(1) [OF inv t(1)] t(1,2)] by simp
next
  have inv: "gate_inv s" using assms by (rule gate_inv_reachable)
  show "length (filter (\<lambda>t. task_key t = k \<and> task_phase t \<noteq> Entered) (tasks s)) \<le> 33" (is "length (filter ?P _) \<le> _")
  proof (cases "locks s k")
    case None
    then have "filter ?P (tasks s) = []" using inv by (auto simp: gate_inv_def filter_empty_conv)
    then show ?thesis by simp
  next
    case (Some g)
    then have "length (filter ?P (tasks s)) \<le> admitted (tasks s) g"
      unfolding admitted_def using inv by (intro length_filter_imp) (auto simp: gate_inv_def)
    also have "\<dots> \<le> 33" using inv by (auto simp: gate_inv_def gate_ok_def dest: spec [of _ g])
    finally show ?thesis .
  qed
qed

lemma same_gate_same_key:
  "gate_inv s \<Longrightarrow> t \<in> set (tasks s) \<Longrightarrow> u \<in> set (tasks s) \<Longrightarrow> task_gate t = task_gate u \<longleftrightarrow> task_key t = task_key u"
  unfolding gate_inv_def by (metis option.inject)

text \<open>
  Claim C25. The gate refuses and delays no more than it must: a call is answered \<^verbatim>\<open>Full\<close> only when
  33 tasks of its actor are admitted, and while a task of an actor is queued either one of the
  actor's tasks runs or the next grant makes one run.
\<close>

theorem gate_progress:
  assumes "gate_reachable s" "t \<in> set (tasks s)"
  shows "(task_id t \<notin> task_id ` set (tasks (try_admit t s)) \<longrightarrow>
      length (filter (\<lambda>u. task_key u = task_key t \<and> task_phase u \<noteq> Entered) (tasks s)) = 33) \<and>
    (task_phase t = Queued \<longrightarrow> (\<forall>u \<in> set (tasks s). task_key u = task_key t \<longrightarrow> task_phase u \<noteq> Running) \<longrightarrow>
      (\<exists>u \<in> set (tasks (grant (task_gate t) s)). task_key u = task_key t \<and> task_phase u = Running))"
proof (intro conjI impI)
  have inv: "gate_inv s" using assms(1) by (rule gate_inv_reachable)
  note d = gate_inv_parts(1) [OF inv assms(2)] assms(2) and ok = gate_inv_parts(2) [OF inv assms(2)]
  { assume "task_id t \<notin> task_id ` set (tasks (try_admit t s))"
    moreover have "task_id ` set (set_phase i p (tasks s)) = task_id ` set (tasks s)" for i p
      by (simp flip: set_map)
    ultimately have "gate_permits (gates s (task_gate t)) = 0"
      using assms(2) by (auto simp: try_admit_def Let_def split: if_splits)
    moreover have "filter (\<lambda>u. task_key u = task_key t \<and> task_phase u \<noteq> Entered) (tasks s) =
        filter (\<lambda>u. task_gate u = task_gate t \<and> task_phase u \<noteq> Entered) (tasks s)"
      using same_gate_same_key [OF inv _ assms(2)] by (intro filter_cong) auto
    ultimately show "length (filter (\<lambda>u. task_key u = task_key t \<and> task_phase u \<noteq> Entered) (tasks s)) = 33"
      using ok by (simp add: gate_ok_def admitted_def) }
  { assume q: "task_phase t = Queued" and none: "\<forall>u \<in> set (tasks s). task_key u = task_key t \<longrightarrow> task_phase u \<noteq> Running"
    let ?g = "gates s (task_gate t)"
    have "task_id t \<in> set (gate_queue ?g)" using ok q in_phase_simps(1) [OF d] by (simp add: gate_ok_def)
    then obtain i rest where rest: "gate_queue ?g = i # rest" by (cases "gate_queue ?g") auto
    then have "in_phase (tasks s) (task_gate t) Queued i" using ok unfolding gate_ok_def by (metis list.set_intros(1))
    then obtain u where u: "u \<in> set (tasks s)" "task_id u = i" "task_gate u = task_gate t" by (auto simp: in_phase_def)
    have "gate_holder ?g = None"
    proof (rule ccontr)
      assume "gate_holder ?g \<noteq> None"
      then obtain j where "gate_holder ?g = Some j" by auto
      then have "in_phase (tasks s) (task_gate t) Running j" using ok by (auto simp: gate_ok_def)
      with none same_gate_same_key [OF inv _ assms(2)] show False by (auto simp: in_phase_def)
    qed
    with rest have "tasks (grant (task_gate t) s) = set_phase (task_id u) Running (tasks s)" using u by (simp add: grant_def)
    then show "\<exists>u \<in> set (tasks (grant (task_gate t) s)). task_key u = task_key t \<and> task_phase u = Running"
      using u same_gate_same_key [OF inv u(1) assms(2)] by (auto simp: set_set_phase [OF d(1) u(1)]) }
qed

section \<open>Concrete runs\<close>

abbreviation (input) gate_key :: actor_storage_key where "gate_key \<equiv> ActorStorageKey ''ns.T.a''"

text \<open>Two tasks of one actor: the first runs, the second is queued.\<close>

definition one_gate :: "execution_gate \<Rightarrow> (nat \<times> task_phase) list \<Rightarrow> execution_locks" where
  "one_gate g ts = \<lparr>locks = [gate_key \<mapsto> 0], gates = (\<lambda>_. fresh_gate)(0 := g), next_gate = 1,
     tasks = map (\<lambda>(i, p). \<lparr>task_id = i, task_key = gate_key, task_gate = 0, task_phase = p\<rparr>) ts\<rparr>"

definition two_tasks :: execution_locks where
  "two_tasks = one_gate \<lparr>gate_permits = 31, gate_queue = [2], gate_holder = Some 1\<rparr> [(1, Running), (2, Queued)]"

abbreviation (input) entered :: "nat \<Rightarrow> gate_task" where
  "entered i \<equiv> \<lparr>task_id = i, task_key = gate_key, task_gate = 0, task_phase = Entered\<rparr>"

lemma two_tasks_reachable: "gate_reachable two_tasks"
proof -
  have a: "enter_gate 1 gate_key locks_new = one_gate fresh_gate [(1, Entered)]"
    by (simp add: enter_gate_def retain_live_def locks_new_def one_gate_def)
  have b: "enter_gate 2 gate_key (one_gate fresh_gate [(1, Entered)]) = one_gate fresh_gate [(1, Entered), (2, Entered)]"
    by (simp add: enter_gate_def retain_live_def strong_count_def one_gate_def Let_def fun_eq_iff)
  have c: "try_admit (entered 1) (one_gate fresh_gate [(1, Entered), (2, Entered)]) =
      one_gate \<lparr>gate_permits = 32, gate_queue = [1], gate_holder = None\<rparr> [(1, Queued), (2, Entered)]"
    by (simp add: try_admit_def one_gate_def fresh_gate_def set_phase_def Let_def)
  have d: "try_admit (entered 2) (one_gate \<lparr>gate_permits = 32, gate_queue = [1], gate_holder = None\<rparr> [(1, Queued), (2, Entered)]) =
      one_gate \<lparr>gate_permits = 31, gate_queue = [1, 2], gate_holder = None\<rparr> [(1, Queued), (2, Queued)]"
    by (simp add: try_admit_def one_gate_def set_phase_def Let_def)
  have e: "grant 0 (one_gate \<lparr>gate_permits = 31, gate_queue = [1, 2], gate_holder = None\<rparr> [(1, Queued), (2, Queued)]) = two_tasks"
    by (simp add: grant_def one_gate_def two_tasks_def set_phase_def)
  note reach = gate_reachable.step
  from gate_reachable.init have "gate_reachable (enter_gate 1 gate_key locks_new)"
    by (rule reach) (rule gate_step.enter, simp add: locks_new_def)
  then have "gate_reachable (enter_gate 2 gate_key (one_gate fresh_gate [(1, Entered)]))"
    unfolding a by (rule reach) (rule gate_step.enter, simp add: one_gate_def)
  then have "gate_reachable (try_admit (entered 1) (one_gate fresh_gate [(1, Entered), (2, Entered)]))"
    unfolding b by (rule reach) (rule gate_step.admit, simp_all add: one_gate_def)
  then have "gate_reachable (try_admit (entered 2) (one_gate \<lparr>gate_permits = 32, gate_queue = [1], gate_holder = None\<rparr> [(1, Queued), (2, Entered)]))"
    unfolding c by (rule reach) (rule gate_step.admit, simp_all add: one_gate_def)
  then show ?thesis unfolding d e [symmetric] by (rule reach) (rule gate_step.grant)
qed

theorem actor_mutual_exclusion_witness:
  "length (filter (\<lambda>t. task_key t = gate_key \<and> task_phase t \<noteq> Entered) (tasks two_tasks)) = 2 \<and>
   map task_id (filter (\<lambda>u. task_phase u = Running) (tasks two_tasks)) = [1]"
  using actor_mutual_exclusion [OF two_tasks_reachable, of gate_key] by (simp add: two_tasks_def one_gate_def)

theorem gate_progress_witness:
  "\<exists>u \<in> set (tasks (grant 0 (leave (hd (tasks two_tasks)) two_tasks))). task_key u = gate_key \<and> task_phase u = Running"
proof -
  let ?s = "leave (hd (tasks two_tasks)) two_tasks"
  have r: "gate_reachable ?s"
    by (rule gate_reachable.step [OF two_tasks_reachable gate_step.leave]) (simp add: two_tasks_def one_gate_def)
  have t: "tasks ?s = [\<lparr>task_id = 2, task_key = gate_key, task_gate = 0, task_phase = Queued\<rparr>]"
    by (simp add: two_tasks_def one_gate_def leave_def drop_task_def Let_def)
  have "hd (tasks ?s) \<in> set (tasks ?s)" by (simp add: t)
  from gate_progress [OF r this] show ?thesis by (simp add: t)
qed

end
