(* ===== verification/System.thy ===== *)
theory System
  imports Client Actor_Host Execution_Gate
begin

text \<open>
  The whole path of an invocation: an actor host whose commit authority is the control-plane client,
  whose RPCs reach the control plane's handler on the database, and whose state transport talks
  HTTP to the object store. A run is driven by the list of its RPCs to come: for each one whether
  the network delivers the request and the reply, the clock readings and the nonce the control plane
  draws, and what the database does for other connections between two statements of the handler.
  When the list is exhausted the control plane is unreachable.
\<close>

datatype delivery = Delivered | RequestLost | ReplyLost

record call =
  call_delivery :: delivery
  call_ambient :: ambient
  call_others :: "lease_op placement_op list"

text \<open>The executor that runs the actor's code, with its own state.\<close>

record 'x executor =
  exec_supports :: "string \<Rightarrow> bool"
  exec_invoke :: "actor_method_invocation \<Rightarrow> 'x \<Rightarrow> actor_method_outcome result \<times> 'x"
  exec_handle_socket :: "actor_socket_invocation \<Rightarrow> 'x \<Rightarrow> actor_socket_outcome result \<times> 'x"
  exec_evict :: "actor_key \<Rightarrow> 'x \<Rightarrow> unit result \<times> 'x"

record 'x system =
  sys_db :: database
  sys_objects :: "string \<rightharpoonup> string"
  sys_calls :: "call list"
  sys_millis :: "i64 result"
  sys_executor :: 'x

definition status_error :: "grpc_status \<Rightarrow> error" where
  "status_error st = (case st of
     Unauthenticated m \<Rightarrow> Bail m | InvalidArgument m \<Rightarrow> Bail m | FailedPrecondition m \<Rightarrow> Bail m | Internal m \<Rightarrow> Bail m
   | PermissionDenied m \<Rightarrow> Bail m | Unavailable m \<Rightarrow> Bail m)"

definition unreachable :: error where
  "unreachable = Bail ''control plane is unreachable''"

definition sys_rpc :: "('sk, 'vk) control_plane \<Rightarrow> command_codec \<Rightarrow> 'x system rpc" where
  "sys_rpc cp codec authorization bytes w =
     (case sys_calls w of
        [] \<Rightarrow> (Inl unreachable, w)
      | c # rest \<Rightarrow>
          (let w1 = w\<lparr>sys_calls := rest\<rparr> in
           if call_delivery c = RequestLost then (Inl unreachable, w1)
           else (case cp_execute cp codec (call_ambient c) (fold db_apply (call_others c)) (Some (Inr authorization)) bytes (sys_db w) of
                   (reply, db') \<Rightarrow>
                     ((if call_delivery c = ReplyLost then Inl unreachable
                       else map_error status_error reply), w1\<lparr>sys_db := db'\<rparr>))))"

definition on_executor :: "('x \<Rightarrow> 'a \<times> 'x) \<Rightarrow> 'x system \<Rightarrow> 'a \<times> 'x system" where
  "on_executor f w = (case f (sys_executor w) of (r, x) \<Rightarrow> (r, w\<lparr>sys_executor := x\<rparr>))"

definition sys_env ::
    "('sk, 'vk) control_plane \<Rightarrow> command_codec \<Rightarrow> cp_client \<Rightarrow> 'x system http_client \<Rightarrow> snapshot_codec \<Rightarrow> (string \<Rightarrow> string result)
     \<Rightarrow> 'x executor \<Rightarrow> 'x system host_env" where
  "sys_env cp codec client http snapshots base64 exec =
     \<lparr>env_supports = exec_supports exec,
      env_invoke = (\<lambda>m. on_executor (exec_invoke exec m)),
      env_handle_socket = (\<lambda>m. on_executor (exec_handle_socket exec m)),
      env_evict = (\<lambda>a. on_executor (exec_evict exec a)),
      env_prepare_state_write = client_prepare_state_write codec (sys_rpc cp codec) client,
      env_commit_state = (\<lambda>a h e v name req w.
        case client_commit_state codec (sys_rpc cp codec) client a h e v name req w of
          (r, w') \<Rightarrow> (and_then r (\<lambda>(version, next_write). Inr \<lparr>com_state_version = version, com_next_write = next_write\<rparr>), w')),
      env_read = transport_read http,
      env_write = transport_write http,
      env_unix_millis = sys_millis,
      env_codec = snapshots,
      env_base64 = base64\<rparr>"

section \<open>The invariant of the world\<close>

definition names_nonce :: "string \<Rightarrow> string \<Rightarrow> bool" where
  "names_nonce nonce name \<longleftrightarrow> (\<exists>a v. snapshot_object_name a v nonce = Inr name)"

definition call_nonce :: "call \<Rightarrow> string" where
  "call_nonce c = amb_nonce (call_ambient c)"

text \<open>The nonces to come are pairwise different and no stored object carries one of them.\<close>

definition sys_sound :: "'x system \<Rightarrow> bool" where
  "sys_sound w \<longleftrightarrow> db_ok (sys_db w) \<and> distinct (map call_nonce (sys_calls w)) \<and>
     (\<forall>n name. n \<in> call_nonce ` set (sys_calls w) \<longrightarrow> names_nonce n name \<longrightarrow> sys_objects w name = None)"

definition sys_committed :: "'x system \<Rightarrow> actor_storage_key \<Rightarrow> (u64 \<times> string \<times> string) option" where
  "sys_committed w k =
     Option.bind (head (sys_db w) k) (\<lambda>p.
     Option.bind (pl_state_object p) (\<lambda>name.
     map_option (\<lambda>req. (pl_state_version p, name, req)) (pl_last_request_id p)))"

text \<open>The URL of a ticket is one the signer gave for creating the object the ticket names.\<close>

definition creates_object :: "signed_url_request \<Rightarrow> bool" where
  "creates_object r \<longleftrightarrow> sign_method r = PUT \<and> sign_query r = [(''ifGenerationMatch'', ''0'')]"

definition sys_usable :: "url_signer \<Rightarrow> 'x system \<Rightarrow> state_write_ticket \<Rightarrow> bool" where
  "sys_usable sign w t \<longleftrightarrow>
     (\<exists>r. creates_object r \<and> sign r = Inr (ticket_url t) \<and> sign_object r = ticket_object_name t) \<and>
     sys_objects w (ticket_object_name t) = None \<and>
     (\<exists>n. names_nonce n (ticket_object_name t) \<and> n \<notin> call_nonce ` set (sys_calls w))"

text \<open>
  The object store's documented behaviour: a GET returns the bytes of some object and changes
  nothing; a PUT to a signed URL with \<^verbatim>\<open>ifGenerationMatch=0\<close> for a name that is not taken either
  stores the bytes under that name, whatever the client then learns, or fails without effect and
  does not answer with success or 412.
\<close>

definition store_faithful :: "url_signer \<Rightarrow> 'x system http_client \<Rightarrow> bool" where
  "store_faithful sign http \<longleftrightarrow>
     (\<forall>url w. snd (http_send http (HttpGet url) w) = w \<and>
        (\<forall>r bytes. fst (http_send http (HttpGet url) w) = Inr r \<longrightarrow> is_success (resp_status r) \<longrightarrow> resp_body r = Inr bytes \<longrightarrow>
           (\<exists>name. sys_objects w name = Some bytes))) \<and>
     (\<forall>q url hs bytes w. creates_object q \<longrightarrow> sign q = Inr url \<longrightarrow> sys_objects w (sign_object q) = None \<longrightarrow>
        snd (http_send http (HttpPut url hs bytes) w) = w\<lparr>sys_objects := (sys_objects w)(sign_object q \<mapsto> bytes)\<rparr> \<or>
        snd (http_send http (HttpPut url hs bytes) w) = w \<and>
        (\<forall>r. fst (http_send http (HttpPut url hs bytes) w) = Inr r \<longrightarrow> \<not> is_success (resp_status r) \<and> resp_status r \<noteq> 412))"

section \<open>Commands through the client\<close>

lemma others_ok: "db_ok db \<Longrightarrow> db_ok (fold db_apply ops db)"
  by (rule db_run_ok)

lemma execute_command_db_ok:
  assumes env: "\<And>db. db_ok db \<Longrightarrow> db_ok (env db)" and ok: "db_ok db"
  shows "db_ok (snd (execute_command cp amb env prin command db))"
proof (cases "prin_process_role prin = Host")
  case True
  show ?thesis
  proof (cases command)
    case (RegisterLease request)
    have "db_ok (snd (register_lease cp amb prin request db))"
      using register_db_ok [OF ok, of "amb_lease_now amb" "amb_commit_now amb" request] ok
      by (auto simp: register_lease_def split: sum.splits prod.splits)
    with True RegisterLease show ?thesis by (simp add: execute_command_def)
  next
    case (UnregisterLease h)
    have "db_ok (snd (unregister_lease prin h db))"
      using unregister_db_ok [OF ok, of h "prin_session_id prin"] ok
      by (auto simp: unregister_lease_def split: sum.splits prod.splits)
    with True UnregisterLease show ?thesis by (simp add: execute_command_def)
  next
    case (PrepareStateWrite actor h e v)
    with True ok env show ?thesis by (auto simp: execute_command_def prepare_state_write_def split: sum.splits)
  next
    case (CommitState actor h e v name req)
    have "db_ok (snd (commit_state env t q (env db)))" for t q
      using commit_step [of "env db" env t q, OF _ _ surjective_pairing] ok env by auto
    then have "db_ok (snd (cp_commit_state cp amb env prin actor h e v name req db))"
      using ok by (auto simp: cp_commit_state_def split: sum.splits prod.splits state_commit.splits) (metis snd_conv)+
    with True CommitState show ?thesis by (simp add: execute_command_def)
  qed
qed (use ok in \<open>simp add: execute_command_def\<close>)

lemma cp_execute_db_ok:
  assumes "\<And>db. db_ok db \<Longrightarrow> db_ok (env db)" "db_ok db"
  shows "db_ok (snd (cp_execute cp codec amb env metadata bytes db))"
proof -
  have "execute_command cp amb env prin command db = (r, db') \<Longrightarrow> db_ok db'" for prin command r db'
    using execute_command_db_ok [of env db cp amb prin command] assms by simp
  with assms(2) show ?thesis by (auto simp: cp_execute_def split: sum.splits prod.splits)
qed

lemma cp_execute_Inr:
  assumes "cp_execute cp codec amb env metadata bytes db = (Inr reply, db')"
  obtains prin command r where "dec_command codec bytes = Inr command"
    "execute_command cp amb env prin command db = (Inr r, db')" "enc_reply codec r = Inr reply"
  using assms by (auto simp: cp_execute_def map_error_def split: sum.splits prod.splits)

text \<open>A call that answers: it was the next one, the handler ran the command, and the reply is what it returned.\<close>

lemma sys_call_Inr:
  assumes codec: "wire_inverse codec"
    and run: "client_execute codec (sys_rpc cp codec) client command w = (Inr r, w')"
  obtains c rest prin db' where "sys_calls w = c # rest"
    "execute_command cp (call_ambient c) (fold db_apply (call_others c)) prin command (sys_db w) = (Inr r, db')"
    "w' = w\<lparr>sys_calls := rest, sys_db := db'\<rparr>"
proof -
  from run obtain bytes reply where enc: "enc_command codec command = Inr bytes"
    and rpc: "sys_rpc cp codec (cl_authorization client) bytes w = (Inr reply, w')" and dec: "dec_reply codec reply = Inr r"
    by (rule client_execute_Inr)
  from rpc obtain c rest db' where c: "sys_calls w = c # rest" "w' = w\<lparr>sys_calls := rest, sys_db := db'\<rparr>"
    and exec: "cp_execute cp codec (call_ambient c) (fold db_apply (call_others c)) (Some (Inr (cl_authorization client))) bytes (sys_db w)
      = (Inr reply, db')"
    by (auto simp: sys_rpc_def Let_def map_error_def split: list.splits if_splits prod.splits sum.splits)
  from exec obtain prin command' r' where "dec_command codec bytes = Inr command'"
    "execute_command cp (call_ambient c) (fold db_apply (call_others c)) prin command' (sys_db w) = (Inr r', db')" "enc_reply codec r' = Inr reply"
    by (rule cp_execute_Inr)
  with enc dec codec have "execute_command cp (call_ambient c) (fold db_apply (call_others c)) prin command (sys_db w) = (Inr r, db')"
    by (auto simp: wire_inverse_def)
  with c show thesis by (intro that)
qed

text \<open>Answered or not, a call consumes at most the next of the list and leaves the objects alone.\<close>

lemma sys_call_frame:
  assumes sound: "sys_sound w" and run: "client_execute codec (sys_rpc cp codec) client command w = (r, w')"
  shows "frame sys_sound sys_objects (sys_usable sign) w w'"
proof -
  have rpc: "frame sys_sound sys_objects (sys_usable sign) w (snd (sys_rpc cp codec a b w))" for a b
  proof (cases "sys_calls w")
    case Nil
    with sound show ?thesis by (simp add: sys_rpc_def frame_def)
  next
    case (Cons c rest)
    have "db_ok (snd (cp_execute cp codec (call_ambient c) (fold db_apply (call_others c)) (Some (Inr a)) b (sys_db w)))"
      by (rule cp_execute_db_ok) (use sound in \<open>auto simp: sys_sound_def intro: others_ok\<close>)
    with Cons sound show ?thesis
      by (auto simp: sys_rpc_def frame_def Let_def sys_sound_def sys_usable_def split: prod.splits)
  qed
  from client_execute_world [OF run] rpc sound show ?thesis by (auto simp: frame_def)
qed

lemma ticket_usable:
  assumes sound: "sys_sound w" and calls: "sys_calls w = c # rest"
    and ticket: "cp_state_write_ticket cp (call_ambient c) region actor v = Inr t"
  shows "sys_usable (cp_sign cp) (w\<lparr>sys_calls := rest, sys_db := db'\<rparr>) t"
proof -
  from ticket obtain ver where w: "write_ticket (cp_buckets cp) (cp_sign cp) (call_nonce c) (amb_millis (call_ambient c)) region actor ver = Inr t"
    by (auto simp: cp_state_write_ticket_def result_simps call_nonce_def split: if_splits)
  obtain b where "cp_sign cp \<lparr>sign_bucket = b, sign_object = ticket_object_name t, sign_method = PUT, sign_ttl_secs = 60,
      sign_headers = [(''content-type'', ''application/json'')], sign_query = [(''ifGenerationMatch'', ''0'')]\<rparr> = Inr (ticket_url t)"
    using w by (rule write_ticket_signed)
  then have "\<exists>r. creates_object r \<and> cp_sign cp r = Inr (ticket_url t) \<and> sign_object r = ticket_object_name t"
    by (intro exI) (auto simp: creates_object_def)
  moreover have named: "names_nonce (call_nonce c) (ticket_object_name t)"
    using write_ticket_ok(2) [OF w] by (auto simp: names_nonce_def)
  moreover have "call_nonce c \<notin> call_nonce ` set rest" using sound calls by (auto simp: sys_sound_def)
  ultimately show ?thesis using sound calls by (auto simp: sys_usable_def sys_sound_def)
qed

lemma commit_command_reply:
  assumes ok: "db_ok db" "\<And>d. db_ok d \<Longrightarrow> db_ok (env d)"
    and run: "execute_command cp amb env prin (CommitState a h e v name req) db = (Inr (StateCommitted ver nw), db')"
  obtains p where "head db' (storage_key a) = Some p" "pl_state_version p = ver" "pl_state_object p = Some name"
    "pl_last_request_id p = Some req" "nw = ok (cp_state_write_ticket cp amb (pl_home_region p) a ver)"
proof -
  from run have "cp_commit_state cp amb env prin a h e v name req db = (Inr (StateCommitted ver nw), db')"
    by (auto simp: execute_command_def split: if_splits)
  then show thesis
  proof (rule cp_commit_state_Inr)
    fix l p
    assume committed: "commit_state env (amb_commit_now amb) (commit_request prin a h e v name req) (env db) = (Inr (Committed p), db')"
      and reply: "StateCommitted ver nw = StateCommitted (pl_state_version p) (ok (cp_state_write_ticket cp amb (pl_home_region p) a (pl_state_version p)))"
    from commit_committed [OF _ _ committed] ok reply show thesis by (intro that [of p]) auto
  qed
qed

lemma prepare_command_reply:
  assumes "execute_command cp amb env prin (PrepareStateWrite a h e v) db = (Inr (StateWriteTicketReply t), db')"
  obtains region where "cp_state_write_ticket cp amb region a v = Inr t"
  using assms by (auto simp: execute_command_def prepare_state_write_def result_simps split: if_splits sum.splits)

lemma sys_write:
  assumes store: "store_faithful sign http" and sound: "sys_sound w" and t: "sys_usable sign w t"
    and run: "transport_write http (ticket_url t) bytes w = (r, w')"
  shows "sys_sound w' \<and> sys_committed w' = sys_committed w \<and> sys_objects w (ticket_object_name t) = None \<and>
    (sys_objects w' = sys_objects w \<and> (\<forall>x. r \<noteq> Inr x) \<or> sys_objects w' = (sys_objects w)(ticket_object_name t \<mapsto> bytes))"
proof -
  from t obtain q n where q: "creates_object q" "sign q = Inr (ticket_url t)" "sign_object q = ticket_object_name t"
    and free: "sys_objects w (ticket_object_name t) = None"
    and n: "names_nonce n (ticket_object_name t)" "n \<notin> call_nonce ` set (sys_calls w)"
    by (auto simp: sys_usable_def)
  let ?w = "w\<lparr>sys_objects := (sys_objects w)(ticket_object_name t \<mapsto> bytes)\<rparr>"
  have other: "\<not> names_nonce n' (ticket_object_name t)" if "n' \<in> call_nonce ` set (sys_calls w)" for n'
  proof
    assume "names_nonce n' (ticket_object_name t)"
    then have "n' = n" using n(1) snapshot_name_determines unfolding names_nonce_def by blast
    with that n(2) show False by simp
  qed
  have "sys_sound ?w" using sound other by (auto simp: sys_sound_def)
  moreover have "sys_committed ?w = sys_committed w" by (simp add: sys_committed_def fun_eq_iff)
  moreover have "w' = w \<and> (\<forall>x. r \<noteq> Inr x) \<or> w' = ?w"
  proof -
    let ?send = "http_send http (HttpPut (ticket_url t) [(''content-type'', ''application/json'')] bytes) w"
    have "snd ?send = ?w \<or> snd ?send = w \<and> (\<forall>r. fst ?send = Inr r \<longrightarrow> \<not> is_success (resp_status r) \<and> resp_status r \<noteq> 412)"
      using store q(1,2) free unfolding q(3) [symmetric] store_faithful_def by blast
    with run show ?thesis
      by (auto simp: transport_write_def result_simps split: sum.splits prod.splits if_splits)
  qed
  ultimately show ?thesis using sound free by auto
qed

lemma sys_read:
  assumes store: "store_faithful sign http" and run: "transport_read http url w = (r, w')"
  shows "w' = w \<and> (\<forall>bytes. r = Inr bytes \<longrightarrow> (\<exists>name. sys_objects w name = Some bytes))"
proof -
  have "snd (http_send http (HttpGet url) w) = w" using store by (simp add: store_faithful_def)
  then have "w' = w" using run by (auto simp: transport_read_def split: sum.splits prod.splits)
  moreover have "\<exists>name. sys_objects w name = Some bytes" if "r = Inr bytes" for bytes
    using transport_read_Inr [of http url w bytes] run that store by (auto simp: store_faithful_def)
  ultimately show ?thesis by blast
qed

lemma on_executor_frame:
  assumes "sys_sound w" "on_executor f w = (r, w')"
  shows "frame sys_sound sys_objects (sys_usable sign) w w' \<and> sys_committed w' = sys_committed w"
proof -
  obtain x where w': "w' = w\<lparr>sys_executor := x\<rparr>" using assms(2) by (auto simp: on_executor_def split: prod.splits)
  have "sys_sound w' = sys_sound w" "sys_usable sign w' = sys_usable sign w"
    unfolding w' by (simp_all add: sys_sound_def sys_usable_def fun_eq_iff)
  with assms(1) show ?thesis by (simp add: frame_def w' sys_committed_def fun_eq_iff)
qed

section \<open>The control plane is a commit authority\<close>

text \<open>A commit that is answered was executed by the control plane on the database of one of the calls.\<close>

lemma sys_commit_executed:
  assumes codec: "wire_inverse codec" and run: "env_commit_state (sys_env cp codec client http snapshots base64 exec) a h e v name req w = (Inr c, w')"
  obtains x rest prin db' where "sys_calls w = x # rest" "w' = w\<lparr>sys_calls := rest, sys_db := db'\<rparr>"
    "execute_command cp (call_ambient x) (fold db_apply (call_others x)) prin (CommitState a h e v name req) (sys_db w)
       = (Inr (StateCommitted (com_state_version c) (com_next_write c)), db')"
proof -
  have "client_execute codec (sys_rpc cp codec) client (CommitState a h e v name req) w
      = (Inr (StateCommitted (com_state_version c) (com_next_write c)), w')"
    using run by (auto simp: sys_env_def result_simps client_commit_Inr split: prod.splits)
  from codec this show thesis by (rule sys_call_Inr) (rule that)
qed

lemma sys_commit_head:
  assumes codec: "wire_inverse codec" and sound: "sys_sound w"
    and run: "env_commit_state (sys_env cp codec client http snapshots base64 exec) a h e v name req w = (Inr c, w')"
  shows "sys_committed w' (storage_key a) = Some (com_state_version c, name, req)"
proof -
  obtain x rest prin db' where "sys_calls w = x # rest" and w': "w' = w\<lparr>sys_calls := rest, sys_db := db'\<rparr>"
    and exec: "execute_command cp (call_ambient x) (fold db_apply (call_others x)) prin (CommitState a h e v name req) (sys_db w)
        = (Inr (StateCommitted (com_state_version c) (com_next_write c)), db')"
    by (rule sys_commit_executed [OF codec run])
  have ok: "db_ok (sys_db w)" using sound by (simp add: sys_sound_def)
  obtain p where "head db' (storage_key a) = Some p" "pl_state_version p = com_state_version c" "pl_state_object p = Some name"
    "pl_last_request_id p = Some req"
    by (rule commit_command_reply [OF ok others_ok exec])
  then show ?thesis unfolding w' by (simp add: sys_committed_def)
qed

lemma sys_commit_ticket:
  assumes codec: "wire_inverse codec" and sound: "sys_sound w"
    and run: "env_commit_state (sys_env cp codec client http snapshots base64 exec) a h e v name req w = (Inr c, w')" "com_next_write c = Some t"
  shows "sys_usable (cp_sign cp) w' t"
proof -
  obtain x rest prin db' where calls: "sys_calls w = x # rest" and w': "w' = w\<lparr>sys_calls := rest, sys_db := db'\<rparr>"
    and exec: "execute_command cp (call_ambient x) (fold db_apply (call_others x)) prin (CommitState a h e v name req) (sys_db w)
        = (Inr (StateCommitted (com_state_version c) (com_next_write c)), db')"
    by (rule sys_commit_executed [OF codec run(1)])
  have ok: "db_ok (sys_db w)" using sound by (simp add: sys_sound_def)
  obtain region where "com_next_write c = ok (cp_state_write_ticket cp (call_ambient x) region a (com_state_version c))"
    by (rule commit_command_reply [OF ok others_ok exec])
  then have "cp_state_write_ticket cp (call_ambient x) region a (com_state_version c) = Inr t"
    using run(2) by (auto simp: ok_def split: sum.splits)
  from ticket_usable [OF sound calls this] show ?thesis unfolding w' .
qed

lemma sys_prepare_ticket:
  assumes codec: "wire_inverse codec" and sound: "sys_sound w"
    and run: "env_prepare_state_write (sys_env cp codec client http snapshots base64 exec) a h e v w = (Inr t, w')"
  shows "sys_usable (cp_sign cp) w' t"
proof -
  have "client_execute codec (sys_rpc cp codec) client (PrepareStateWrite a h e v) w = (Inr (StateWriteTicketReply t), w')"
    using run by (simp add: sys_env_def client_prepare_Inr)
  from codec this show ?thesis
    by (rule sys_call_Inr) (auto elim: prepare_command_reply intro: ticket_usable [OF sound])
qed

lemma sys_authority:
  assumes codec: "wire_inverse codec" and store: "store_faithful (cp_sign cp) http"
  shows "state_authority (sys_env cp codec client http snapshots base64 exec) sys_sound sys_committed sys_objects (sys_usable (cp_sign cp))"
proof (unfold_locales, goal_cases)
  case (1 w a h e v name req rc w')
  then show ?case
    by (auto simp: sys_env_def client_commit_state_def split: prod.splits intro: sys_call_frame)
next
  case (4 w a h e v rt w')
  then show ?case
    by (auto simp: sys_env_def client_prepare_state_write_def split: prod.splits intro: sys_call_frame)
next
  case (6 w t bytes rw w')
  then show ?case using sys_write [OF store] by (simp add: sys_env_def)
next
  case (7 w url bytes w')
  then show ?case using sys_read [OF store] by (simp add: sys_env_def)
next
  case (8 w url rb w')
  then show ?case using sys_read [OF store, of url w rb w'] by (auto simp: sys_env_def frame_def)
next
  case (9 w m ro w')
  then show ?case using on_executor_frame by (simp add: sys_env_def)
next
  case (10 w m' rs w')
  then show ?case using on_executor_frame by (simp add: sys_env_def)
next
  case (11 w a ru w')
  then show ?case using on_executor_frame by (simp add: sys_env_def)
qed (use codec in \<open>auto intro: sys_commit_head sys_commit_ticket sys_prepare_ticket\<close>)

section \<open>Acknowledged results are durable\<close>

text \<open>
  The hypotheses that recur: the codec of commands, whose values are strings and integers, reads back what it wrote, and
  the object store behaves as documented.
\<close>

definition services_faithful ::
    "('sk, 'vk) control_plane \<Rightarrow> command_codec \<Rightarrow> 'x system http_client \<Rightarrow> bool" where
  "services_faithful cp codec http \<longleftrightarrow> wire_inverse codec \<and> store_faithful (cp_sign cp) http"

text \<open>
  Claim C3. End to end: when an invocation is answered with a result, through the host, the
  client's RPCs with lost requests and lost replies, the control plane's handler interleaved with
  other connections, and the object store, then the answer is durable. If the executor ran and changed the state, the actor's
  committed head in the database names a stored snapshot that holds this request, this result and the new state. If it ran
  and kept the state, that state is the one of a stored snapshot. If it did not run, the request and the result were
  recorded before the call: in a stored snapshot that the entry the call started from shows, or in the pending snapshot of that
  entry, which is stored and now the committed head. The entry the call leaves has nothing pending and is again backed by the store.
\<close>

theorem acknowledged_is_durable:
  fixes s :: "'x system actor_host"
  assumes "services_faithful cp codec http"
    and "sys_sound (ah_world (snd (wait (begin_activity s))))"
    and "\<And>c. ah_cached_state (snd (wait (begin_activity s))) (storage_key (inv_actor inv0)) = Some c \<Longrightarrow>
      cache_backed snapshots (sys_usable (cp_sign cp) (ah_world (snd (wait (begin_activity s)))))
        (sys_objects (ah_world (snd (wait (begin_activity s))))) c"
    and "invoke_actor_once (sys_env cp codec client http snapshots base64 exec) wait inv0 e v url s = (Inr (Completed res effects), s')"
  shows "\<exists>c0 s0 c. take_or_load_state (sys_env cp codec client http snapshots base64 exec) (storage_key (inv_actor inv0)) e v url
      (snd (wait (begin_activity s))) = (Inr c0, s0) \<and>
    ah_cached_state s' (storage_key (inv_actor inv0)) = Some c \<and> ca_pending c = None \<and> ca_owner_epoch c = e \<and>
    sys_sound (ah_world s') \<and> cache_backed snapshots (sys_usable (cp_sign cp) (ah_world s')) (sys_objects (ah_world s')) c \<and>
    justified_result (sys_env cp codec client http snapshots base64 exec) (sys_objects (ah_world s'))
      (sys_committed (ah_world s') (storage_key (inv_actor inv0))) inv0 res effects c0 c"
proof -
  let ?env = "sys_env cp codec client http snapshots base64 exec"
  have codec: "env_codec ?env = snapshots" by (simp add: sys_env_def)
  have "state_authority ?env sys_sound sys_committed sys_objects (sys_usable (cp_sign cp))"
    using assms(1) by (auto simp: services_faithful_def intro: sys_authority)
  from state_authority.invoke_durable [OF this assms(2) _ assms(4), unfolded codec] assms(2,3) show ?thesis by blast
qed

lemma system_socket_durable:
  fixes s :: "'x system actor_host"
  assumes "services_faithful cp codec http"
    and "sys_sound (ah_world (snd (wait (begin_activity s))))"
    and "\<And>c. ah_cached_state (snd (wait (begin_activity s))) (storage_key (sock_actor sinv)) = Some c \<Longrightarrow>
      cache_backed snapshots (sys_usable (cp_sign cp) (ah_world (snd (wait (begin_activity s)))))
        (sys_objects (ah_world (snd (wait (begin_activity s))))) c"
    and "handle_socket_event (sys_env cp codec client http snapshots base64 exec) wait sinv e v url s = (Inr (Handled effects), s')"
  shows "\<exists>c st m x. ah_cached_state s' (storage_key (sock_actor sinv)) = Some c \<and> ca_pending c = None \<and> ca_state c = Some st \<and>
    sock_actor m = sock_actor sinv \<and> sock_request_id m = sock_request_id sinv \<and> sock_event m = sock_event sinv \<and>
    fst (exec_handle_socket exec m x) = Inr (SocketHandled st effects) \<and>
    (sock_state m = Some st \<or>
     (\<exists>name snap. sys_committed (ah_world s') (storage_key (sock_actor sinv)) = Some (ca_state_version c, name, sock_request_id sinv) \<and>
        holds_snapshot snapshots (sys_objects (ah_world s')) name snap \<and> snap_state snap = st))"
proof -
  let ?env = "sys_env cp codec client http snapshots base64 exec"
  have codec: "env_codec ?env = snapshots" by (simp add: sys_env_def)
  have exec: "fst (env_handle_socket ?env m w) = fst (exec_handle_socket exec m (sys_executor w))" for m w
    by (simp add: sys_env_def on_executor_def split: prod.splits)
  have "state_authority ?env sys_sound sys_committed sys_objects (sys_usable (cp_sign cp))"
    using assms(1) by (auto simp: services_faithful_def intro: sys_authority)
  from state_authority.socket_durable [OF this assms(2) _ assms(4), unfolded codec exec] assms(2,3) show ?thesis by blast
qed

section \<open>A concrete cluster\<close>

text \<open>
  The cluster of \<^verbatim>\<open>Control_Plane\<close>, a store whose URLs are \<^verbatim>\<open>https://store/\<close> and the object's name,
  an actor that answers \<^verbatim>\<open>null\<close> with an empty object as its state, and two calls to come: the
  ticket and the commit.
\<close>

definition cluster_http :: "unit system http_client" where
  "cluster_http = \<lparr>parse_url = (\<lambda>_. Inr \<lparr>url_scheme = ''https'', url_host = Some ''store''\<rparr>),
     http_send = (\<lambda>q w. case q of
        HttpGet url \<Rightarrow>
          (case sys_objects w (drop 14 url) of
             None \<Rightarrow> (Inr \<lparr>resp_status = 404, resp_body = Inr []\<rparr>, w)
           | Some bytes \<Rightarrow> (Inr \<lparr>resp_status = 200, resp_body = Inr bytes\<rparr>, w))
      | HttpPut url _ bytes \<Rightarrow>
          (case sys_objects w (drop 14 url) of
             None \<Rightarrow> (Inr \<lparr>resp_status = 200, resp_body = Inr []\<rparr>, w\<lparr>sys_objects := (sys_objects w)(drop 14 url \<mapsto> bytes)\<rparr>)
           | Some _ \<Rightarrow> (Inr \<lparr>resp_status = 412, resp_body = Inr []\<rparr>, w)))\<rparr>"

abbreviation (input) cluster_prepare :: control_plane_command where
  "cluster_prepare \<equiv> PrepareStateWrite sample_actor cluster_host 1 0"

abbreviation (input) cluster_commit1 :: control_plane_command where
  "cluster_commit1 \<equiv> CommitState sample_actor cluster_host 1 0 cluster_object ''r1''"

definition cluster_ticket :: state_write_ticket where
  "cluster_ticket = \<lparr>ticket_state_version = 1, ticket_object_name = cluster_object, ticket_url = ''https://store/'' @ cluster_object,
     ticket_expires_at_ms = 62000\<rparr>"

definition cluster_codec :: command_codec where
  "cluster_codec =
     \<lparr>enc_command = (\<lambda>c. if c = cluster_prepare then Inr ''p'' else if c = cluster_commit1 then Inr ''c'' else Inl (Bail ''unsupported'')),
      dec_command = (\<lambda>b. if b = ''p'' then Inr cluster_prepare else if b = ''c'' then Inr cluster_commit1 else Inl (Bail ''syntax'')),
      enc_reply = (\<lambda>r. if r = StateWriteTicketReply cluster_ticket then Inr ''t'' else if r = StateCommitted 1 None then Inr ''k''
        else Inl (Bail ''unsupported'')),
      dec_reply = (\<lambda>b. if b = ''t'' then Inr (StateWriteTicketReply cluster_ticket) else if b = ''k'' then Inr (StateCommitted 1 None)
        else Inl (Bail ''syntax'')),
      debug_reply = (\<lambda>_. ''reply'')\<rparr>"

definition cluster_executor :: "unit executor" where
  "cluster_executor = \<lparr>exec_supports = (\<lambda>t. t = ''Counter''),
     exec_invoke = (\<lambda>_ x. (Inr (MethodCompleted Null (JObject []) []), x)),
     exec_handle_socket = (\<lambda>_ x. (Inr (SocketHandled (JObject []) []), x)), exec_evict = (\<lambda>_ x. (Inr (), x))\<rparr>"

text \<open>The second call's nonce is unusable, so its commit carries no spare ticket.\<close>

definition cluster_calls :: "call list" where
  "cluster_calls = [\<lparr>call_delivery = Delivered, call_ambient = cluster_ambient, call_others = []\<rparr>,
     \<lparr>call_delivery = Delivered, call_ambient = cluster_ambient\<lparr>amb_nonce := []\<rparr>, call_others = []\<rparr>]"

definition cluster_world :: "unit system" where
  "cluster_world = \<lparr>sys_db = cluster_db, sys_objects = Map.empty, sys_calls = cluster_calls, sys_millis = Inr 2000, sys_executor = ()\<rparr>"

lemma cluster_services: "services_faithful cluster_cp cluster_codec cluster_http"
proof -
  have "wire_inverse cluster_codec" by (auto simp: wire_inverse_def cluster_codec_def split: if_splits)
  moreover have "store_faithful (cp_sign cluster_cp) cluster_http"
    by (auto simp: store_faithful_def cluster_http_def cluster_cp_def is_success_def split: option.splits)
  ultimately show ?thesis by (simp add: services_faithful_def)
qed

abbreviation (input) cluster_client :: cp_client where
  "cluster_client \<equiv> \<lparr>cl_authorization = ''Bearer tok''\<rparr>"

interpretation cluster: state_authority
  "sys_env cluster_cp cluster_codec cluster_client cluster_http sample_codec sample_decode cluster_executor"
  sys_sound sys_committed sys_objects "sys_usable (cp_sign cluster_cp)"
  using cluster_services unfolding services_faithful_def by (intro sys_authority) simp_all

lemma cluster_authenticated:
  "authenticate (cp_lib cluster_cp) (Inr 2) (cp_verifier cluster_cp) (Some (Inr ''Bearer tok'')) = Inr cluster_principal"
proof -
  let ?c = "host_claims sample_issuer ''project-1'' cluster_host ''u1'' ''r1'' ''eu-west'' 5000 3605000"
  have scope: "''actor:authority'' \<in> set (split_ascii_whitespace [] ''actor:authority actor:invoke'')"
    by (simp add: is_ascii_whitespace_def)
  have v: "validate_region ''eu-west'' = Inr ()" "scope_validate \<lparr>scope_namespace_id = ''project-1''\<rparr> = Inr ()"
    by (simp_all add: validate_region_def region_char_def scope_validate_def validate_component_def component_char_def ascii_defs)
  have "claims_ok (sample_lib ?c) 2 (sample_verifier ControlPlane ''cp'') (ic_claims ?c)"
    unfolding claims_ok_def using scope v
    by (simp add: host_claims_def sample_lib_def sample_verifier_def Let_def i64_ok_def i64_saturating_def process_prefix_def
        principal_of_def host_id_prefix_def starts_with_def)
  then have "validate_claims (sample_lib ?c) (Inr 2) (sample_verifier ControlPlane ''cp'') (ic_claims ?c) = Inr cluster_principal"
    by (simp add: validate_claims_iff principal_of_def host_claims_def cluster_principal_def)
  moreover have "bearer_token ''Bearer tok'' = Inr ''tok''" by code_simp
  ultimately show ?thesis
    by (simp add: authenticate_def authenticate_authorization_def verify_with_header_def cluster_cp_def sample_verifier_def ok_or_def)
      (simp add: sample_lib_def Let_def)
qed

lemma cluster_ticket_run:
  "cp_state_write_ticket cluster_cp cluster_ambient ''eu-west'' sample_actor 0 = Inr cluster_ticket"
  using cluster_object_name
  by (simp add: cp_state_write_ticket_def write_ticket_def checked_add_one ok_or_def i64_checked_def i64_ok_def bucket_def
      validate_region_def region_char_def ascii_defs cluster_ticket_def cluster_ambient_def cluster_cp_def)

lemma enc_dec:
  "enc_command cluster_codec cluster_prepare = Inr ''p''" "enc_command cluster_codec cluster_commit1 = Inr ''c''"
  "dec_command cluster_codec ''p'' = Inr cluster_prepare" "dec_command cluster_codec ''c'' = Inr cluster_commit1"
  "enc_reply cluster_codec (StateWriteTicketReply cluster_ticket) = Inr ''t''" "enc_reply cluster_codec (StateCommitted 1 None) = Inr ''k''"
  "dec_reply cluster_codec ''t'' = Inr (StateWriteTicketReply cluster_ticket)" "dec_reply cluster_codec ''k'' = Inr (StateCommitted 1 None)"
  by (simp_all add: cluster_codec_def)

lemma cluster_prepare_run:
  "client_prepare_state_write cluster_codec (sys_rpc cluster_cp cluster_codec) cluster_client sample_actor cluster_host 1 0 cluster_world
     = (Inr cluster_ticket, cluster_world\<lparr>sys_calls := tl cluster_calls\<rparr>)"
proof -
  have "execute_command cluster_cp cluster_ambient id cluster_principal cluster_prepare cluster_db
      = (Inr (StateWriteTicketReply cluster_ticket), cluster_db)"
    using sample_actor_valid cluster_ticket_run
    by (simp add: execute_command_def prepare_state_write_def cluster_evals current_placement_def validate_state_owner_def)
  then have "cp_execute cluster_cp cluster_codec cluster_ambient id (Some (Inr ''Bearer tok'')) ''p'' cluster_db = (Inr ''t'', cluster_db)"
    using cluster_authenticated by (simp add: cp_execute_def cluster_ambient_def enc_dec)
  then show ?thesis
    by (simp add: client_prepare_state_write_def client_execute_def sys_rpc_def cluster_world_def cluster_calls_def Let_def enc_dec)
qed

definition cluster_head :: database where
  "cluster_head = cluster_db\<lparr>db_placements := [''object.v1.project-1.Counter.account.42'' \<mapsto> \<lparr>pr_owner_host_id = ''host.v1.project-1.r1.a'',
     pr_owner_epoch = 1, pr_home_region = ''eu-west'', pr_state_version = 1, pr_state_object = Some cluster_object,
     pr_last_request_id = Some ''r1''\<rparr>]\<rparr>"

lemma cluster_commit_reply:
  assumes "sys_calls w = tl cluster_calls" "sys_db w = cluster_db"
  shows "client_commit_state cluster_codec (sys_rpc cluster_cp cluster_codec) cluster_client sample_actor cluster_host 1 0 cluster_object ''r1'' w
     = (Inr (1, None), w\<lparr>sys_calls := [], sys_db := cluster_head\<rparr>)"
proof -
  let ?amb = "cluster_ambient\<lparr>amb_nonce := []\<rparr>"
  have none: "ok (cp_state_write_ticket cluster_cp ?amb ''eu-west'' sample_actor 1) = None"
    by (simp add: cp_state_write_ticket_def write_ticket_def snapshot_object_name_def nonce_ok_def checked_add_one ok_or_def ok_def
        cluster_ambient_def)
  have "execute_command cluster_cp ?amb id cluster_principal cluster_commit1 cluster_db = (Inr (StateCommitted 1 None), cluster_head)"
    using cluster_object_valid sample_actor_valid none
    by (simp add: execute_command_def cp_commit_state_def cluster_evals cluster_head_def)
  then have "cp_execute cluster_cp cluster_codec ?amb id (Some (Inr ''Bearer tok'')) ''c'' cluster_db = (Inr ''k'', cluster_head)"
    using cluster_authenticated by (simp add: cp_execute_def cluster_ambient_def enc_dec)
  then show ?thesis
    using assms by (simp add: client_commit_state_def client_execute_def sys_rpc_def cluster_calls_def Let_def enc_dec)
qed

abbreviation (input) cluster_env :: "unit system host_env" where
  "cluster_env \<equiv> sys_env cluster_cp cluster_codec cluster_client cluster_http sample_codec sample_decode cluster_executor"

definition cluster_actor_host :: "unit system actor_host" where
  "cluster_actor_host = host_new \<lparr>endpoint_id = cluster_host, endpoint_route = ''https://a''\<rparr> ''project-1'' cluster_world"

definition cluster_invocation :: actor_invocation where
  "cluster_invocation = \<lparr>inv_request_id = ''r1'', inv_actor = sample_actor, inv_method = ''get'', inv_args = []\<rparr>"

definition cluster_event :: actor_socket_invocation where
  "cluster_event = \<lparr>sock_request_id = ''r1'', sock_actor = sample_actor,
     sock_event = Message ''c1'' (Text ''hi''), sock_connections = [], sock_state = None\<rparr>"

lemma cluster_world_sound: "sys_sound cluster_world"
  by (simp add: sys_sound_def cluster_world_def cluster_calls_def call_nonce_def cluster_ambient_def)

text \<open>Publishing the first state through the two calls.\<close>

lemma cluster_publish:
  assumes s: "ah_world s = cluster_world" "ah_endpoint s = ah_endpoint cluster_actor_host"
    and inv: "inv_request_id inv0 = ''r1''" "inv_actor inv0 = sample_actor"
  shows "\<exists>c s'. publish_result_once cluster_env inv0 1 (cached_new 1) Null (JObject []) s = (Inr (Completed Null []), c, s')"
proof -
  let ?w1 = "cluster_world\<lparr>sys_calls := tl cluster_calls\<rparr>"
  let ?w2 = "?w1\<lparr>sys_objects := [cluster_object \<mapsto> ''snapshot'']\<rparr>"
  have enc: "snapshot_encode sample_codec sample_snapshot = Inr ''snapshot''"
    by (simp add: snapshot_encode_def snapshot_validate_def sample_codec_def sample_snapshot_def is_object_def)
  have new: "snapshot_new sample_codec 1 1 ''r1'' (JObject []) Null = Inr sample_snapshot"
    by (simp add: snapshot_new_def snapshot_validate_def sample_codec_def sample_snapshot_def is_object_def Let_def)
  have prepare: "env_prepare_state_write cluster_env sample_actor cluster_host 1 0 cluster_world = (Inr cluster_ticket, ?w1)"
    using cluster_prepare_run by (simp add: sys_env_def)
  have put: "env_write cluster_env (ticket_url cluster_ticket) ''snapshot'' ?w1 = (Inr Written, ?w2)"
    by (simp add: sys_env_def transport_write_def cluster_http_def cluster_ticket_def cluster_world_def validate_url_def is_success_def)
  have commit: "fst (env_commit_state cluster_env sample_actor cluster_host 1 0 cluster_object ''r1'' ?w2)
      = Inr \<lparr>com_state_version = 1, com_next_write = None\<rparr>"
    using cluster_commit_reply [of ?w2] by (simp add: sys_env_def cluster_world_def)
  have env: "env_codec cluster_env = sample_codec" by (simp add: sys_env_def)
  obtain w3 where commit': "env_commit_state cluster_env sample_actor cluster_host 1 0 cluster_object ''r1'' ?w2
      = (Inr \<lparr>com_state_version = 1, com_next_write = None\<rparr>, w3)" using commit by (metis prod.collapse)
  have host: "endpoint_id (ah_endpoint s) = cluster_host" using s by (simp add: cluster_actor_host_def host_new_def)
  show ?thesis
    unfolding publish_result_once_def write_ticket_for_def finish_pending_commit_def Let_def
    using prepare put commit' s inv host enc new
    by (simp add: on_world_def cached_new_def checked_add_one env cluster_ticket_def sample_snapshot_def)
qed

lemma cluster_admitted:
  assumes "inv_request_id inv0 = ''r1''" "inv_actor inv0 = sample_actor" "inv_method inv0 = ''get'' \<or> inv_method inv0 = ''onMessage''"
  shows "invocation_validate inv0 = Inr ()"
  using assms sample_actor_valid
  by (elim disjE) (simp_all add: invocation_validate_def validate_component_def component_char_def ascii_defs)

lemma cluster_executes:
  "execute_method cluster_env cluster_invocation None [] s = (Inr (Null, JObject [], []), s)"
  "execute_socket_event cluster_env cluster_event None s = (Inr (JObject [], []), s)"
proof -
  have "w\<lparr>sys_executor := ()\<rparr> = w" for w :: "unit system" by simp
  then show "execute_method cluster_env cluster_invocation None [] s = (Inr (Null, JObject [], []), s)"
    "execute_socket_event cluster_env cluster_event None s = (Inr (JObject [], []), s)"
    by (simp_all add: execute_method_def execute_socket_event_def on_world_def sys_env_def on_executor_def cluster_executor_def
        validate_socket_effects_def)
qed

lemma cluster_run:
  "\<exists>s'. invoke_actor_once cluster_env (Pair True) cluster_invocation 1 0 [] cluster_actor_host = (Inr (Completed Null []), s')"
proof -
  let ?s = "begin_activity cluster_actor_host"
  have "ah_cached_state ?s = Map.empty" "ah_world ?s = cluster_world" "ah_endpoint ?s = ah_endpoint cluster_actor_host" "ah_accepting ?s"
    by (simp_all add: begin_activity_def cluster_actor_host_def host_new_def)
  moreover have "validate_operation cluster_env cluster_invocation False cluster_actor_host = Inr None"
    using cluster_admitted [of cluster_invocation]
    by (simp add: validate_operation_def cluster_actor_host_def host_new_def cluster_invocation_def sys_env_def cluster_executor_def)
  moreover obtain c s' where "publish_result_once cluster_env cluster_invocation 1 (cached_new 1) Null (JObject [])
      (?s\<lparr>ah_cached_state := Map.empty\<rparr>) = (Inr (Completed Null []), c, s')"
    using cluster_publish [of "?s\<lparr>ah_cached_state := Map.empty\<rparr>" cluster_invocation] calculation by (auto simp: cluster_invocation_def)
  ultimately show ?thesis
    using cluster_executes(1)
    by (simp add: invoke_actor_once_def with_activity_def take_or_load_state_def take_cached_state_def run_invocation_def
        finish_pending_commit_def cached_replay_def cached_new_def Let_def)
qed

lemma cluster_socket_run:
  "\<exists>s'. handle_socket_event cluster_env (Pair True) cluster_event 1 0 [] cluster_actor_host = (Inr (Handled []), s')"
proof -
  let ?s = "begin_activity cluster_actor_host"
  let ?p = "\<lparr>inv_request_id = ''r1'', inv_actor = sample_actor, inv_method = ''onMessage'', inv_args = []\<rparr>"
  have "ah_cached_state ?s = Map.empty" "ah_world ?s = cluster_world" "ah_endpoint ?s = ah_endpoint cluster_actor_host" "ah_accepting ?s"
    by (simp_all add: begin_activity_def cluster_actor_host_def host_new_def)
  moreover have "validate_operation cluster_env ?p False cluster_actor_host = Inr None"
    using cluster_admitted [of ?p]
    by (simp add: validate_operation_def cluster_actor_host_def host_new_def sys_env_def cluster_executor_def)
  moreover obtain c s' where "publish_result_once cluster_env ?p 1 (cached_new 1) Null (JObject [])
      (?s\<lparr>ah_cached_state := Map.empty\<rparr>) = (Inr (Completed Null []), c, s')"
    using cluster_publish [of "?s\<lparr>ah_cached_state := Map.empty\<rparr>" ?p] calculation by auto
  moreover have "sock_actor cluster_event = sample_actor" "sock_request_id cluster_event = ''r1''" "\<not> is_disconnect (sock_event cluster_event)"
    "socket_event_name (sock_event cluster_event) = ''onMessage''"
    by (simp_all add: cluster_event_def is_disconnect_def)
  ultimately show ?thesis
    using cluster_executes(2)
    by (simp add: handle_socket_event_def handle_socket_event_once_def with_activity_def take_or_load_state_def take_cached_state_def
        run_socket_event_def finish_pending_commit_def cached_new_def Let_def)
qed

theorem acknowledged_is_durable_witness:
  "\<exists>c name s'. invoke_actor_once cluster_env (Pair True) cluster_invocation 1 0 [] cluster_actor_host = (Inr (Completed Null []), s') \<and>
     ah_cached_state s' (storage_key sample_actor) = Some c \<and> ca_pending c = None \<and> ca_owner_epoch c = 1 \<and>
     sys_committed (ah_world s') (storage_key sample_actor) = Some (ca_state_version c, name, ''r1'')"
proof -
  obtain s' where run: "invoke_actor_once cluster_env (Pair True) cluster_invocation 1 0 [] cluster_actor_host = (Inr (Completed Null []), s')"
    using cluster_run by blast
  have load: "take_or_load_state cluster_env (storage_key sample_actor) 1 0 [] (begin_activity cluster_actor_host) = (Inr c0, s0) \<Longrightarrow> c0 = cached_new 1" for c0 s0
    by (simp add: take_or_load_state_def take_cached_state_def begin_activity_def cluster_actor_host_def host_new_def)
  have new: "held_state (cached_new 1) = None" "ca_pending (cached_new 1) = None" "\<not> shows_snapshot (cached_new 1) snap" for snap
    by (simp_all add: held_state_def cached_new_def shows_snapshot_def)
  show ?thesis
    using acknowledged_is_durable [OF cluster_services _ _ run] cluster_world_sound run new load
    by (fastforce simp: cluster_invocation_def begin_activity_def cluster_actor_host_def host_new_def justified_result_def published_head_def)
qed

end
