(* ===== verification/Routing.thy ===== *)
theory Routing
  imports Control_Plane
begin

text \<open>
  What the routing of \<^verbatim>\<open>Control_Plane\<close> (\<^verbatim>\<open>src/control_plane/service.rs\<close>, \<^verbatim>\<open>route_actor\<close> and
  \<^verbatim>\<open>resolve_workflow_route\<close>) promises: the loop ends unless other claimants keep winning, placements only
  move forward, a target stands for a placement the tables held during the routing and for its owner, and the token
  handed out is bound to that placement.
\<close>

section \<open>The loop ends\<close>

lemma claim_settles:
  assumes ok: "db_ok db" and e: "e = head db k" and region: "\<And>p. e = Some p \<Longrightarrow> pl_home_region p = r"
    and run: "claim id k e h r db = (Inr c, db')"
  shows "pl_owner (claimed_placement c) = h \<and> head db' k = Some (claimed_placement c)"
proof (cases "db_placements db (key_str k)")
  case None
  then have "e = None" using e by (simp add: head_def)
  with None run show ?thesis
    by (auto simp: claim_def claim_insert_statement_def placement_from_row_def u64_of_i64_def Let_def claimed_placement_def
        head_def abs_row_def split: sum.splits)
next
  case (Some row)
  have row: "placement_row_ok row" using db_ok_placement [OF ok Some] .
  have e': "e = Some (abs_row k row)" using e Some by (simp add: head_def)
  have epoch: "uint (pl_owner_epoch (abs_row k row)) = pr_owner_epoch row"
    using row by (simp add: abs_row_def placement_row_ok_def uint_word_of_i64)
  show ?thesis
  proof (cases "pl_owner (abs_row k row) = h")
    case True
    with run e' e ok show ?thesis
      by (auto simp: claim_def current_claim_ok claimed_placement_def split: sum.splits if_splits option.splits)
  next
    case False
    with run e' region row Some epoch show ?thesis
      by (auto simp: claim_def claim_update_statement_def i64_of_u64_def placement_from_row_ok placement_row_ok_def claimed_placement_def
          head_def abs_row_def Let_def split: sum.splits if_splits)
  qed
qed

text \<open>What provisioning may do to the database: hosts register leases; it leaves placements alone.\<close>

definition provisioner_ok :: "host_provisioner \<Rightarrow> bool" where
  "provisioner_ok p \<longleftrightarrow> (\<forall>spec region db. db_ok db \<longrightarrow>
     db_ok (snd (prov_ensure_host p spec region db)) \<and> db_placements (snd (prov_ensure_host p spec region db)) = db_placements db)"

lemma head_cong: "db_placements db' = db_placements db \<Longrightarrow> head db' = head db"
  by (simp add: head_def fun_eq_iff)

lemma route_turn_settles:
  assumes ok: "db_ok db" and prov: "\<And>p. provisioner = Some p \<Longrightarrow> provisioner_ok p"
  shows "fst (route_turn buckets provisioner now id actor region spec db) \<noteq> Inr None"
proof
  let ?k = "storage_key actor"
  assume none: "fst (route_turn buckets provisioner now id actor region spec db) = Inr None"
  have get: "placement_get ?k db = Inr (head db ?k)" using ok by (rule placement_get_ok)
  from none get obtain r p lease db2 c db3
    where r: "select_target_region (head db ?k) region (regions buckets) = Inr r" and p: "provisioner = Some p"
      and ensured: "prov_ensure_host p spec r db = (Inr lease, db2)"
      and claimed: "claim id ?k (head db ?k) (lease_id lease) r db2 = (Inr c, db3)"
      and other: "pl_owner (claimed_placement c) \<noteq> lease_id lease"
    by (auto simp: route_turn_def Let_def result_simps ok_or_def split: sum.splits option.splits prod.splits if_splits)
  have db2: "db_ok db2" "head db2 = head db"
    using prov [OF p] ok ensured head_cong [of db2 db] by (auto simp: provisioner_ok_def) (metis snd_conv)+
  have "pl_home_region q = r" if "head db ?k = Some q" for q
    using r that by (auto simp: select_target_region_def)
  with claim_settles [OF db2(1) _ _ claimed] db2(2) other show False by simp
qed


section \<open>What a target is\<close>

definition target_ok :: "actor_key \<Rightarrow> routed_actor \<Rightarrow> bool" where
  "target_ok actor t \<longleftrightarrow> pl_object (routed_placement t) = storage_key actor \<and>
     pl_owner (routed_placement t) = lease_id (routed_lease t) \<and> spec_namespace_id (routed_spec t) = namespace_id actor"

lemma head_object: "head db k = Some p \<Longrightarrow> pl_object p = k"
  by (auto simp: head_def abs_row_def)

lemma active_target_ok:
  assumes "active_target now current spec db = Inr (Some t)"
  shows "current = Some (routed_placement t) \<and> lease_id (routed_lease t) = pl_owner (routed_placement t) \<and> routed_spec t = spec"
  using assms
  by (auto simp: active_target_def lease_status_def is_active_def result_simps ok_or_def split: option.splits if_splits sum.splits)

lemma claimed_object:
  assumes "db_ok db" "db_ok (env db)" "claim env k e h r db = (Inr c, db')"
  shows "pl_object (claimed_placement c) = k"
  using claim_step [OF assms] head_object [of db' k]
  by (cases c) (auto simp: claimed_placement_def)

lemma route_turn_ok:
  assumes env: "\<And>db. db_ok db \<Longrightarrow> db_ok (env db)" and prov: "\<And>p. provisioner = Some p \<Longrightarrow> provisioner_ok p"
    and ok: "db_ok db" and ns: "spec_namespace_id spec = namespace_id actor"
    and run: "route_turn buckets provisioner now env actor region spec db = (Inr r, db')"
  shows "db_ok db' \<and> (\<forall>t. r = Some t \<longrightarrow> target_ok actor t)"
proof -
  let ?k = "storage_key actor"
  have get: "placement_get ?k db = Inr (head db ?k)" using ok by (rule placement_get_ok)
  show ?thesis
  proof (cases "active_target now (head db ?k) spec (env db)")
    case (Inl e)
    with run get show ?thesis by (auto simp: route_turn_def Let_def)
  next
    case (Inr found)
    show ?thesis
    proof (cases found)
      case (Some t)
      with active_target_ok [of now "head db ?k" spec "env db" t] Inr run get ns env ok head_object [of db ?k]
      show ?thesis by (auto simp: route_turn_def Let_def target_ok_def)
    next
      case None
      with Inr run get obtain rg p lease db2 c
        where p: "provisioner = Some p" and ensured: "prov_ensure_host p spec rg (env (env db)) = (Inr lease, db2)"
          and claimed: "claim env ?k (head db ?k) (lease_id lease) rg (env db2) = (Inr c, db')"
          and r: "r = (if pl_owner (claimed_placement c) = lease_id lease
              then Some \<lparr>routed_placement = claimed_placement c, routed_lease = lease, routed_spec = spec\<rparr> else None)"
        by (auto simp: route_turn_def Let_def result_simps ok_or_def split: sum.splits option.splits prod.splits)
      have "db_ok db2" using prov [OF p] ensured env ok unfolding provisioner_ok_def by (metis snd_conv)
      with env have ok2: "db_ok (env db2)" "db_ok (env (env db2))" by auto
      have "db_ok db'" using claim_step [OF ok2 claimed] ok2 by auto
      with claimed_object [OF ok2 claimed] r ns show ?thesis by (auto simp: target_ok_def)
    qed
  qed
qed

lemma route_loop_ok:
  assumes env: "\<And>db. db_ok db \<Longrightarrow> db_ok (env db)" and prov: "\<And>p. provisioner = Some p \<Longrightarrow> provisioner_ok p"
    and ns: "spec_namespace_id spec = namespace_id actor" and "db_ok db"
    and "route_loop n buckets provisioner now env actor region spec db = (Some (Inr t), db')"
  shows "target_ok actor t"
  using assms(4-)
proof (induction n arbitrary: db)
  case (Suc n)
  obtain r d where turn: "route_turn buckets provisioner now env actor region spec db = (r, d)" by fastforce
  show ?case
  proof (cases r)
    case (Inr found)
    note step = route_turn_ok [OF env prov Suc.prems(1) ns turn [unfolded Inr]]
    with Suc.prems Suc.IH [of "env d"] env turn Inr show ?thesis by (auto split: option.splits)
  qed (use Suc.prems turn in auto)
qed simp

lemma route_actor_ok:
  assumes env: "\<And>db. db_ok db \<Longrightarrow> db_ok (env db)" and prov: "\<And>p. routing = Some (Some p) \<Longrightarrow> provisioner_ok p" and ok: "db_ok db"
    and run: "route_actor n buckets routing now env actor region db = (Some (Inr t), db')"
  shows "target_ok actor t"
proof -
  from run obtain provisioner spec where routing: "routing = Some provisioner" and spec: "launch_spec (namespace_id actor) db = Inr (Some spec)"
    and loop: "route_loop n buckets provisioner now env actor region spec (env db) = (Some (Inr t), db')"
    by (auto simp: route_actor_def result_simps ok_or_def split: sum.splits option.splits prod.splits)
  have "spec_namespace_id spec = namespace_id actor"
    using spec by (auto simp: launch_spec_def result_simps split: option.splits)
  from route_loop_ok [OF env _ this _ loop] prov routing env ok show ?thesis by auto
qed

section \<open>Placements move forward\<close>

text \<open>A placement that succeeds another has its region, and its state unless it has a later version.\<close>

definition succeeds :: "object_placement \<Rightarrow> object_placement \<Rightarrow> bool" where
  "succeeds p q \<longleftrightarrow> pl_home_region q = pl_home_region p \<and> pl_owner_epoch p \<le> pl_owner_epoch q \<and> pl_state_version p \<le> pl_state_version q \<and>
     (pl_state_version q = pl_state_version p \<longrightarrow> pl_state_object q = pl_state_object p \<and> pl_last_request_id q = pl_last_request_id p)"

lemma succeeds_refl: "succeeds p p"
  by (simp add: succeeds_def)

lemma succeeds_trans: "succeeds p q \<Longrightarrow> succeeds q r \<Longrightarrow> succeeds p r"
  unfolding succeeds_def by (metis order.trans order.antisym)

lemma succeeds_claim: "claim_effect k h r (Some p) q \<Longrightarrow> succeeds p q"
  by (auto simp: claim_effect_def succeeds_def intro: u64_le_succ)

lemma succeeds_commit: "commit_effect request p q \<Longrightarrow> succeeds p q"
  by (auto simp: commit_effect_def succeeds_def intro: u64_le_succ)

definition forward :: "database \<Rightarrow> database \<Rightarrow> bool" where
  "forward db db' \<longleftrightarrow> (\<forall>k p. head db k = Some p \<longrightarrow> (\<exists>q. head db' k = Some q \<and> succeeds p q))"

lemma forward_same: "head db' = head db \<Longrightarrow> forward db db'"
  by (auto simp: forward_def intro: succeeds_refl)

lemma forward_trans [trans]: "forward db1 db2 \<Longrightarrow> forward db2 db3 \<Longrightarrow> forward db1 db3"
  unfolding forward_def by (meson succeeds_trans)

lemma forward_run: "db_ok db \<Longrightarrow> forward db (fold db_apply ops db)"
  unfolding forward_def db_apply_eq
proof (intro allI impI)
  show "\<exists>q. head (fold pg_placements.apply_op ops db) k = Some q \<and> succeeds p q" if "db_ok db" "head db k = Some p" for k p
    by (rule pg_placements.run_induct [OF that succeeds_refl]) (blast intro: succeeds_trans succeeds_claim succeeds_commit)+
qed

lemma forward_claim:
  assumes "db_ok db" "claim (fold db_apply others) k e h r db = (res, db')"
  shows "forward db db'"
proof -
  have env: "forward db (fold db_apply others db)" using assms(1) by (rule forward_run)
  from claim_step [OF assms(1) db_run_ok [OF assms(1)] assms(2)] show ?thesis
  proof (elim disjE exE conjE)
    fix new assume new: "claim_effect k h r (head db k) new" "head db' = (head db)(k \<mapsto> new)"
    show ?thesis unfolding forward_def
    proof (intro allI impI)
      fix k' p assume p: "head db k' = Some p"
      show "\<exists>q. head db' k' = Some q \<and> succeeds p q"
        using new p succeeds_claim [of k h r p new] by (cases "k' = k") (auto intro: succeeds_refl)
    qed
  qed (use env forward_same in auto)
qed

text \<open>A claim's answer is the head it leaves.\<close>

lemma claimed_head:
  assumes "db_ok db" "claim (fold db_apply others) k e h r db = (Inr c, db')"
  shows "head db' k = Some (claimed_placement c)"
  using claim_step [OF assms(1) db_run_ok [OF assms(1)] assms(2)] by (cases c) (auto simp: claimed_placement_def)

section \<open>Routing follows the head\<close>

text \<open>
  A routed actor's placement was the head at some moment of the routing, and is the head at its end when the other
  connections leave the actor's placement alone.
\<close>

definition routed_head :: "(database \<Rightarrow> database) \<Rightarrow> actor_key \<Rightarrow> database \<Rightarrow> database \<Rightarrow> routed_actor \<Rightarrow> bool" where
  "routed_head env actor db db' t \<longleftrightarrow>
     (\<exists>d. forward db d \<and> forward d db' \<and> head d (storage_key actor) = Some (routed_placement t)) \<and>
     ((\<forall>d. head (env d) (storage_key actor) = head d (storage_key actor)) \<longrightarrow> head db' (storage_key actor) = Some (routed_placement t))"

lemma route_turn_forward:
  assumes prov: "\<And>p. provisioner = Some p \<Longrightarrow> provisioner_ok p" and ok: "db_ok db"
    and run: "route_turn buckets provisioner now (fold db_apply others) actor region spec db = (Inr r, db')"
  shows "db_ok db' \<and> forward db db' \<and> (\<forall>t. r = Some t \<longrightarrow> routed_head (fold db_apply others) actor db db' t)"
proof -
  let ?k = "storage_key actor" and ?env = "fold db_apply others"
  have get: "placement_get ?k db = Inr (head db ?k)" using ok by (rule placement_get_ok)
  have env: "db_ok (?env d) \<and> forward d (?env d)" if "db_ok d" for d using that db_run_ok forward_run by blast
  show ?thesis
  proof (cases "active_target now (head db ?k) spec (?env db)")
    case (Inl e)
    with run get show ?thesis by (auto simp: route_turn_def Let_def)
  next
    case (Inr found)
    show ?thesis
    proof (cases found)
      case (Some t)
      with active_target_ok [of now "head db ?k" spec "?env db" t] Inr run get env ok forward_same [of db db]
      show ?thesis by (auto simp: route_turn_def Let_def routed_head_def)
    next
      case None
      with Inr run get obtain rg p lease db2 c
        where p: "provisioner = Some p" and ensured: "prov_ensure_host p spec rg (?env (?env db)) = (Inr lease, db2)"
          and claimed: "claim ?env ?k (head db ?k) (lease_id lease) rg (?env db2) = (Inr c, db')"
          and r: "r = (if pl_owner (claimed_placement c) = lease_id lease
              then Some \<lparr>routed_placement = claimed_placement c, routed_lease = lease, routed_spec = spec\<rparr> else None)"
        by (auto simp: route_turn_def Let_def result_simps ok_or_def split: sum.splits option.splits prod.splits)
      have db2: "db_ok db2" "head db2 = head (?env (?env db))"
        using prov [OF p] ensured env ok head_cong unfolding provisioner_ok_def by (metis snd_conv)+
      have "forward db (?env db)" using env ok by blast
      also have "forward (?env db) (?env (?env db))" using env ok by blast
      also have "forward (?env (?env db)) db2" using db2(2) by (rule forward_same)
      also have "forward db2 (?env db2)" using env db2(1) by blast
      also have "forward (?env db2) db'" using forward_claim env db2(1) claimed by blast
      finally have fwd: "forward db db'" .
      moreover have "db_ok db'" using claim_step [OF _ _ claimed] env db2(1) by auto
      moreover have "head db' ?k = Some (claimed_placement c)" using claimed_head env db2(1) claimed by blast
      ultimately show ?thesis using r forward_same [of db' db'] by (auto simp: routed_head_def)
    qed
  qed
qed

lemma route_loop_forward:
  assumes prov: "\<And>p. provisioner = Some p \<Longrightarrow> provisioner_ok p" and "db_ok db"
    and "route_loop n buckets provisioner now (fold db_apply others) actor region spec db = (Some (Inr t), db')"
  shows "routed_head (fold db_apply others) actor db db' t"
  using assms(2-)
proof (induction n arbitrary: db)
  case (Suc n)
  obtain r d where turn: "route_turn buckets provisioner now (fold db_apply others) actor region spec db = (r, d)" by fastforce
  show ?case
  proof (cases r)
    case (Inr found)
    note step = route_turn_forward [OF prov Suc.prems(1) turn [unfolded Inr]]
    show ?thesis
    proof (cases found)
      case None
      have next_db: "db_ok (fold db_apply others d)" "forward db (fold db_apply others d)"
        using step db_run_ok [of d others] forward_trans [OF _ forward_run [of d others], of db] by auto
      have "routed_head (fold db_apply others) actor (fold db_apply others d) db' t" using Suc.IH [OF next_db(1)] Suc.prems(2) turn Inr None by simp
      with next_db(2) show ?thesis unfolding routed_head_def by (blast intro: forward_trans)
    qed (use step Suc.prems(2) turn Inr in auto)
  qed (use Suc.prems turn in auto)
qed simp

text \<open>
  A target stands for a placement and its owner's session and revision: it carries the placement's
  epoch and version, the URL signed for its state object (none before the first commit), and the token
  issued for them.
\<close>

definition target_matches ::
    "('sk, 'vk) control_plane \<Rightarrow> ambient \<Rightarrow> i64 \<Rightarrow> actor_key \<Rightarrow> workflow_actor_target \<Rightarrow> object_placement \<Rightarrow> string \<Rightarrow> string \<Rightarrow> bool" where
  "target_matches cp amb expires actor wt p session revision \<longleftrightarrow>
     wt_owner_epoch wt = pl_owner_epoch p \<and> wt_state_version wt = pl_state_version p \<and>
     (case pl_state_object p of
        None \<Rightarrow> wt_state_read_url wt = []
      | Some name \<Rightarrow> read_url (cp_buckets cp) (cp_sign cp) (pl_home_region p) name = Inr (wt_state_read_url wt)) \<and>
     (\<exists>issuer. cp_issuer cp = Some issuer \<and>
        issue_invocation_target (cp_lib cp) (amb_millis amb) issuer actor (pl_owner p) session revision (pl_home_region p)
          (pl_owner_epoch p) (pl_state_version p) (wt_state_read_url wt) expires
        = Inr \<lparr>tok_token = wt_token wt, tok_expires_at_ms = wt_expires_at_ms wt\<rparr>)"

lemma workflow_target_matches:
  assumes "workflow_target cp routing amb prin actor kind t db routes = (Inr wt, routes')"
    and "lease_id (routed_lease t) = pl_owner (routed_placement t)"
  shows "target_matches cp amb (prin_expires_at prin) actor wt (routed_placement t) (lease_session_id (routed_lease t))
    (spec_code_revision (routed_spec t))"
  using assms
  by (auto simp: workflow_target_def target_matches_def Let_def result_simps ok_or_def
      split: sum.splits option.splits prod.splits if_splits)

text \<open>The target a workflow is given stands for a head the actor's placement had during the routing.\<close>

lemma resolved_head:
  assumes prov: "\<And>p. routing = Some (Some p) \<Longrightarrow> provisioner_ok p" and ok: "db_ok db"
    and run: "resolve_workflow_route n cp routing amb (fold db_apply others) prin actor kind (db, routes) = (Some (Inr wt), db', routes')"
  obtains d p session revision where "forward db d" "forward d db'" "head d (storage_key actor) = Some p"
    "target_matches cp amb (prin_expires_at prin) actor wt p session revision"
    "(\<forall>d. head (fold db_apply others d) (storage_key actor) = head d (storage_key actor)) \<longrightarrow> head db' (storage_key actor) = Some p"
proof -
  let ?env = "fold db_apply others"
  from run obtain t where routed: "route_actor n (cp_buckets cp) routing (amb_lease_now amb) ?env actor (prin_region prin) db = (Some (Inr t), db')"
    and target: "workflow_target cp routing amb prin actor kind t db' routes = (Inr wt, routes')"
    by (auto simp: resolve_workflow_route_def split: sum.splits prod.splits option.splits)
  from routed obtain provisioner spec where routing: "routing = Some provisioner"
    and loop: "route_loop n (cp_buckets cp) provisioner (amb_lease_now amb) ?env actor (prin_region prin) spec (?env db) = (Some (Inr t), db')"
    by (auto simp: route_actor_def result_simps ok_or_def split: sum.splits option.splits prod.splits)
  have "routed_head ?env actor (?env db) db' t"
    by (rule route_loop_forward [OF _ db_run_ok [OF ok] loop]) (use prov routing in auto)
  then obtain d where d: "forward db d" "forward d db'" "head d (storage_key actor) = Some (routed_placement t)"
    and quiet: "(\<forall>d. head (?env d) (storage_key actor) = head d (storage_key actor)) \<longrightarrow> head db' (storage_key actor) = Some (routed_placement t)"
    using forward_trans [OF forward_run [OF ok]] unfolding routed_head_def by blast
  have "target_ok actor t" by (rule route_actor_ok [OF _ prov ok routed]) (rule db_run_ok)
  with workflow_target_matches [OF target] that [OF d _ quiet] show thesis by (auto simp: target_ok_def)
qed

text \<open>
  Claim C17. A target handed to a workflow is confined and current: the caller is a workflow process of the actor's namespace; the
  target's epoch and version are those of the actor's placement as the tables held it during the routing, no older than the placement
  before the routing, no newer than the one after it, and exactly the one after it when the other connections leave
  the actor alone; its token was issued for exactly this actor, that placement's owner, epoch and version and the URL signed for its
  state object, to expire no later than the caller's own token.
\<close>

theorem workflow_target_bound:
  assumes prov: "\<And>p. routing = Some (Some p) \<Longrightarrow> provisioner_ok p" and ok: "db_ok db"
    and run: "resolve_workflow_route n cp routing amb (fold db_apply others) prin actor kind (db, routes) = (Some (Inr wt), db', routes')"
  shows "prin_process_role prin = Workflow \<and> namespace_id actor = scope_namespace_id (prin_scope prin) \<and>
    (\<exists>p q session revision. target_matches cp amb (prin_expires_at prin) actor wt p session revision \<and>
       (\<forall>p0. head db (storage_key actor) = Some p0 \<longrightarrow> succeeds p0 p) \<and> head db' (storage_key actor) = Some q \<and> succeeds p q \<and>
       ((\<forall>d. head (fold db_apply others d) (storage_key actor) = head d (storage_key actor)) \<longrightarrow> p = q))"
proof -
  have "workflow_allowed prin actor = Inr ()"
    using run by (auto simp: resolve_workflow_route_def split: sum.splits prod.splits option.splits)
  then have allowed: "prin_process_role prin = Workflow" "namespace_id actor = scope_namespace_id (prin_scope prin)"
    by (auto simp: workflow_allowed_def result_simps scope_contains_def)
  obtain d p session revision where d: "forward db d" "forward d db'" "head d (storage_key actor) = Some p"
      "target_matches cp amb (prin_expires_at prin) actor wt p session revision"
    and quiet: "(\<forall>d. head (fold db_apply others d) (storage_key actor) = head d (storage_key actor)) \<longrightarrow> head db' (storage_key actor) = Some p"
    by (rule resolved_head [OF prov ok run])
  obtain q where q: "head db' (storage_key actor) = Some q" "succeeds p q" using d(2,3) unfolding forward_def by blast
  have "succeeds p0 p" if "head db (storage_key actor) = Some p0" for p0 using d(1,3) that unfolding forward_def by force
  moreover have "p = q" if "\<forall>d. head (fold db_apply others d) (storage_key actor) = head d (storage_key actor)" using quiet that q by simp
  ultimately show ?thesis using allowed d(4) q by blast
qed

section \<open>Shared storage keys\<close>

lemma claim_keeps_state:
  assumes ok: "db_ok db" and "head db k = Some p" and run: "claim id k e h r db = (Inr c, db')"
  shows "pl_state_object (claimed_placement c) = pl_state_object p \<and> pl_home_region (claimed_placement c) = pl_home_region p"
  using claim_step [of db id k e h r "Inr c" db'] assms
  by (cases c) (auto simp: claimed_placement_def claim_effect_def)

lemma route_loop_keeps_state:
  assumes prov: "\<And>p. provisioner = Some p \<Longrightarrow> provisioner_ok p" and ok: "db_ok db" and hd: "head db (storage_key actor) = Some p"
    and run: "route_loop n buckets provisioner now id actor region spec db = (Some (Inr t), db')"
  shows "pl_state_object (routed_placement t) = pl_state_object p \<and> pl_home_region (routed_placement t) = pl_home_region p"
proof -
  let ?k = "storage_key actor"
  obtain m where n: "n = Suc m" using run by (cases n) auto
  have get: "placement_get ?k db = Inr (Some p)" using placement_get_ok [OF ok, of ?k] hd by simp
  have turn: "route_turn buckets provisioner now id actor region spec db = (Inr (Some t), db')"
    using run n route_turn_settles [OF ok prov, of provisioner buckets now actor region spec]
    by (auto split: prod.splits sum.splits option.splits)
  show ?thesis
  proof (cases "active_target now (Some p) spec db")
    case (Inr found)
    show ?thesis
    proof (cases found)
      case (Some t')
      with active_target_ok [of now "Some p" spec db t'] Inr turn get show ?thesis by (auto simp: route_turn_def Let_def)
    next
      case None
      with Inr turn get obtain rg q lease db2 c
        where q: "provisioner = Some q" "prov_ensure_host q spec rg db = (Inr lease, db2)"
          and claimed: "claim id ?k (Some p) (lease_id lease) rg db2 = (Inr c, db')"
          and t: "routed_placement t = claimed_placement c"
        by (auto simp: route_turn_def Let_def result_simps ok_or_def split: sum.splits option.splits prod.splits if_splits)
      have "db_ok db2" "db_placements db2 = db_placements db"
        using prov [OF q(1)] q(2) ok unfolding provisioner_ok_def by (metis snd_conv)+
      with claim_keeps_state [OF _ _ claimed] hd t head_cong [of db2 db] show ?thesis by simp
    qed
  qed (use turn get in \<open>auto simp: route_turn_def Let_def\<close>)
qed

text \<open>
  Claim C40. Storage keys are not namespaced safely: when an actor of one namespace has the storage
  key of a committed actor of another, the target a workflow of the first namespace is given carries
  the read URL of the other actor's state, although every scope check passed.
\<close>

theorem shared_key_leaks_state:
  assumes "storage_key actor = storage_key other" "db_ok db" "\<And>p. routing = Some (Some p) \<Longrightarrow> provisioner_ok p"
    and "head db (storage_key other) = Some p" "pl_state_object p = Some name"
    and run: "resolve_workflow_route n cp routing amb id prin actor kind (db, routes) = (Some (Inr wt), db', routes')"
  shows "read_url (cp_buckets cp) (cp_sign cp) (pl_home_region p) name = Inr (wt_state_read_url wt)"
proof -
  from run obtain t where routed: "route_actor n (cp_buckets cp) routing (amb_lease_now amb) id actor (prin_region prin) db = (Some (Inr t), db')"
    and target: "workflow_target cp routing amb prin actor kind t db' routes = (Inr wt, routes')"
    by (auto simp: resolve_workflow_route_def split: sum.splits prod.splits option.splits)
  from routed obtain provisioner spec where "routing = Some provisioner"
    and loop: "route_loop n (cp_buckets cp) provisioner (amb_lease_now amb) id actor (prin_region prin) spec db = (Some (Inr t), db')"
    by (auto simp: route_actor_def result_simps ok_or_def split: sum.splits option.splits prod.splits)
  with assms have "pl_state_object (routed_placement t) = Some name \<and> pl_home_region (routed_placement t) = pl_home_region p"
    using route_loop_keeps_state [OF _ assms(2) _ loop, of p] by auto
  moreover have "target_ok actor t" using route_actor_ok [OF _ assms(3,2) routed] by simp
  ultimately show ?thesis
    using workflow_target_matches [OF target] by (auto simp: target_ok_def target_matches_def)
qed

section \<open>Concrete runs\<close>

text \<open>
  Two tenants, \<^verbatim>\<open>acme\<close> and \<^verbatim>\<open>acme.prod\<close>, whose actors share a storage key; the second has committed
  three versions, and a workflow of the first resolves its own actor.
\<close>

abbreviation (input) acme_actor :: actor_key where
  "acme_actor \<equiv> \<lparr>namespace_id = ''acme'', actor_type = ''prod.Counter'', actor_id = ''one''\<rparr>"

abbreviation (input) prod_actor :: actor_key where
  "prod_actor \<equiv> \<lparr>namespace_id = ''acme.prod'', actor_type = ''Counter'', actor_id = ''one''\<rparr>"

abbreviation (input) acme_host :: host_id where "acme_host \<equiv> HostId ''host.v1.acme.r1.h''"

definition tenants_db :: database where
  "tenants_db = \<lparr>db_leases = [''host.v1.acme.r1.h'' \<mapsto> \<lparr>lr_session_id = ''u1'', lr_route = ''https://h'', lr_expires_at_ms = 31000\<rparr>],
     db_placements = [''object.v1.acme.prod.Counter.one'' \<mapsto> \<lparr>pr_owner_host_id = ''host.v1.acme.prod.r1.h'', pr_owner_epoch = 1,
       pr_home_region = ''eu-west'', pr_state_version = 3, pr_state_object = Some ''snapshots/prod-secret'',
       pr_last_request_id = Some ''r''\<rparr>],
     db_namespaces = {''acme'', ''acme.prod''},
     db_specs = [''acme'' \<mapsto> \<lparr>sr_code_revision = ''r1'', sr_image_ref = ''image'', sr_working_directory = ''/app'', sr_actor_entrypoint = None\<rparr>]\<rparr>"

definition tenants_cp :: "(unit, unit) control_plane" where
  "tenants_cp = \<lparr>cp_lib = sample_lib (target_claims sample_issuer acme_actor acme_host ''u1'' ''r1'' ''eu-west'' 2 3
       ''https://store/snapshots/prod-secret'' 2 62),
     cp_verifier = sample_verifier ControlPlane ''cp'', cp_issuer = Some sample_issuer, cp_buckets = [(''eu-west'', ''b'')],
     cp_sign = (\<lambda>r. Inr (''https://store/'' @ sign_object r)), cp_parse_route = (\<lambda>_. Inl (Bail ''url''))\<rparr>"

definition acme_workflow :: actor_principal where
  "acme_workflow = \<lparr>prin_scope = \<lparr>scope_namespace_id = ''acme''\<rparr>, prin_host_id = HostId ''workflow.v1.acme.w'', prin_session_id = ''u1'',
     prin_process_role = Workflow, prin_region = ''eu-west'', prin_private_routing = False, prin_code_revision = None,
     prin_expires_at = 3605, prin_invocation = None\<rparr>"

definition acme_provisioner :: host_provisioner where
  "acme_provisioner = \<lparr>prov_ensure_host = (\<lambda>_ _ db. (Inr \<lparr>lease_id = acme_host, lease_session_id = ''u1'', lease_route = ''https://h'',
       lease_expires_at_ms = 31000\<rparr>, db)), prov_public_host_route = (\<lambda>_ _ _. Inl (Bail ''none''))\<rparr>"

lemma tenants_db_ok [simp]: "db_ok tenants_db"
  by (auto simp: db_ok_def tenants_db_def placement_row_ok_def lease_row_ok_def i64_ok_def split: if_splits)

lemma acme_provisioner_ok: "provisioner_ok acme_provisioner"
  by (simp add: provisioner_ok_def acme_provisioner_def)

lemma acme_valid: "actor_validate acme_actor = Inr ()"
  by (rule actor_validI) (simp_all add: component_char_def ascii_defs)

definition acme_target :: routed_actor where
  "acme_target = \<lparr>routed_placement = \<lparr>pl_object = ActorStorageKey ''object.v1.acme.prod.Counter.one'', pl_owner = acme_host, pl_owner_epoch = 2,
       pl_home_region = ''eu-west'', pl_state_version = 3, pl_state_object = Some ''snapshots/prod-secret'', pl_last_request_id = Some ''r''\<rparr>,
     routed_lease = \<lparr>lease_id = acme_host, lease_session_id = ''u1'', lease_route = ''https://h'', lease_expires_at_ms = 31000\<rparr>,
     routed_spec = \<lparr>spec_namespace_id = ''acme'', spec_code_revision = ''r1'', spec_image_ref = ''image'', spec_working_directory = ''/app'',
       spec_actor_entrypoint = None\<rparr>\<rparr>"

lemma acme_regions: "validate_region ''eu-west'' = Inr ()" "validate_namespace ''acme'' = Inr ()"
  by (simp_all add: validate_region_def region_char_def validate_namespace_def scope_validate_def validate_component_def component_char_def ascii_defs)

lemma acme_key: "storage_key acme_actor = ActorStorageKey ''object.v1.acme.prod.Counter.one''"
  "storage_key prod_actor = ActorStorageKey ''object.v1.acme.prod.Counter.one''"
  "storage_key_validate (ActorStorageKey ''object.v1.acme.prod.Counter.one'') = Inr ()"
  by (simp_all add: storage_key_def storage_key_validate_def component_char_def ascii_defs)

lemma acme_turn:
  "\<exists>db'. route_turn [(''eu-west'', ''b'')] (Some acme_provisioner) 2000 id acme_actor ''eu-west'' (routed_spec acme_target) tenants_db
     = (Inr (Some acme_target), db')"
  using acme_regions(1) acme_key
  by (simp add: route_turn_def placement_get_def placement_from_row_def tenants_db_def u64_of_i64_def active_target_def
      host_matches_revision_def starts_with_def acme_target_def Let_def select_target_region_def ok_or_def acme_provisioner_def
      claim_def claim_update_statement_def i64_of_u64_def bigint_add_def i64_ok_def claimed_placement_def)

lemma acme_route:
  "\<exists>db'. route_actor 1 [(''eu-west'', ''b'')] (Some (Some acme_provisioner)) 2000 id acme_actor ''eu-west'' tenants_db
     = (Some (Inr acme_target), db')"
proof -
  have "launch_spec ''acme'' tenants_db = Inr (Some (routed_spec acme_target))"
    using acme_regions(2) by (simp add: launch_spec_def tenants_db_def acme_target_def)
  moreover obtain db' where "route_turn [(''eu-west'', ''b'')] (Some acme_provisioner) 2000 id acme_actor ''eu-west''
      (routed_spec acme_target) tenants_db = (Inr (Some acme_target), db')" using acme_turn by blast
  ultimately show ?thesis by (simp add: route_actor_def ok_or_def)
qed

lemma acme_workflow_target:
  "fst (workflow_target tenants_cp (Some (Some acme_provisioner)) cluster_ambient acme_workflow acme_actor ControlPlaneRoute acme_target db routes)
     = Inr \<lparr>wt_route = ''https://h'', wt_token = ''tok'', wt_owner_epoch = 2, wt_state_version = 3,
       wt_state_read_url = ''https://store/snapshots/prod-secret'', wt_expires_at_ms = 62000\<rparr>"
proof -
  have "read_url (cp_buckets tenants_cp) (cp_sign tenants_cp) ''eu-west'' ''snapshots/prod-secret'' = Inr ''https://store/snapshots/prod-secret''"
    using acme_regions(1)
    by (simp add: read_url_def validate_object_name_def bucket_def tenants_cp_def ok_or_def)
  moreover have "issue_invocation_target (cp_lib tenants_cp) (Inr 2000) sample_issuer acme_actor acme_host ''u1'' ''r1'' ''eu-west'' 2 3
      ''https://store/snapshots/prod-secret'' 3605 = Inr \<lparr>tok_token = ''tok'', tok_expires_at_ms = 62000\<rparr>"
    using acme_valid acme_regions(1)
    by (simp add: issue_invocation_target_def issue_def tenants_cp_def sample_lib_def Let_def i64_checked_def i64_ok_def ok_or_def i64_saturating_def)
      (simp add: sample_issuer_def target_claims_def)
  moreover have "cp_issuer tenants_cp = Some sample_issuer" by (simp add: tenants_cp_def)
  ultimately show ?thesis
    by (simp add: workflow_target_def acme_target_def cluster_ambient_def acme_workflow_def public_route_def starts_with_def ok_or_def)
qed

lemma acme_resolves:
  "\<exists>wt db' routes'. resolve_workflow_route 1 tenants_cp (Some (Some acme_provisioner)) cluster_ambient id acme_workflow acme_actor ControlPlaneRoute
     (tenants_db, Map.empty) = (Some (Inr wt), db', routes') \<and> wt_state_read_url wt = ''https://store/snapshots/prod-secret'' \<and>
     wt_state_version wt = 3"
proof -
  obtain db' where "route_actor 1 [(''eu-west'', ''b'')] (Some (Some acme_provisioner)) 2000 id acme_actor ''eu-west'' tenants_db
      = (Some (Inr acme_target), db')" using acme_route by blast
  moreover have "workflow_allowed acme_workflow acme_actor = Inr ()"
    using acme_valid by (simp add: workflow_allowed_def acme_workflow_def scope_contains_def)
  moreover have "cp_buckets tenants_cp = [(''eu-west'', ''b'')]" "amb_lease_now cluster_ambient = 2000" "prin_region acme_workflow = ''eu-west''"
    by (simp_all add: tenants_cp_def cluster_ambient_def acme_workflow_def)
  ultimately show ?thesis
    using acme_workflow_target [of db' Map.empty]
    by (cases "workflow_target tenants_cp (Some (Some acme_provisioner)) cluster_ambient acme_workflow acme_actor ControlPlaneRoute acme_target db' Map.empty")
      (simp add: resolve_workflow_route_def)
qed


theorem workflow_target_bound_witness:
  "\<exists>wt p session revision db' routes'. resolve_workflow_route 1 tenants_cp (Some (Some acme_provisioner)) cluster_ambient id acme_workflow acme_actor
       ControlPlaneRoute (tenants_db, Map.empty) = (Some (Inr wt), db', routes') \<and> head db' (storage_key acme_actor) = Some p \<and>
     target_matches tenants_cp cluster_ambient 3605 acme_actor wt p session revision"
proof -
  obtain wt db' routes' where run: "resolve_workflow_route 1 tenants_cp (Some (Some acme_provisioner)) cluster_ambient id acme_workflow acme_actor
      ControlPlaneRoute (tenants_db, Map.empty) = (Some (Inr wt), db', routes')" using acme_resolves by blast
  from workflow_target_bound [where others = "[]", unfolded fold_Nil, OF _ _ run] run acme_provisioner_ok show ?thesis
    by (fastforce simp: acme_workflow_def)
qed

theorem shared_key_leaks_state_witness:
  "\<exists>wt db' routes'. resolve_workflow_route 1 tenants_cp (Some (Some acme_provisioner)) cluster_ambient id acme_workflow acme_actor
       ControlPlaneRoute (tenants_db, Map.empty) = (Some (Inr wt), db', routes') \<and> namespace_id prod_actor \<noteq> namespace_id acme_actor \<and>
     read_url (cp_buckets tenants_cp) (cp_sign tenants_cp) ''eu-west'' ''snapshots/prod-secret'' = Inr (wt_state_read_url wt)"
proof -
  obtain wt db' routes' where run: "resolve_workflow_route 1 tenants_cp (Some (Some acme_provisioner)) cluster_ambient id acme_workflow acme_actor
      ControlPlaneRoute (tenants_db, Map.empty) = (Some (Inr wt), db', routes')" using acme_resolves by blast
  have "head tenants_db (storage_key prod_actor) = Some (abs_row (storage_key prod_actor)
      \<lparr>pr_owner_host_id = ''host.v1.acme.prod.r1.h'', pr_owner_epoch = 1, pr_home_region = ''eu-west'', pr_state_version = 3,
       pr_state_object = Some ''snapshots/prod-secret'', pr_last_request_id = Some ''r''\<rparr>)"
    by (simp add: head_def acme_key tenants_db_def)
  from shared_key_leaks_state [OF _ _ _ this _ run] run acme_provisioner_ok acme_key show ?thesis by (simp add: abs_row_def)
qed

end
