(* ===== verification/Gateway.thy ===== *)
theory Gateway
  imports Auth Sockets "HOL-Library.AList"
begin

text \<open>
  The websocket gateway of the control plane (\<^verbatim>\<open>src/control_plane/websocket.rs\<close>,
  \<^verbatim>\<open>socket_auth.rs\<close>, \<^verbatim>\<open>event_sink.rs\<close>): who may open a socket, the registry of open connections, the effects
  an actor returns, and the run of one connection. The dispatch of an event to the actor's
  host, the web server and the HTTP client are parameters. The lemmas show that the registry keeps its
  limits, that effects reach exactly the connections they address, and the order of events an actor sees.
\<close>

abbreviation max_connections_per_actor :: nat where "max_connections_per_actor \<equiv> 128"

section \<open>The registry\<close>

datatype outbound_message = OutMessage actor_socket_message | OutClose u16 string

record registered_socket =
  reg_connection :: actor_socket_connection
  reg_outbound :: nat
  reg_open :: bool
  reg_trigger_id :: "string option"

text \<open>
  The connections of an actor by id, in the iteration order of the hash map, and the queue of every
  outbound channel whose receiver is alive.
\<close>

record gateway =
  gw_entries :: "actor_key \<rightharpoonup> (string \<times> registered_socket) list"
  gw_queues :: "nat \<rightharpoonup> outbound_message list"

definition sockets_of :: "gateway \<Rightarrow> actor_key \<Rightarrow> (string \<times> registered_socket) list" where
  "sockets_of g actor = (case gw_entries g actor of None \<Rightarrow> [] | Some connections \<Rightarrow> connections)"

definition registry_insert ::
    "actor_key \<Rightarrow> actor_socket_connection \<Rightarrow> nat \<Rightarrow> string option \<Rightarrow> gateway \<Rightarrow> bool \<times> gateway" where
  "registry_insert actor connection outbound trigger_id g =
     (let connections = sockets_of g actor in
      if length connections \<ge> max_connections_per_actor then (False, g\<lparr>gw_entries := (gw_entries g)(actor \<mapsto> connections)\<rparr>)
      else (True, g\<lparr>gw_entries := (gw_entries g)(actor \<mapsto> AList.update (conn_id connection)
        \<lparr>reg_connection = connection, reg_outbound = outbound, reg_open = False, reg_trigger_id = trigger_id\<rparr> connections)\<rparr>))"

definition registry_remove :: "actor_key \<Rightarrow> string \<Rightarrow> gateway \<Rightarrow> actor_socket_connection option \<times> gateway" where
  "registry_remove actor connection_id g =
     (case gw_entries g actor of
        None \<Rightarrow> (None, g)
      | Some connections \<Rightarrow>
          (let rest = AList.delete connection_id connections in
           (map_option reg_connection (map_of connections connection_id),
            g\<lparr>gw_entries := (gw_entries g)(actor := if rest = [] then None else Some rest)\<rparr>)))"

definition registry_connections :: "actor_key \<Rightarrow> gateway \<Rightarrow> actor_socket_connection list" where
  "registry_connections actor g = map (reg_connection \<circ> snd) (filter (reg_open \<circ> snd) (sockets_of g actor))"

definition lookup_socket :: "gateway \<Rightarrow> actor_key \<Rightarrow> string \<Rightarrow> registered_socket option" where
  "lookup_socket g actor connection_id = map_of (sockets_of g actor) connection_id"

definition registry_trigger_id :: "actor_key \<Rightarrow> string option \<Rightarrow> gateway \<Rightarrow> string option" where
  "registry_trigger_id actor connection_id g =
     Option.bind connection_id (\<lambda>i. Option.bind (lookup_socket g actor i) reg_trigger_id)"

definition prepare_event ::
    "actor_key \<Rightarrow> actor_socket_event \<Rightarrow> gateway \<Rightarrow> (actor_socket_event \<times> actor_socket_connection list) \<times> gateway" where
  "prepare_event actor event g =
     (case event of
        Connect connection \<Rightarrow> ((Connect connection, registry_connections actor g @ [connection]), g)
      | Message connection_id message \<Rightarrow> ((Message connection_id message, registry_connections actor g), g)
      | Disconnect connection code reason was_clean \<Rightarrow>
          (case registry_remove actor (conn_id connection) g of
             (removed, g') \<Rightarrow>
               ((Disconnect (case removed of None \<Rightarrow> connection | Some c \<Rightarrow> c) code reason was_clean, registry_connections actor g'), g')))"

text \<open>A message to a channel whose receiver is gone is dropped.\<close>

definition send_outbound :: "outbound_message \<Rightarrow> nat \<Rightarrow> gateway \<Rightarrow> gateway" where
  "send_outbound message channel g =
     (case gw_queues g channel of
        None \<Rightarrow> g
      | Some queue \<Rightarrow> g\<lparr>gw_queues := (gw_queues g)(channel \<mapsto> queue @ [message])\<rparr>)"

definition send_to :: "actor_key \<Rightarrow> string \<Rightarrow> outbound_message \<Rightarrow> gateway \<Rightarrow> gateway" where
  "send_to actor connection_id message g =
     (case lookup_socket g actor connection_id of None \<Rightarrow> g | Some entry \<Rightarrow> send_outbound message (reg_outbound entry) g)"

definition update_socket :: "actor_key \<Rightarrow> string \<Rightarrow> (registered_socket \<Rightarrow> registered_socket) \<Rightarrow> gateway \<Rightarrow> gateway" where
  "update_socket actor connection_id f g =
     (case gw_entries g actor of
        None \<Rightarrow> g
      | Some connections \<Rightarrow>
          (case map_of connections connection_id of
             None \<Rightarrow> g
           | Some entry \<Rightarrow> g\<lparr>gw_entries := (gw_entries g)(actor \<mapsto> AList.update connection_id (f entry) connections)\<rparr>))"

definition broadcast_recipient :: "string list \<Rightarrow> string list \<Rightarrow> registered_socket \<Rightarrow> bool" where
  "broadcast_recipient except_connection_ids tags entry \<longleftrightarrow>
     reg_open entry \<and> conn_id (reg_connection entry) \<notin> set except_connection_ids \<and> set tags \<subseteq> set (conn_tags (reg_connection entry))"

fun apply_one :: "actor_key \<Rightarrow> actor_socket_effect \<Rightarrow> gateway \<Rightarrow> gateway" where
  "apply_one actor (Broadcast message except_connection_ids tags) g =
     fold (send_outbound (OutMessage message))
       (map (reg_outbound \<circ> snd) (filter (broadcast_recipient except_connection_ids tags \<circ> snd) (sockets_of g actor))) g"
| "apply_one actor (SetMetadata connection_id metadata) g =
     update_socket actor connection_id (\<lambda>entry. entry\<lparr>reg_connection := (reg_connection entry)\<lparr>conn_metadata := metadata\<rparr>\<rparr>) g"
| "apply_one actor (SetTags connection_id tags) g =
     update_socket actor connection_id (\<lambda>entry. entry\<lparr>reg_connection := (reg_connection entry)\<lparr>conn_tags := tags\<rparr>\<rparr>) g"
| "apply_one actor (Send connection_id message) g = send_to actor connection_id (OutMessage message) g"
| "apply_one actor (Close connection_id code reason) g = send_to actor connection_id (OutClose code reason) g"
| "apply_one actor (Reject connection_id code reason) g = send_to actor connection_id (OutClose code reason) g"

definition registry_apply :: "actor_key \<Rightarrow> actor_socket_effect list \<Rightarrow> gateway \<Rightarrow> gateway" where
  "registry_apply actor effects g = fold (apply_one actor) effects g"

definition activate :: "actor_key \<Rightarrow> string \<Rightarrow> gateway \<Rightarrow> gateway" where
  "activate actor connection_id g = update_socket actor connection_id (\<lambda>entry. entry\<lparr>reg_open := True\<rparr>) g"

section \<open>Who may open a socket\<close>

record socket_api_error =
  api_status :: nat
  api_message :: string

definition api_bad_request :: socket_api_error where
  "api_bad_request = \<lparr>api_status = 400, api_message = ''invalid socket request''\<rparr>"

definition api_unauthorized :: "string \<Rightarrow> socket_api_error" where
  "api_unauthorized message = \<lparr>api_status = 401, api_message = message\<rparr>"

definition api_forbidden :: "string \<Rightarrow> socket_api_error" where
  "api_forbidden message = \<lparr>api_status = 403, api_message = message\<rparr>"

definition replace_error :: "'f \<Rightarrow> 'e + 'a \<Rightarrow> 'f + 'a" where
  "replace_error f r = (case r of Inl _ \<Rightarrow> Inl f | Inr x \<Rightarrow> Inr x)"

definition require :: "bool \<Rightarrow> 'e \<Rightarrow> 'e + unit" where
  "require b e = (if b then Inr () else Inl e)"

record socket_access =
  acc_actor :: actor_key
  acc_principal :: actor_principal
  acc_metadata :: "json option"
  acc_trigger_id :: "string option"

text \<open>\<open>verify\<close> is \<^verbatim>\<open>authenticate_workflow\<close>; a header is absent, not text, or text.\<close>

definition authorize_workflow ::
    "(string \<Rightarrow> actor_principal result) \<Rightarrow> string result option \<Rightarrow> actor_key \<Rightarrow> socket_api_error + actor_principal" where
  "authorize_workflow verify header actor =
     and_then (case header of
                 None \<Rightarrow> Inl (api_unauthorized ''actor token is required'')
               | Some (Inl _) \<Rightarrow> Inl (api_unauthorized ''actor token is invalid'')
               | Some (Inr authorization) \<Rightarrow> Inr authorization) (\<lambda>authorization.
     and_then (replace_error (api_unauthorized ''actor token was rejected'') (verify authorization)) (\<lambda>prin.
     and_then (require (prin_process_role prin = Workflow \<and> scope_contains (prin_scope prin) actor)
       (api_forbidden ''workflow token is not valid for this actor'')) (\<lambda>_.
     Inr prin)))"

definition connect_workflow ::
    "(string \<Rightarrow> actor_principal result) \<Rightarrow> string result option \<Rightarrow> actor_key \<Rightarrow> socket_api_error + socket_access" where
  "connect_workflow verify header actor =
     and_then (replace_error api_bad_request (actor_validate actor)) (\<lambda>_.
     and_then (authorize_workflow verify header actor) (\<lambda>prin.
     Inr \<lparr>acc_actor = actor, acc_principal = prin, acc_metadata = None, acc_trigger_id = None\<rparr>))"

definition apply_effects ::
    "(string \<Rightarrow> actor_principal result) \<Rightarrow> (string \<Rightarrow> string result) \<Rightarrow> (json \<Rightarrow> string result) \<Rightarrow> string result option \<Rightarrow> actor_key
     \<Rightarrow> actor_socket_effect list \<Rightarrow> gateway \<Rightarrow> (socket_api_error + nat) \<times> gateway" where
  "apply_effects verify decode to_vec header actor effects g =
     (case and_then (replace_error api_bad_request (actor_validate actor)) (\<lambda>_.
           and_then (authorize_workflow verify header actor) (\<lambda>_.
           replace_error api_bad_request (validate_socket_effects decode to_vec effects))) of
        Inl e \<Rightarrow> (Inl e, g)
      | Inr _ \<Rightarrow> (Inr 204, registry_apply actor effects g))"

text \<open>A readable header consists of printable ASCII characters and tabs.\<close>

definition is_blank :: "char \<Rightarrow> bool" where
  "is_blank c \<longleftrightarrow> byte c = 32 \<or> byte c = 9"

definition trim_blanks :: "string \<Rightarrow> string" where
  "trim_blanks s = rev (dropWhile is_blank (rev (dropWhile is_blank s)))"

fun find_map :: "('a \<Rightarrow> 'b option) \<Rightarrow> 'a list \<Rightarrow> 'b option" where
  "find_map f [] = None"
| "find_map f (x # xs) = (case f x of Some y \<Rightarrow> Some y | None \<Rightarrow> find_map f xs)"

definition non_empty :: "string option \<Rightarrow> string option" where
  "non_empty s = (if s = Some [] then None else s)"

definition readable :: "string result option \<Rightarrow> string option" where
  "readable header = Option.bind header ok"

definition external_credential :: "string result option \<Rightarrow> string result option \<Rightarrow> string option" where
  "external_credential authorization protocols =
     (case non_empty (Option.bind (readable authorization) (strip_prefix ''Bearer '')) of
        Some credential \<Rightarrow> Some credential
      | None \<Rightarrow> non_empty (Option.bind (readable protocols) (\<lambda>value.
          find_map (strip_prefix ''terse-ticket.'') (map trim_blanks (split_on (CHR '','') value)))))"

record socket_authorization_request =
  sar_trigger_id :: string
  sar_actor_id :: string
  sar_credential :: string

record socket_authorization =
  sa_actor :: actor_key
  sa_storage_region :: string
  sa_metadata :: json
  sa_expires_at :: i64

datatype socket_authorization_error = Rejected | AuthorizationUnavailable error

record socket_authorization_response =
  sresp_namespace_id :: string
  sresp_actor_type :: string
  sresp_actor_id :: string
  sresp_storage_region :: string
  sresp_metadata :: json
  sresp_expires_at :: i64

definition into_authorization ::
    "(json \<Rightarrow> string result) \<Rightarrow> i64 result \<Rightarrow> string \<Rightarrow> socket_authorization_response \<Rightarrow> socket_authorization result" where
  "into_authorization to_vec unix_seconds requested_actor_id response =
     and_then (ensure (sresp_actor_id response = requested_actor_id) ''socket authorization changed the requested actor ID'') (\<lambda>_.
     and_then (ensure (sresp_storage_region response \<noteq> []) ''socket authorization omitted its storage region'') (\<lambda>_.
     and_then unix_seconds (\<lambda>now.
     and_then (ensure (now < sresp_expires_at response) ''socket authorization has expired'') (\<lambda>_.
     and_then (validate_socket_metadata to_vec (sresp_metadata response)) (\<lambda>_.
     (let actor = \<lparr>namespace_id = sresp_namespace_id response, actor_type = sresp_actor_type response, actor_id = sresp_actor_id response\<rparr>
      in and_then (actor_validate actor) (\<lambda>_.
         Inr \<lparr>sa_actor = actor, sa_storage_region = sresp_storage_region response,
              sa_metadata = sresp_metadata response, sa_expires_at = sresp_expires_at response\<rparr>)))))))"

text \<open>The body of a response: the announced length, if any, and the chunks that arrive.\<close>

abbreviation max_socket_authorization_response_bytes :: nat where "max_socket_authorization_response_bytes \<equiv> 131072"

fun read_chunks :: "string \<Rightarrow> string result list \<Rightarrow> string result" where
  "read_chunks document [] = Inr document"
| "read_chunks document (Inl e # chunks) = Inl e"
| "read_chunks document (Inr chunk # chunks) =
     and_then (ensure (usize_saturating_add (length document) (length chunk) \<le> max_socket_authorization_response_bytes)
       ''socket authorization response exceeds 131072 bytes'') (\<lambda>_.
     read_chunks (document @ chunk) chunks)"

definition read_authorization_response ::
    "(string \<Rightarrow> socket_authorization_response result) \<Rightarrow> u64 option \<Rightarrow> string result list \<Rightarrow> socket_authorization_response result" where
  "read_authorization_response from_slice content_length chunks =
     and_then (case content_length of
                 None \<Rightarrow> Inr ()
               | Some n \<Rightarrow> ensure (unat n \<le> max_socket_authorization_response_bytes) ''socket authorization response exceeds 131072 bytes'') (\<lambda>_.
     and_then (read_chunks [] chunks) (\<lambda>document.
     with_context (from_slice document) ''decode socket authorization response''))"

record http_response =
  resp_status :: nat
  resp_content_length :: "u64 option"
  resp_chunks :: "string result list"

definition socket_authorize ::
    "(string \<Rightarrow> socket_authorization_response result) \<Rightarrow> (json \<Rightarrow> string result) \<Rightarrow> i64 result
     \<Rightarrow> (socket_authorization_request \<Rightarrow> http_response result) \<Rightarrow> socket_authorization_request
     \<Rightarrow> socket_authorization_error + socket_authorization" where
  "socket_authorize from_slice to_vec unix_seconds post request =
     (case post request of
        Inl e \<Rightarrow> Inl (AuthorizationUnavailable e)
      | Inr response \<Rightarrow>
          if resp_status response \<in> {401, 403, 404} then Inl Rejected
          else if 400 \<le> resp_status response \<and> resp_status response < 600 then Inl (AuthorizationUnavailable (Bail ''HTTP status error''))
          else (case and_then (read_authorization_response from_slice (resp_content_length response) (resp_chunks response))
                       (into_authorization to_vec unix_seconds (sar_actor_id request)) of
                  Inl e \<Rightarrow> Inl (AuthorizationUnavailable e)
                | Inr authorization \<Rightarrow> Inr authorization))"

text \<open>The service's authenticator, if one is configured.\<close>

definition authorize_socket ::
    "(socket_authorization_request \<Rightarrow> socket_authorization_error + socket_authorization) option \<Rightarrow> socket_authorization_request
     \<Rightarrow> socket_authorization_error + socket_authorization" where
  "authorize_socket authenticator request =
     (case authenticator of
        None \<Rightarrow> Inl (AuthorizationUnavailable (Bail ''socket authorization is not configured''))
      | Some authorize \<Rightarrow> authorize request)"

fun api_from_authorization :: "socket_authorization_error \<Rightarrow> socket_api_error" where
  "api_from_authorization Rejected = api_unauthorized ''socket credential was rejected''"
| "api_from_authorization (AuthorizationUnavailable _) = \<lparr>api_status = 503, api_message = ''socket authorization is unavailable''\<rparr>"

definition connect_external ::
    "(socket_authorization_request \<Rightarrow> socket_authorization_error + socket_authorization) option \<Rightarrow> string \<Rightarrow> string
     \<Rightarrow> string \<Rightarrow> string \<Rightarrow> string result option \<Rightarrow> string result option \<Rightarrow> socket_api_error + socket_access" where
  "connect_external authenticator host_uuid session_uuid trigger_id requested authorization protocols =
     (case external_credential authorization protocols of
        None \<Rightarrow> Inl (api_unauthorized ''socket credential is required'')
      | Some credential \<Rightarrow>
          (case authorize_socket authenticator \<lparr>sar_trigger_id = trigger_id, sar_actor_id = requested, sar_credential = credential\<rparr> of
             Inl e \<Rightarrow> Inl (api_from_authorization e)
           | Inr a \<Rightarrow>
               Inr \<lparr>acc_actor = sa_actor a,
                    acc_principal = for_external_socket host_uuid session_uuid (sa_actor a) (sa_storage_region a) (sa_expires_at a),
                    acc_metadata = Some (sa_metadata a), acc_trigger_id = Some trigger_id\<rparr>))"

definition http_endpoint_new :: "string \<Rightarrow> (string \<Rightarrow> string result) \<Rightarrow> unit result \<Rightarrow> string \<Rightarrow> string \<Rightarrow> (string \<times> string) result" where
  "http_endpoint_new what parse_scheme client url token =
     and_then (with_context (parse_scheme url) (what @ '' URL is invalid'')) (\<lambda>scheme.
     and_then (ensure (scheme = ''http'' \<or> scheme = ''https'') (what @ '' URL must use HTTP or HTTPS'')) (\<lambda>_.
     and_then (ensure (token \<noteq> []) (what @ '' token must not be empty'')) (\<lambda>_.
     and_then client (\<lambda>_. Inr (url, token)))))"

definition socket_authenticator_new :: "(string \<Rightarrow> string result) \<Rightarrow> unit result \<Rightarrow> string \<Rightarrow> string \<Rightarrow> (string \<times> string) result" where
  "socket_authenticator_new parse_scheme client url token =
     http_endpoint_new ''socket authorization'' parse_scheme (with_context client ''build socket authorization HTTP client'') url token"

definition event_sink_new :: "(string \<Rightarrow> string result) \<Rightarrow> string \<Rightarrow> string \<Rightarrow> (string \<times> string) result" where
  "event_sink_new parse_scheme url token = http_endpoint_new ''socket event sink'' parse_scheme (Inr ()) url token"

section \<open>Message events\<close>

record socket_message_event =
  sme_event_id :: string
  sme_namespace_id :: string
  sme_actor_type :: string
  sme_actor_id :: string
  sme_trigger_id :: "string option"
  sme_connection_id :: string
  sme_message :: actor_socket_message

definition message_event :: "string \<Rightarrow> actor_key \<Rightarrow> string option \<Rightarrow> string \<Rightarrow> actor_socket_message \<Rightarrow> socket_message_event" where
  "message_event event_id actor trigger_id connection_id message =
     \<lparr>sme_event_id = event_id, sme_namespace_id = namespace_id actor, sme_actor_type = Actor_Protocol.actor_type actor,
      sme_actor_id = actor_id actor, sme_trigger_id = trigger_id, sme_connection_id = connection_id, sme_message = message\<rparr>"

definition sink_deliver :: "(socket_message_event \<Rightarrow> http_response result) \<Rightarrow> socket_message_event \<Rightarrow> unit result" where
  "sink_deliver post event =
     and_then (post event) (\<lambda>response.
     if 400 \<le> resp_status response \<and> resp_status response < 600
     then Inl (Context ''socket event sink rejected the event'' (Bail ''HTTP status error'')) else Inr ())"

text \<open>The delivery itself runs in the background and its failure is only logged: here, what is handed to the sink.\<close>

definition deliver_socket_message_event ::
    "bool \<Rightarrow> string \<Rightarrow> actor_key \<Rightarrow> string option \<Rightarrow> actor_socket_event \<Rightarrow> socket_message_event list" where
  "deliver_socket_message_event configured event_id actor trigger_id event =
     (case event of
        Message connection_id message \<Rightarrow>
          if configured then [message_event event_id actor trigger_id connection_id message] else []
      | _ \<Rightarrow> [])"

section \<open>A connection\<close>

text \<open>
  \<open>se_service\<close> is the control plane's dispatch of an event to the actor's host; while it is awaited, other
  connections may use the registry. \<open>'w\<close> is the rest of the world.
\<close>

record 'w socket_env =
  se_service :: "actor_principal \<Rightarrow> actor_socket_invocation \<Rightarrow> gateway \<times> 'w \<Rightarrow> actor_socket_effect list result \<times> gateway \<times> 'w"
  se_deliver :: "socket_message_event list \<Rightarrow> 'w \<Rightarrow> 'w"
  se_uuid :: "'w \<Rightarrow> string"
  se_sink :: bool
  se_decode :: "string \<Rightarrow> string result"
  se_encode :: "string \<Rightarrow> string"
  se_to_vec :: "json \<Rightarrow> string result"

definition event_connecting :: "actor_socket_event \<Rightarrow> string option" where
  "event_connecting event = (case event of Connect connection \<Rightarrow> Some (conn_id connection) | _ \<Rightarrow> None)"

definition event_message_connection :: "actor_socket_event \<Rightarrow> string option" where
  "event_message_connection event = (case event of Message connection_id _ \<Rightarrow> Some connection_id | _ \<Rightarrow> None)"

definition dispatch ::
    "'w socket_env \<Rightarrow> actor_key \<Rightarrow> actor_principal \<Rightarrow> actor_socket_event \<Rightarrow> bool \<Rightarrow> gateway \<times> 'w \<Rightarrow> bool \<times> gateway \<times> 'w" where
  "dispatch env actor prin event trigger_message st =
     (case st of (g, w) \<Rightarrow>
        (case prepare_event actor event g of ((event', connections), g1) \<Rightarrow>
           (case se_service env prin \<lparr>sock_request_id = se_uuid env w, sock_actor = actor, sock_event = event',
                   sock_connections = connections, sock_state = None\<rparr> (g1, w) of
              (Inl e, st2) \<Rightarrow> (False, st2)
            | (Inr effects, (g2, w2)) \<Rightarrow>
                (case validate_socket_effects (se_decode env) (se_to_vec env) effects of
                   Inl e \<Rightarrow> (False, g2, w2)
                 | Inr _ \<Rightarrow>
                     (let g3 = registry_apply actor effects g2;
                          g4 = (case event_connecting event' of None \<Rightarrow> g3 | Some connection_id \<Rightarrow> activate actor connection_id g3);
                          w3 = (if trigger_message
                                then se_deliver env (deliver_socket_message_event (se_sink env) (se_uuid env w2) actor
                                  (registry_trigger_id actor (event_message_connection event') g4) event') w2
                                else w2)
                      in (True, g4, w3))))))"

datatype inbound = InText string | InBinary string | InPing | InPong | InClose "(u16 \<times> string) option" | InError | InEnd

text \<open>
  What the \<^verbatim>\<open>select!\<close> of the connection's loop yields next: something from the client, or the next
  message of the connection's channel, or its end when no sender is left; \<open>sent\<close> tells whether the
  answer could be written.
\<close>

datatype socket_poll = Inbound inbound bool | Outbound bool | ChannelClosed

type_synonym socket_end = "u16 \<times> string \<times> bool"

definition lost_connection :: socket_end where
  "lost_connection = (1006, [], False)"

definition handler_failed :: socket_end where
  "handler_failed = (1011, ''actor socket handler failed'', False)"

fun websocket_message :: "(string \<Rightarrow> string result) \<Rightarrow> actor_socket_message \<Rightarrow> string option" where
  "websocket_message decode (Text data) = Some data"
| "websocket_message decode (Binary data) = ok (decode data)"

definition after_dispatch :: "bool \<times> gateway \<times> 'w \<Rightarrow> socket_end option \<times> gateway \<times> 'w" where
  "after_dispatch r = (case r of (handled, st) \<Rightarrow> (if handled then None else Some handler_failed, st))"

definition on_inbound ::
    "'w socket_env \<Rightarrow> actor_key \<Rightarrow> actor_principal \<Rightarrow> string \<Rightarrow> inbound \<Rightarrow> bool \<Rightarrow> gateway \<times> 'w \<Rightarrow> socket_end option \<times> gateway \<times> 'w" where
  "on_inbound env actor prin connection_id frame_in sent st =
     (case frame_in of
        InText data \<Rightarrow> after_dispatch (dispatch env actor prin (Message connection_id (Text data)) True st)
      | InBinary data \<Rightarrow> after_dispatch (dispatch env actor prin (Message connection_id (Binary (se_encode env data))) True st)
      | InPing \<Rightarrow> (if sent then None else Some lost_connection, st)
      | InPong \<Rightarrow> (None, st)
      | InClose None \<Rightarrow> (Some (1000, [], True), st)
      | InClose (Some (code, reason)) \<Rightarrow> (Some (code, reason, True), st)
      | InError \<Rightarrow> (Some lost_connection, st)
      | InEnd \<Rightarrow> (Some lost_connection, st))"

definition on_outbound :: "'w socket_env \<Rightarrow> nat \<Rightarrow> bool \<Rightarrow> gateway \<times> 'w \<Rightarrow> socket_end option \<times> gateway \<times> 'w" where
  "on_outbound env channel sent st =
     (case st of (g, w) \<Rightarrow>
        (case gw_queues g channel of
           None \<Rightarrow> (None, g, w)
         | Some [] \<Rightarrow> (None, g, w)
         | Some (message # queue) \<Rightarrow>
             (let g' = g\<lparr>gw_queues := (gw_queues g)(channel \<mapsto> queue)\<rparr> in
              case message of
                OutMessage m \<Rightarrow>
                  (case websocket_message (se_decode env) m of
                     None \<Rightarrow> (Some (1011, ''actor produced an invalid socket message'', False), g', w)
                   | Some _ \<Rightarrow> (if sent then None else Some lost_connection, g', w))
              | OutClose code reason \<Rightarrow> (Some (code, reason, True), g', w))))"

text \<open>
  The loop over the polls that happen, each after other connections' use of the registry. It yields how the
  connection ended, or nothing while it is open.
\<close>

fun connection_loop ::
    "'w socket_env \<Rightarrow> actor_key \<Rightarrow> actor_principal \<Rightarrow> string \<Rightarrow> nat \<Rightarrow> ((gateway \<Rightarrow> gateway) \<times> socket_poll) list \<Rightarrow> gateway \<times> 'w
     \<Rightarrow> socket_end option \<times> gateway \<times> 'w" where
  "connection_loop env actor prin connection_id channel [] st = (None, st)"
| "connection_loop env actor prin connection_id channel ((others, poll) # polls) st =
     (case (case poll of
              Inbound frame_in sent \<Rightarrow> on_inbound env actor prin connection_id frame_in sent (others (fst st), snd st)
            | Outbound sent \<Rightarrow> on_outbound env channel sent (others (fst st), snd st)
            | ChannelClosed \<Rightarrow> (Some lost_connection, others (fst st), snd st)) of
        (Some d, st') \<Rightarrow> (Some d, st')
      | (None, st') \<Rightarrow> connection_loop env actor prin connection_id channel polls st')"

text \<open>The client's first message when the metadata is not known yet: nothing in time, or a frame.\<close>

definition receive_metadata :: "(string \<Rightarrow> json result) \<Rightarrow> (json \<Rightarrow> string result) \<Rightarrow> inbound option \<Rightarrow> json option" where
  "receive_metadata from_str to_vec received =
     (case received of
        Some (InText document) \<Rightarrow>
          if length document > max_socket_metadata_bytes + 128 then None
          else (case from_str document of
                  Inl e \<Rightarrow> None
                | Inr metadata \<Rightarrow> map_option (\<lambda>_. metadata) (ok (validate_socket_metadata to_vec metadata)))
      | _ \<Rightarrow> None)"

definition initial_metadata :: "(string \<Rightarrow> json result) \<Rightarrow> (json \<Rightarrow> string result) \<Rightarrow> inbound option \<Rightarrow> socket_access \<Rightarrow> json option" where
  "initial_metadata from_str to_vec received access =
     (case acc_metadata access of Some m \<Rightarrow> Some m | None \<Rightarrow> receive_metadata from_str to_vec received)"

datatype connection_outcome = Refused u16 string | StillOpen | Ended socket_end

definition drop_receiver :: "nat \<Rightarrow> gateway \<Rightarrow> gateway" where
  "drop_receiver channel g = g\<lparr>gw_queues := (gw_queues g)(channel := None)\<rparr>"

definition run_socket ::
    "'w socket_env \<Rightarrow> (string \<Rightarrow> json result) \<Rightarrow> inbound option \<Rightarrow> nat \<Rightarrow> ((gateway \<Rightarrow> gateway) \<times> socket_poll) list \<Rightarrow> string \<Rightarrow> socket_access
     \<Rightarrow> gateway \<times> 'w \<Rightarrow> connection_outcome \<times> gateway \<times> 'w" where
  "run_socket env from_str received channel polls new_id access st =
     (case initial_metadata from_str (se_to_vec env) received access of
        None \<Rightarrow> (Refused 1002 ''socket metadata was not initialized'', st)
      | Some metadata \<Rightarrow>
          (let actor = acc_actor access; prin = acc_principal access;
               connection = \<lparr>conn_id = new_id, conn_metadata = metadata, conn_tags = []\<rparr>;
               (g, w) = st
           in case registry_insert actor connection channel (acc_trigger_id access) (g\<lparr>gw_queues := (gw_queues g)(channel \<mapsto> [])\<rparr>) of
                (False, g1) \<Rightarrow> (Refused 1013 ''actor connection limit reached'', drop_receiver channel g1, w)
              | (True, g1) \<Rightarrow>
                  (case dispatch env actor prin (Connect connection) False (g1, w) of
                     (False, (g2, w2)) \<Rightarrow>
                       (Refused 1011 ''actor rejected the connection'', drop_receiver channel (snd (registry_remove actor new_id g2)), w2)
                   | (True, st2) \<Rightarrow>
                       (case connection_loop env actor prin new_id channel polls st2 of
                          (None, st3) \<Rightarrow> (StillOpen, st3)
                        | (Some (code, reason, was_clean), st3) \<Rightarrow>
                            (case dispatch env actor prin (Disconnect connection code reason was_clean) False st3 of
                               (_, (g4, w4)) \<Rightarrow>
                                 (Ended (code, reason, was_clean), drop_receiver channel (snd (registry_remove actor new_id g4)), w4))))))"

section \<open>The registry's invariant\<close>

definition sockets_ok :: "(string \<times> registered_socket) list \<Rightarrow> bool" where
  "sockets_ok connections \<longleftrightarrow> length connections \<le> max_connections_per_actor \<and> distinct (map fst connections) \<and>
     list_all (\<lambda>(i, entry). conn_id (reg_connection entry) = i) connections"

definition registry_ok :: "gateway \<Rightarrow> bool" where
  "registry_ok g \<longleftrightarrow> (\<forall>actor connections. gw_entries g actor = Some connections \<longrightarrow> connections \<noteq> [] \<and> sockets_ok connections)"

lemma registry_okI:
  "registry_ok g \<Longrightarrow> connections \<noteq> [] \<Longrightarrow> sockets_ok connections \<Longrightarrow>
   registry_ok (g\<lparr>gw_entries := (gw_entries g)(actor \<mapsto> connections)\<rparr>)"
  by (simp add: registry_ok_def)

lemma registry_ok_entries: "registry_ok g \<Longrightarrow> gw_entries g' = gw_entries g \<Longrightarrow> registry_ok g'"
  by (simp add: registry_ok_def)

lemma registry_ok_queues [simp]: "registry_ok (g\<lparr>gw_queues := q\<rparr>) = registry_ok g"
  by (simp add: registry_ok_def)

lemma registry_ok_sockets: "registry_ok g \<Longrightarrow> sockets_ok (sockets_of g actor)"
  by (cases "gw_entries g actor") (simp_all add: registry_ok_def sockets_of_def sockets_ok_def)

lemma sockets_ok_mem: "sockets_ok connections \<Longrightarrow> (i, entry) \<in> set connections \<Longrightarrow> conn_id (reg_connection entry) = i"
  by (auto simp: sockets_ok_def list_all_iff)

lemma set_update_subset: "set (AList.update k v al) \<subseteq> insert (k, v) (set al)"
  by (induction al) auto

lemma length_update: "length (AList.update k v al) = (if k \<in> fst ` set al then length al else Suc (length al))"
  by (induction al) auto

lemma sockets_ok_update:
  assumes "sockets_ok connections" "conn_id (reg_connection entry) = i"
    and "length (AList.update i entry connections) \<le> max_connections_per_actor"
  shows "sockets_ok (AList.update i entry connections)"
  using assms set_update_subset [of i entry connections] by (fastforce simp: sockets_ok_def list_all_iff distinct_update)

lemma set_delete_subset: "set (AList.delete k al) \<subseteq> set al"
  by (auto simp: AList.delete_eq)

lemma sockets_ok_delete: "sockets_ok connections \<Longrightarrow> sockets_ok (AList.delete i connections)"
  using length_delete_le [of i connections] set_delete_subset [of i connections]
  by (auto simp: sockets_ok_def list_all_iff distinct_delete)

lemma registry_insert_ok:
  assumes ok: "registry_ok g" and run: "registry_insert actor connection channel trigger g = (inserted, g')"
  shows "registry_ok g'"
proof (cases "length (sockets_of g actor) \<ge> max_connections_per_actor")
  case True
  then obtain connections where c: "gw_entries g actor = Some connections" "sockets_of g actor = connections"
    by (cases "gw_entries g actor") (simp_all add: sockets_of_def)
  with True run have "g' = g\<lparr>gw_entries := (gw_entries g)(actor \<mapsto> connections)\<rparr>" by (simp add: registry_insert_def Let_def)
  with ok c(1) show ?thesis by (intro registry_ok_entries [OF ok]) (simp add: map_upd_triv)
next
  case False
  let ?entry = "\<lparr>reg_connection = connection, reg_outbound = channel, reg_open = False, reg_trigger_id = trigger\<rparr>"
  have g': "g' = g\<lparr>gw_entries := (gw_entries g)(actor \<mapsto> AList.update (conn_id connection) ?entry (sockets_of g actor))\<rparr>"
    using False run by (simp add: registry_insert_def Let_def)
  show ?thesis unfolding g' using False
    by (intro registry_okI ok sockets_ok_update registry_ok_sockets) (simp_all add: length_update)
qed

lemma registry_remove_ok: "registry_ok g \<Longrightarrow> registry_ok (snd (registry_remove actor i g))"
proof (cases "gw_entries g actor")
  case (Some connections)
  assume ok: "registry_ok g"
  with Some have "sockets_ok connections" by (simp add: registry_ok_def)
  with Some ok show ?thesis
    by (cases "AList.delete i connections = []")
      (simp_all add: registry_remove_def Let_def registry_okI sockets_ok_delete, simp add: registry_ok_def)
qed (simp add: registry_remove_def)

lemma update_socket_ok:
  assumes ok: "registry_ok g" and f: "\<And>entry. conn_id (reg_connection (f entry)) = conn_id (reg_connection entry)"
  shows "registry_ok (update_socket actor i f g)"
proof (cases "Option.bind (gw_entries g actor) (\<lambda>connections. map_of connections i)")
  case None
  then have "update_socket actor i f g = g" by (auto simp: update_socket_def split: option.splits)
  with ok show ?thesis by simp
next
  case (Some entry)
  then obtain connections where c: "gw_entries g actor = Some connections" "map_of connections i = Some entry"
    by (cases "gw_entries g actor") auto
  then have mem: "(i, entry) \<in> set connections" by (auto intro: map_of_SomeD)
  have good: "sockets_ok connections" using ok c(1) by (simp add: registry_ok_def)
  have "i \<in> fst ` set connections" using mem by force
  then have "sockets_ok (AList.update i (f entry) connections)"
    using good sockets_ok_mem [OF good mem] f by (intro sockets_ok_update) (simp_all add: length_update sockets_ok_def)
  with ok c show ?thesis by (simp add: update_socket_def registry_okI)
qed

lemma send_outbound_entries [simp]: "gw_entries (send_outbound m c g) = gw_entries g"
  by (simp add: send_outbound_def split: option.splits)

lemma fold_send_entries [simp]: "gw_entries (fold (send_outbound m) cs g) = gw_entries g"
  by (induction cs arbitrary: g) simp_all

lemma send_to_entries [simp]: "gw_entries (send_to actor i m g) = gw_entries g"
  by (simp add: send_to_def split: option.splits)

lemma apply_one_ok: "registry_ok g \<Longrightarrow> registry_ok (apply_one actor effect g)"
  by (cases effect) (simp_all add: update_socket_ok, rule registry_ok_entries, assumption, simp,
      (rule registry_ok_entries, assumption, simp)+)

lemma registry_apply_ok: "registry_ok g \<Longrightarrow> registry_ok (registry_apply actor effects g)"
  unfolding registry_apply_def by (induction effects arbitrary: g) (simp_all add: apply_one_ok)

lemma activate_ok: "registry_ok g \<Longrightarrow> registry_ok (activate actor i g)"
  unfolding activate_def by (rule update_socket_ok) simp_all

lemma prepare_event_ok: "registry_ok g \<Longrightarrow> registry_ok (snd (prepare_event actor event g))"
  using registry_remove_ok [of g actor "conn_id (case event of Disconnect c _ _ _ \<Rightarrow> c)"]
  by (cases event) (auto simp: prepare_event_def split_beta)

text \<open>Other connections, and the dispatcher while it is awaited, keep the invariant.\<close>

definition service_ok :: "'w socket_env \<Rightarrow> bool" where
  "service_ok env \<longleftrightarrow> (\<forall>prin i g w. registry_ok g \<longrightarrow> registry_ok (fst (snd (se_service env prin i (g, w)))))"

definition polls_ok :: "((gateway \<Rightarrow> gateway) \<times> socket_poll) list \<Rightarrow> bool" where
  "polls_ok polls \<longleftrightarrow> (\<forall>(others, poll) \<in> set polls. \<forall>g. registry_ok g \<longrightarrow> registry_ok (others g))"

lemma dispatch_ok:
  assumes env: "service_ok env" and ok: "registry_ok (fst st)"
    and run: "dispatch env actor prin event trigger st = (handled, st')"
  shows "registry_ok (fst st')"
proof -
  obtain g w where st: "st = (g, w)" by fastforce
  obtain event' connections g1 where prep: "prepare_event actor event g = ((event', connections), g1)" by (metis surj_pair)
  let ?i = "\<lparr>sock_request_id = se_uuid env w, sock_actor = actor, sock_event = event', sock_connections = connections, sock_state = None\<rparr>"
  obtain r g2 w2 where served: "se_service env prin ?i (g1, w) = (r, g2, w2)" by (metis surj_pair)
  have "registry_ok g1" using ok st prep prepare_event_ok [of g actor event] by simp
  then have "registry_ok g2" using env served unfolding service_ok_def by (metis fst_conv snd_conv)
  then have "registry_ok (registry_apply actor effects g2)" "registry_ok (activate actor i (registry_apply actor effects g2))" for effects i
    by (simp_all add: registry_apply_ok activate_ok)
  then show ?thesis using run st prep served \<open>registry_ok g2\<close>
    by (auto simp: dispatch_def Let_def split: sum.splits option.splits)
qed

lemma on_inbound_ok:
  assumes "service_ok env" "registry_ok (fst st)" "on_inbound env actor prin i f sent st = (d, st')"
  shows "registry_ok (fst st')"
  using assms(3) dispatch_ok [OF assms(1,2)] assms(2)
  by (cases f) (auto simp: on_inbound_def after_dispatch_def split: prod.splits option.splits)

lemma on_outbound_ok: "registry_ok (fst st) \<Longrightarrow> on_outbound env channel sent st = (d, st') \<Longrightarrow> registry_ok (fst st')"
  by (auto simp: on_outbound_def Let_def split: prod.splits option.splits list.splits outbound_message.splits)

lemma connection_loop_ok:
  "service_ok env \<Longrightarrow> polls_ok polls \<Longrightarrow> registry_ok (fst st) \<Longrightarrow>
   connection_loop env actor prin i channel polls st = (d, st') \<Longrightarrow> registry_ok (fst st')"
proof (induction polls arbitrary: st)
  case (Cons x polls)
  obtain others poll where x: "x = (others, poll)" by fastforce
  let ?st = "(others (fst st), snd st)"
  have start: "registry_ok (fst ?st)" using Cons.prems(2,3) x by (simp add: polls_ok_def)
  have rest: "polls_ok polls" using Cons.prems(2) by (simp add: polls_ok_def)
  let ?one = "case poll of Inbound f sent \<Rightarrow> on_inbound env actor prin i f sent ?st | Outbound sent \<Rightarrow> on_outbound env channel sent ?st
      | ChannelClosed \<Rightarrow> (Some lost_connection, ?st)"
  obtain d1 st1 where one: "?one = (d1, st1)" by (rule prod.exhaust)
  have "registry_ok (fst st1)"
    using one start on_inbound_ok [OF Cons.prems(1) start] on_outbound_ok [OF start] by (cases poll) auto
  then show ?case using Cons.prems(4) x one Cons.IH [OF Cons.prems(1) rest] by (cases d1) auto
qed simp

lemma drop_receiver_ok [simp]: "registry_ok (drop_receiver channel g) = registry_ok g"
  by (simp add: drop_receiver_def)

text \<open>
  Claim C36. The registry keeps its limits: through the whole life of a connection, on every path, and whatever the
  other connections do within the invariant, no actor has more than 128 connections, ids are unique and are those of
  the connections they name, and no actor without connections stays in the registry.
\<close>

theorem connections_bounded:
  assumes "service_ok env" "polls_ok polls" "registry_ok (fst st)"
    and run: "run_socket env from_str received channel polls i access st = (outcome, st')"
  shows "registry_ok (fst st')"
proof (cases "initial_metadata from_str (se_to_vec env) received access")
  case None
  with run assms(3) show ?thesis by (simp add: run_socket_def)
next
  case (Some m)
  obtain g w where st: "st = (g, w)" by fastforce
  let ?actor = "acc_actor access" and ?prin = "acc_principal access"
  let ?c = "\<lparr>conn_id = i, conn_metadata = m, conn_tags = []\<rparr>"
  obtain inserted g1 where ins: "registry_insert ?actor ?c channel (acc_trigger_id access) (g\<lparr>gw_queues := (gw_queues g)(channel \<mapsto> [])\<rparr>) = (inserted, g1)"
    by fastforce
  have g1: "registry_ok g1" using registry_insert_ok [OF _ ins] assms(3) st by simp
  obtain connected st2 where con: "dispatch env ?actor ?prin (Connect ?c) False (g1, w) = (connected, st2)" by (rule prod.exhaust)
  have st2: "registry_ok (fst st2)" using dispatch_ok [OF assms(1) _ con] g1 by simp
  obtain d st3 where loop: "connection_loop env ?actor ?prin i channel polls st2 = (d, st3)" by (rule prod.exhaust)
  have st3: "registry_ok (fst st3)" using connection_loop_ok [OF assms(1,2) st2 loop] .
  note last = dispatch_ok [OF assms(1) st3]
  show ?thesis using run Some st ins con loop g1 st2 st3 last registry_remove_ok
    by (auto simp: run_socket_def Let_def split: bool.splits option.splits prod.splits)
qed

section \<open>Where effects go\<close>

text \<open>What one connection is to receive for an effect, and what an effect does to its entry.\<close>

fun addressed :: "actor_socket_effect \<Rightarrow> registered_socket \<Rightarrow> outbound_message list" where
  "addressed (Broadcast message except tags) e = (if broadcast_recipient except tags e then [OutMessage message] else [])"
| "addressed (Send i message) e = (if conn_id (reg_connection e) = i then [OutMessage message] else [])"
| "addressed (Close i code reason) e = (if conn_id (reg_connection e) = i then [OutClose code reason] else [])"
| "addressed (Reject i code reason) e = (if conn_id (reg_connection e) = i then [OutClose code reason] else [])"
| "addressed _ e = []"

fun entry_after :: "actor_socket_effect \<Rightarrow> registered_socket \<Rightarrow> registered_socket" where
  "entry_after (SetMetadata i metadata) e =
     (if conn_id (reg_connection e) = i then e\<lparr>reg_connection := (reg_connection e)\<lparr>conn_metadata := metadata\<rparr>\<rparr> else e)"
| "entry_after (SetTags i tags) e =
     (if conn_id (reg_connection e) = i then e\<lparr>reg_connection := (reg_connection e)\<lparr>conn_tags := tags\<rparr>\<rparr> else e)"
| "entry_after _ e = e"

fun addressed_all :: "actor_socket_effect list \<Rightarrow> registered_socket \<Rightarrow> outbound_message list" where
  "addressed_all [] e = []"
| "addressed_all (x # xs) e = addressed x e @ addressed_all xs (entry_after x e)"

definition channels_distinct :: "gateway \<Rightarrow> actor_key \<Rightarrow> bool" where
  "channels_distinct g actor \<longleftrightarrow> (\<forall>i j e f. lookup_socket g actor i = Some e \<longrightarrow> lookup_socket g actor j = Some f \<longrightarrow>
     reg_outbound e = reg_outbound f \<longrightarrow> i = j)"

lemma entry_after_simps [simp]:
  "reg_outbound (entry_after x e) = reg_outbound e" "conn_id (reg_connection (entry_after x e)) = conn_id (reg_connection e)"
  by (cases x; simp)+

lemma lookup_socket_id: "registry_ok g \<Longrightarrow> lookup_socket g actor i = Some e \<Longrightarrow> conn_id (reg_connection e) = i"
  using registry_ok_sockets [of g actor] by (auto simp: lookup_socket_def dest!: map_of_SomeD sockets_ok_mem)

lemma sockets_of_entries: "gw_entries g' = gw_entries g \<Longrightarrow> sockets_of g' = sockets_of g"
  by (auto simp: sockets_of_def)

lemma lookup_update_socket:
  "lookup_socket (update_socket actor i f g) b j =
     (if b = actor \<and> j = i then map_option f (lookup_socket g actor i) else lookup_socket g b j)"
  by (auto simp: lookup_socket_def update_socket_def sockets_of_def update_conv' split: option.splits)

lemma lookup_apply_one:
  assumes "registry_ok g"
  shows "lookup_socket (apply_one actor x g) actor i = map_option (entry_after x) (lookup_socket g actor i)"
proof -
  have ids: "lookup_socket g actor j = Some e \<Longrightarrow> conn_id (reg_connection e) = j" for j e
    using lookup_socket_id [OF assms] .
  have same: "gw_entries g' = gw_entries g \<Longrightarrow> lookup_socket g' = lookup_socket g" for g'
    by (simp add: fun_eq_iff lookup_socket_def sockets_of_def)
  show ?thesis
    by (cases x; cases "lookup_socket g actor i")
      (auto simp: lookup_update_socket same [OF fold_send_entries] same [OF send_to_entries] dest: ids)
qed

lemma queue_fold_send:
  "distinct cs \<Longrightarrow> gw_queues (fold (send_outbound m) cs g) c =
     (if c \<in> set cs then map_option (\<lambda>q. q @ [m]) (gw_queues g c) else gw_queues g c)"
  by (induction cs arbitrary: g) (auto simp: send_outbound_def split: option.splits)

lemma queue_update_socket [simp]: "gw_queues (update_socket actor i f g) = gw_queues g"
  by (simp add: update_socket_def split: option.splits)

lemma queue_send_to:
  "gw_queues (send_to actor i m g) c =
     (if \<exists>e. lookup_socket g actor i = Some e \<and> reg_outbound e = c then map_option (\<lambda>q. q @ [m]) (gw_queues g c) else gw_queues g c)"
  by (auto simp: send_to_def send_outbound_def split: option.splits)

lemma broadcast_channels_distinct:
  assumes ok: "registry_ok g" and inj: "channels_distinct g actor"
  shows "distinct (map (reg_outbound \<circ> snd) (filter P (sockets_of g actor)))"
proof -
  have keys: "distinct (map fst (sockets_of g actor))" using registry_ok_sockets [OF ok] by (simp add: sockets_ok_def)
  have "inj_on (reg_outbound \<circ> snd) (set (sockets_of g actor))"
  proof (rule inj_onI)
    fix x y assume x: "x \<in> set (sockets_of g actor)" and y: "y \<in> set (sockets_of g actor)"
      and same: "(reg_outbound \<circ> snd) x = (reg_outbound \<circ> snd) y"
    have "lookup_socket g actor (fst x) = Some (snd x)" "lookup_socket g actor (fst y) = Some (snd y)"
      using x y keys by (simp_all add: lookup_socket_def)
    then have "fst x = fst y" "snd x = snd y" using inj same unfolding channels_distinct_def by fastforce+
    then show "x = y" by (rule prod_eqI)
  qed
  moreover have "distinct (sockets_of g actor)" using keys by (simp add: distinct_map)
  ultimately show ?thesis by (auto simp: distinct_map intro: inj_on_subset)
qed

lemma queue_apply_one:
  assumes ok: "registry_ok g" and inj: "channels_distinct g actor"
  shows "lookup_socket g actor i = Some e \<Longrightarrow>
      gw_queues (apply_one actor x g) (reg_outbound e) = map_option (\<lambda>q. q @ addressed x e) (gw_queues g (reg_outbound e))"
    and "\<forall>j f. lookup_socket g actor j = Some f \<longrightarrow> reg_outbound f \<noteq> c \<Longrightarrow> gw_queues (apply_one actor x g) c = gw_queues g c"
proof -
  have keys: "distinct (map fst (sockets_of g actor))" using registry_ok_sockets [OF ok] by (simp add: sockets_ok_def)
  have mem: "(j, f) \<in> set (sockets_of g actor) \<longleftrightarrow> lookup_socket g actor j = Some f" for j f
    using keys by (simp add: lookup_socket_def)
  have sent: "c \<in> set (map (reg_outbound \<circ> snd) (filter (P \<circ> snd) (sockets_of g actor))) \<longleftrightarrow>
      (\<exists>j f. lookup_socket g actor j = Some f \<and> reg_outbound f = c \<and> P f)" for c P
    using mem by force
  note bcast = queue_fold_send [OF broadcast_channels_distinct [OF ok inj]]
  {
    assume e: "lookup_socket g actor i = Some e"
    have one: "lookup_socket g actor j = Some f \<Longrightarrow> reg_outbound f = reg_outbound e \<Longrightarrow> j = i \<and> f = e" for j f
      using inj e unfolding channels_distinct_def by (metis option.inject)
    have own: "conn_id (reg_connection e) = i" using ok e by (rule lookup_socket_id)
    have here: "(\<exists>f. lookup_socket g actor j = Some f \<and> reg_outbound f = reg_outbound e) \<longleftrightarrow> j = i" for j
      using one e by blast
    show "gw_queues (apply_one actor x g) (reg_outbound e) = map_option (\<lambda>q. q @ addressed x e) (gw_queues g (reg_outbound e))"
    proof (cases x)
      case (Broadcast message except tags)
      have "(\<exists>j f. lookup_socket g actor j = Some f \<and> reg_outbound f = reg_outbound e \<and> broadcast_recipient except tags f)
          \<longleftrightarrow> broadcast_recipient except tags e" using one e by blast
      then show ?thesis unfolding Broadcast by (simp only: apply_one.simps bcast sent) (simp add: option.map_ident)
    qed (simp_all only: apply_one.simps addressed.simps queue_send_to queue_update_socket here own, simp_all add: option.map_ident)
  next
    assume none: "\<forall>j f. lookup_socket g actor j = Some f \<longrightarrow> reg_outbound f \<noteq> c"
    show "gw_queues (apply_one actor x g) c = gw_queues g c"
    proof (cases x)
      case (Broadcast message except tags)
      then show ?thesis using none by (simp only: apply_one.simps bcast sent) auto
    qed (use none in \<open>auto simp: queue_send_to\<close>)
  }
qed

lemma channels_distinct_apply_one:
  assumes "registry_ok g" "channels_distinct g actor"
  shows "channels_distinct (apply_one actor x g) actor"
  using assms(2) unfolding channels_distinct_def lookup_apply_one [OF assms(1)] by auto

lemma other_actor_apply_one: "b \<noteq> actor \<Longrightarrow> gw_entries (apply_one actor x g) b = gw_entries g b"
  by (cases x) (auto simp: update_socket_def split: option.splits)

text \<open>
  Claim C34. Effects reach exactly the connections they address: after a list of effects every connection of
  the actor has received the messages addressed to it, in order and each once, with tags as the
  preceding effects left them and whatever the iteration order of the hash map; no other
  channel has received anything, and no other actor's connections changed.
\<close>

theorem effects_reach_addressees:
  assumes "registry_ok g" "channels_distinct g actor"
  shows "(\<forall>i e. lookup_socket g actor i = Some e \<longrightarrow>
      gw_queues (registry_apply actor effects g) (reg_outbound e) = map_option (\<lambda>q. q @ addressed_all effects e) (gw_queues g (reg_outbound e))) \<and>
    (\<forall>c. (\<forall>i e. lookup_socket g actor i = Some e \<longrightarrow> reg_outbound e \<noteq> c) \<longrightarrow>
      gw_queues (registry_apply actor effects g) c = gw_queues g c) \<and>
    (\<forall>b. b \<noteq> actor \<longrightarrow> gw_entries (registry_apply actor effects g) b = gw_entries g b)"
  using assms
proof (induction effects arbitrary: g)
  case (Cons x xs)
  let ?g = "apply_one actor x g"
  have run: "registry_apply actor (x # xs) g = registry_apply actor xs ?g" by (simp add: registry_apply_def)
  note ih = Cons.IH [OF apply_one_ok [OF Cons.prems(1)] channels_distinct_apply_one [OF Cons.prems]]
  note one = queue_apply_one [OF Cons.prems] and look = lookup_apply_one [OF Cons.prems(1)]
  show ?case unfolding run
  proof (intro conjI allI impI)
    fix i e assume e: "lookup_socket g actor i = Some e"
    then have "lookup_socket ?g actor i = Some (entry_after x e)" by (simp add: look)
    with ih have "gw_queues (registry_apply actor xs ?g) (reg_outbound e) =
        map_option (\<lambda>q. q @ addressed_all xs (entry_after x e)) (gw_queues ?g (reg_outbound e))"
      using entry_after_simps(1) [of x e] by metis
    with one(1) [OF e, of x] show "gw_queues (registry_apply actor xs ?g) (reg_outbound e) =
        map_option (\<lambda>q. q @ addressed_all (x # xs) e) (gw_queues g (reg_outbound e))"
      by (simp add: option.map_comp comp_def)
  next
    fix c assume none: "\<forall>i e. lookup_socket g actor i = Some e \<longrightarrow> reg_outbound e \<noteq> c"
    then have "\<forall>i e. lookup_socket ?g actor i = Some e \<longrightarrow> reg_outbound e \<noteq> c" by (fastforce simp: look)
    with ih one(2) [OF none, of x] show "gw_queues (registry_apply actor xs ?g) c = gw_queues g c" by metis
  next
    fix b assume "b \<noteq> actor"
    with ih other_actor_apply_one show "gw_entries (registry_apply actor xs ?g) b = gw_entries g b" by metis
  qed
qed (simp add: registry_apply_def option.map_ident)

section \<open>The life of a connection\<close>

text \<open>The dispatcher with a record of the events it is given.\<close>

definition recording :: "'w socket_env \<Rightarrow> ('w \<times> actor_socket_event list) socket_env" where
  "recording env =
     \<lparr>se_service = (\<lambda>prin i (g, w, events). case se_service env prin i (g, w) of (r, g', w') \<Rightarrow> (r, g', w', events @ [sock_event i])),
      se_deliver = (\<lambda>ms (w, events). (se_deliver env ms w, events)), se_uuid = (\<lambda>(w, events). se_uuid env w), se_sink = se_sink env,
      se_decode = se_decode env, se_encode = se_encode env, se_to_vec = se_to_vec env\<rparr>"

definition events_of :: "gateway \<times> 'w \<times> actor_socket_event list \<Rightarrow> actor_socket_event list" where
  "events_of st = snd (snd st)"

lemma dispatch_records:
  assumes "dispatch (recording env) actor prin event trigger st = (handled, st')"
  shows "events_of st' = events_of st @ [fst (fst (prepare_event actor event (fst st)))]"
proof -
  obtain g w events where st: "st = (g, w, events)" by (metis surj_pair)
  show ?thesis using assms unfolding st
    by (auto simp: dispatch_def recording_def events_of_def Let_def split: prod.splits sum.splits if_splits)
qed

definition is_message_of :: "string \<Rightarrow> actor_socket_event \<Rightarrow> bool" where
  "is_message_of i event = (case event of Message j _ \<Rightarrow> j = i | _ \<Rightarrow> False)"

lemma on_inbound_records:
  assumes "on_inbound (recording env) actor prin i f sent st = (d, st')"
  shows "\<exists>ms. events_of st' = events_of st @ ms \<and> list_all (is_message_of i) ms"
proof -
  have message: "\<exists>ms. events_of st' = events_of st @ ms \<and> list_all (is_message_of i) ms"
    if msg: "after_dispatch (dispatch (recording env) actor prin (Message i m) True st) = (d, st')" for m
  proof -
    obtain handled where "dispatch (recording env) actor prin (Message i m) True st = (handled, st')"
      using msg by (auto simp: after_dispatch_def split: prod.splits)
    from dispatch_records [OF this] show ?thesis by (auto simp: prepare_event_def is_message_of_def)
  qed
  show ?thesis using assms message
    by (cases f) (auto simp: on_inbound_def recording_def split: option.splits)
qed

lemma on_outbound_records: "on_outbound env channel sent st = (d, st') \<Longrightarrow> events_of st' = events_of st"
  by (auto simp: on_outbound_def events_of_def Let_def split: prod.splits option.splits list.splits outbound_message.splits)

lemma connection_loop_records:
  "connection_loop (recording env) actor prin i channel polls st = (d, st') \<Longrightarrow>
   \<exists>ms. events_of st' = events_of st @ ms \<and> list_all (is_message_of i) ms"
proof (induction polls arbitrary: st)
  case (Cons x polls)
  obtain others poll where x: "x = (others, poll)" by fastforce
  let ?st = "(others (fst st), snd st)"
  let ?one = "case poll of Inbound f sent \<Rightarrow> on_inbound (recording env) actor prin i f sent ?st
      | Outbound sent \<Rightarrow> on_outbound (recording env) channel sent ?st | ChannelClosed \<Rightarrow> (Some lost_connection, ?st)"
  obtain d1 st1 where one: "?one = (d1, st1)" by (rule prod.exhaust)
  have "events_of ?st = events_of st" by (simp add: events_of_def)
  then obtain ms1 where ms1: "events_of st1 = events_of st @ ms1" "list_all (is_message_of i) ms1"
    using one on_inbound_records [of env actor prin i _ _ ?st d1 st1] on_outbound_records [of "recording env" channel _ ?st d1 st1]
    by (cases poll) force+
  show ?case
  proof (cases d1)
    case None
    with Cons.prems x one have "connection_loop (recording env) actor prin i channel polls st1 = (d, st')" by simp
    from Cons.IH [OF this] ms1 show ?thesis by force
  next
    case (Some v)
    with Cons.prems x one have "st' = st1" by simp
    with ms1 show ?thesis by blast
  qed
qed auto

lemma recording_ok: "service_ok env \<Longrightarrow> service_ok (recording env)"
  by (auto simp: service_ok_def recording_def split_beta)

lemma recording_fields [simp]: "se_to_vec (recording env) = se_to_vec env"
  by (simp add: recording_def)

lemma lookup_removed [simp]: "lookup_socket (snd (registry_remove actor i g)) actor i = None"
  by (auto simp: lookup_socket_def sockets_of_def registry_remove_def Let_def delete_conv' split: option.splits)

lemma lookup_drop_receiver [simp]: "lookup_socket (drop_receiver channel g) = lookup_socket g"
  by (simp add: fun_eq_iff lookup_socket_def sockets_of_def drop_receiver_def)

lemma lookup_not_inserted:
  "registry_insert actor c channel trigger g = (False, g') \<Longrightarrow> lookup_socket g' actor i = lookup_socket g actor i"
  by (auto simp: registry_insert_def Let_def lookup_socket_def sockets_of_def split: if_splits)

lemma lookup_queues [simp]: "lookup_socket (g\<lparr>gw_queues := q\<rparr>) = lookup_socket g"
  by (simp add: fun_eq_iff lookup_socket_def sockets_of_def)

lemma disconnect_event_id:
  assumes "registry_ok g" "conn_id c = i"
  shows "\<exists>d. fst (fst (prepare_event actor (Disconnect c code reason clean) g)) = Disconnect d code reason clean \<and> conn_id d = i"
proof -
  have "fst (registry_remove actor i g) = map_option reg_connection (lookup_socket g actor i)"
    by (auto simp: registry_remove_def lookup_socket_def sockets_of_def Let_def split: option.splits)
  then show ?thesis using assms(2) lookup_socket_id [OF assms(1), of actor i]
    by (cases "lookup_socket g actor i") (auto simp: prepare_event_def split: prod.splits)
qed

text \<open>The five ways a connection leaves \<^verbatim>\<open>run_socket\<close>: without metadata, without room, rejected, still open, ended.\<close>

lemma run_socket_cases:
  fixes st :: "gateway \<times> 'w"
  assumes run: "run_socket env from_str received channel polls i access st = (outcome, st')"
  obtains (bare) "outcome = Refused 1002 ''socket metadata was not initialized''" "st' = st"
    | (full) c g1 where "conn_id c = i" "outcome = Refused 1013 ''actor connection limit reached''" "st' = (drop_receiver channel g1, snd st)"
        "registry_insert (acc_actor access) c channel (acc_trigger_id access) ((fst st)\<lparr>gw_queues := (gw_queues (fst st))(channel \<mapsto> [])\<rparr>) = (False, g1)"
    | (rejected) c g1 st2 where "conn_id c = i" "outcome = Refused 1011 ''actor rejected the connection''"
        "registry_insert (acc_actor access) c channel (acc_trigger_id access) ((fst st)\<lparr>gw_queues := (gw_queues (fst st))(channel \<mapsto> [])\<rparr>) = (True, g1)"
        "dispatch env (acc_actor access) (acc_principal access) (Connect c) False (g1, snd st) = (False, st2)"
        "st' = (drop_receiver channel (snd (registry_remove (acc_actor access) i (fst st2))), snd st2)"
    | (live) c g1 st2 where "conn_id c = i" "outcome = StillOpen"
        "registry_insert (acc_actor access) c channel (acc_trigger_id access) ((fst st)\<lparr>gw_queues := (gw_queues (fst st))(channel \<mapsto> [])\<rparr>) = (True, g1)"
        "dispatch env (acc_actor access) (acc_principal access) (Connect c) False (g1, snd st) = (True, st2)"
        "connection_loop env (acc_actor access) (acc_principal access) i channel polls st2 = (None, st')"
    | (ended) c g1 st2 st3 st4 b code reason clean where "conn_id c = i" "outcome = Ended (code, reason, clean)"
        "registry_insert (acc_actor access) c channel (acc_trigger_id access) ((fst st)\<lparr>gw_queues := (gw_queues (fst st))(channel \<mapsto> [])\<rparr>) = (True, g1)"
        "dispatch env (acc_actor access) (acc_principal access) (Connect c) False (g1, snd st) = (True, st2)"
        "connection_loop env (acc_actor access) (acc_principal access) i channel polls st2 = (Some (code, reason, clean), st3)"
        "dispatch env (acc_actor access) (acc_principal access) (Disconnect c code reason clean) False st3 = (b, st4)"
        "st' = (drop_receiver channel (snd (registry_remove (acc_actor access) i (fst st4))), snd st4)"
proof (cases "initial_metadata from_str (se_to_vec env) received access")
  case None
  with run bare show thesis by (simp add: run_socket_def)
next
  case (Some m)
  define c where "c = \<lparr>conn_id = i, conn_metadata = m, conn_tags = []\<rparr>"
  have cid: "conn_id c = i" by (simp add: c_def)
  note unfolded = run [unfolded run_socket_def Some, simplified, folded c_def, unfolded Let_def, simplified]
  show thesis
    using unfolded full [OF cid] rejected [OF cid] live [OF cid] ended [OF cid]
    by (cases st) (auto split: prod.splits option.splits bool.splits)
qed

text \<open>The connect event reaches the actor first; then messages, and at the end one disconnect event.\<close>

lemma connect_records:
  assumes "service_ok env" "registry_ok g" and ins: "registry_insert actor c channel trigger (g\<lparr>gw_queues := q\<rparr>) = (inserted, g1)"
    and con: "dispatch (recording env) actor prin (Connect c) False (g1, w) = (b, st2)"
  shows "registry_ok (fst st2)" "events_of st2 = events_of (g, w) @ [Connect c]"
  using dispatch_ok [OF recording_ok [OF assms(1)] _ con] registry_insert_ok [OF _ ins] assms(2) dispatch_records [OF con]
  by (simp_all add: events_of_def prepare_event_def)

lemma disconnect_records:
  assumes "service_ok env" "polls_ok polls" "registry_ok (fst st2)" "conn_id c = i"
    and loop: "connection_loop (recording env) actor prin i channel polls st2 = (e, st3)"
    and dis: "dispatch (recording env) actor prin (Disconnect c code reason clean) False st3 = (b, st4)"
  shows "\<exists>d ms. conn_id d = i \<and> list_all (is_message_of i) ms \<and> events_of st4 = events_of st2 @ ms @ [Disconnect d code reason clean]"
proof -
  have "registry_ok (fst st3)" using connection_loop_ok [OF recording_ok [OF assms(1)] assms(2,3) loop] .
  then obtain d where d: "fst (fst (prepare_event actor (Disconnect c code reason clean) (fst st3))) = Disconnect d code reason clean" "conn_id d = i"
    using disconnect_event_id [OF _ assms(4)] by blast
  with dispatch_records [OF dis] connection_loop_records [OF loop] show ?thesis by (auto simp: events_of_def)
qed

text \<open>
  Claim C33. The life of a connection as its actor sees it: a connection that is refused has reached the
  actor with at most its connect event; an open one with its connect event and then messages of
  its own; and one that ended with exactly one disconnect event after those, with the code, reason and
  cleanness it ended with. A connection that is not open is not in the registry.
\<close>

theorem socket_lifecycle:
  assumes ok: "service_ok env" "polls_ok polls" "registry_ok (fst st)" and fresh: "lookup_socket (fst st) (acc_actor access) i = None"
    and run: "run_socket (recording env) from_str received channel polls i access st = (outcome, st')"
  shows "(outcome \<noteq> StillOpen \<longrightarrow> lookup_socket (fst st') (acc_actor access) i = None) \<and>
    (\<exists>c ms. conn_id c = i \<and> list_all (is_message_of i) ms \<and>
      (case outcome of
         Refused code reason \<Rightarrow> events_of st' = events_of st \<or> events_of st' = events_of st @ [Connect c]
       | StillOpen \<Rightarrow> events_of st' = events_of st @ Connect c # ms
       | Ended (code, reason, clean) \<Rightarrow>
           (\<exists>d. conn_id d = i \<and> events_of st' = events_of st @ Connect c # ms @ [Disconnect d code reason clean])))"
  using run
proof (cases rule: run_socket_cases)
  case bare
  then show ?thesis using fresh by (auto intro!: exI [of _ "\<lparr>conn_id = i, conn_metadata = Null, conn_tags = []\<rparr>"] exI [of _ "[]"])
next
  case (full c g1)
  then show ?thesis using fresh lookup_not_inserted [OF full(4)] by (auto simp: events_of_def intro!: exI [of _ c] exI [of _ "[]"])
next
  case (rejected c g1 st2)
  note connect_records [OF ok(1,3) rejected(3,4)]
  then show ?thesis using rejected by (auto simp: events_of_def intro!: exI [of _ c] exI [of _ "[]"])
next
  case (live c g1 st2)
  note connect_records [OF ok(1,3) live(3,4)]
  then show ?thesis using live connection_loop_records [OF live(5)] by (force simp: events_of_def)
next
  case (ended c g1 st2 st3 st4 b code reason clean)
  note connected = connect_records [OF ok(1,3) ended(3,4)]
  obtain d ms where "conn_id d = i" "list_all (is_message_of i) ms" "events_of st4 = events_of st2 @ ms @ [Disconnect d code reason clean]"
    using disconnect_records [OF ok(1,2) connected(1) ended(1,5,6)] by blast
  with connected(2) ended show ?thesis by (auto simp: events_of_def)
qed

section \<open>Access\<close>

lemma replace_error_Inr [simp]: "replace_error f r = Inr x \<longleftrightarrow> r = Inr x"
  by (cases r) (auto simp: replace_error_def)

lemma require_Inr [simp]: "require b e = Inr u \<longleftrightarrow> b"
  by (auto simp: require_def)

lemma into_authorization_Inr:
  "into_authorization to_vec now requested r = Inr a \<longleftrightarrow>
   (\<exists>t actor. now = Inr t \<and> t < sresp_expires_at r \<and> sresp_actor_id r = requested \<and> sresp_storage_region r \<noteq> [] \<and>
      validate_socket_metadata to_vec (sresp_metadata r) = Inr () \<and>
      actor = \<lparr>namespace_id = sresp_namespace_id r, actor_type = sresp_actor_type r, actor_id = requested\<rparr> \<and> actor_validate actor = Inr () \<and>
      a = \<lparr>sa_actor = actor, sa_storage_region = sresp_storage_region r, sa_metadata = sresp_metadata r, sa_expires_at = sresp_expires_at r\<rparr>)"
  by (auto simp: into_authorization_def and_then_eq_Inr Let_def split: if_splits)

lemma read_chunks_Inr:
  "length d \<le> max_socket_authorization_response_bytes \<Longrightarrow> read_chunks d chunks = Inr document \<longleftrightarrow>
   (\<exists>parts. chunks = map Inr parts \<and> document = d @ concat parts \<and> length document \<le> max_socket_authorization_response_bytes)"
proof (induction d chunks rule: read_chunks.induct)
  case (3 d chunk chunks)
  have fits: "usize_saturating_add (length d) (length chunk) \<le> max_socket_authorization_response_bytes \<longleftrightarrow>
      length (d @ chunk) \<le> max_socket_authorization_response_bytes"
    by (auto simp: usize_saturating_add_def)
  show ?case
  proof (cases "length (d @ chunk) \<le> max_socket_authorization_response_bytes")
    case True
    with 3 fits show ?thesis by (auto simp: map_eq_Cons_conv Cons_eq_map_conv)
  next
    case False
    with fits show ?thesis by (auto simp: Cons_eq_map_conv)
  qed
qed (auto simp: Cons_eq_map_conv)

text \<open>What the authorization service said: a response without an HTTP error, whose bounded body decodes.\<close>

definition service_answered :: "(string \<Rightarrow> socket_authorization_response result) \<Rightarrow> http_response \<Rightarrow> socket_authorization_response \<Rightarrow> bool" where
  "service_answered from_slice response r \<longleftrightarrow> \<not> (400 \<le> resp_status response \<and> resp_status response < 600) \<and>
     (\<forall>n. resp_content_length response = Some n \<longrightarrow> unat n \<le> 131072) \<and>
     (\<exists>parts. resp_chunks response = map Inr parts \<and> length (concat parts) \<le> 131072 \<and> from_slice (concat parts) = Inr r)"

lemma read_authorization_response_Inr:
  "read_authorization_response from_slice n chunks = Inr r \<longleftrightarrow> (\<forall>k. n = Some k \<longrightarrow> unat k \<le> 131072) \<and>
     (\<exists>parts. chunks = map Inr parts \<and> length (concat parts) \<le> 131072 \<and> from_slice (concat parts) = Inr r)"
  using read_chunks_Inr [of "[]" chunks]
  by (auto simp: read_authorization_response_def and_then_eq_Inr split: option.splits)

lemma socket_authorize_Inr:
  "socket_authorize from_slice to_vec now post request = Inr a \<longleftrightarrow>
   (\<exists>response r. post request = Inr response \<and> service_answered from_slice response r \<and> into_authorization to_vec now (sar_actor_id request) r = Inr a)"
  unfolding service_answered_def read_authorization_response_Inr [symmetric]
  by (auto simp: socket_authorize_def and_then_eq_Inr split: sum.splits if_splits)

lemma connect_external_Inr:
  "connect_external (Some authorize) host_uuid session_uuid trigger_id requested authorization protocols = Inr access \<longleftrightarrow>
   (\<exists>credential a. external_credential authorization protocols = Some credential \<and>
      authorize \<lparr>sar_trigger_id = trigger_id, sar_actor_id = requested, sar_credential = credential\<rparr> = Inr a \<and>
      access = \<lparr>acc_actor = sa_actor a, acc_principal = for_external_socket host_uuid session_uuid (sa_actor a) (sa_storage_region a) (sa_expires_at a),
        acc_metadata = Some (sa_metadata a), acc_trigger_id = Some trigger_id\<rparr>)"
  by (auto simp: connect_external_def authorize_socket_def split: option.splits sum.splits)

text \<open>
  Claim C35. Exactly who is given access to a socket, by the two handlers that decide it. A workflow process: with a readable header whose
  token verifies, for a valid actor of its own namespace, as the token's principal. An external client: when an authorization
  service is configured, the service answered the client's credential, trigger and actor id without an HTTP error and
  with a body of at most 128 KiB that decodes, and the answer names that actor id, a region, valid metadata and an expiry that has not
  passed; the connection's principal is of the answer's namespace and region and expires when the answer says. Refusals
  have status 400, 401 or 403 for workflows, and 401 or 503 for clients; without a configured service no client
  gets access.
\<close>

theorem socket_access_authorized:
  "(connect_workflow verify header actor = Inr access \<longleftrightarrow> actor_validate actor = Inr () \<and>
      (\<exists>text prin. header = Some (Inr text) \<and> verify text = Inr prin \<and> prin_process_role prin = Workflow \<and>
         namespace_id actor = scope_namespace_id (prin_scope prin) \<and>
         access = \<lparr>acc_actor = actor, acc_principal = prin, acc_metadata = None, acc_trigger_id = None\<rparr>)) \<and>
   (case connect_workflow verify header actor of Inl e \<Rightarrow> api_status e \<in> {400, 401, 403} | Inr _ \<Rightarrow> True) \<and>
   (connect_external (Some (socket_authorize from_slice to_vec now post)) host_uuid session_uuid trigger_id requested authorization protocols = Inr access
      \<longleftrightarrow> (\<exists>credential response r t client. external_credential authorization protocols = Some credential \<and>
         post \<lparr>sar_trigger_id = trigger_id, sar_actor_id = requested, sar_credential = credential\<rparr> = Inr response \<and>
         service_answered from_slice response r \<and> now = Inr t \<and> t < sresp_expires_at r \<and> sresp_actor_id r = requested \<and>
         sresp_storage_region r \<noteq> [] \<and> validate_socket_metadata to_vec (sresp_metadata r) = Inr () \<and>
         client = \<lparr>namespace_id = sresp_namespace_id r, actor_type = sresp_actor_type r, actor_id = requested\<rparr> \<and> actor_validate client = Inr () \<and>
         access = \<lparr>acc_actor = client, acc_principal =
             \<lparr>prin_scope = \<lparr>scope_namespace_id = sresp_namespace_id r\<rparr>,
              prin_host_id = HostId (''workflow.v1.'' @ sresp_namespace_id r @ ''.socket.'' @ host_uuid), prin_session_id = session_uuid,
              prin_process_role = Workflow, prin_region = sresp_storage_region r, prin_private_routing = False, prin_code_revision = None,
              prin_expires_at = sresp_expires_at r, prin_invocation = None\<rparr>,
            acc_metadata = Some (sresp_metadata r), acc_trigger_id = Some trigger_id\<rparr>)) \<and>
   (case connect_external authenticator host_uuid session_uuid trigger_id requested authorization protocols of
      Inl e \<Rightarrow> api_status e \<in> {401, 503} | Inr _ \<Rightarrow> True) \<and>
   (\<exists>refusal. connect_external None host_uuid session_uuid trigger_id requested authorization protocols = Inl refusal \<and>
      api_status refusal = (if external_credential authorization protocols = None then 401 else 503))"
    (is "?workflow \<and> ?refused \<and> (?connected \<longleftrightarrow> (\<exists>credential response r t client. ?granted credential response r t client)) \<and> ?rejected \<and> ?unconfigured")
proof (intro conjI)
  show ?workflow
    by (auto simp: connect_workflow_def authorize_workflow_def and_then_eq_Inr scope_contains_def split: option.splits sum.splits)
  show ?refused
    by (auto simp: connect_workflow_def authorize_workflow_def and_then_def replace_error_def require_def api_bad_request_def
        api_unauthorized_def api_forbidden_def split: option.splits sum.splits if_splits)
  show "?connected \<longleftrightarrow> (\<exists>credential response r t client. ?granted credential response r t client)"
  proof
    assume ?connected
    then show "\<exists>credential response r t client. ?granted credential response r t client"
      unfolding connect_external_Inr socket_authorize_Inr into_authorization_Inr by (auto simp: for_external_socket_def)
  next
    assume "\<exists>credential response r t client. ?granted credential response r t client"
    then obtain credential response r t client where granted: "?granted credential response r t client" by blast
    let ?a = "\<lparr>sa_actor = client, sa_storage_region = sresp_storage_region r, sa_metadata = sresp_metadata r, sa_expires_at = sresp_expires_at r\<rparr>"
    have "into_authorization to_vec now requested r = Inr ?a" using granted by (auto simp: into_authorization_Inr)
    with granted have "socket_authorize from_slice to_vec now post \<lparr>sar_trigger_id = trigger_id, sar_actor_id = requested, sar_credential = credential\<rparr> = Inr ?a"
      by (auto simp: socket_authorize_Inr)
    with granted show ?connected
      by (simp add: connect_external_Inr for_external_socket_def)
  qed
  have "api_status (api_from_authorization err) \<in> {401, 503}" for err by (cases err) (simp_all add: api_unauthorized_def)
  then show ?rejected
    by (auto simp: connect_external_def authorize_socket_def api_unauthorized_def split: option.splits sum.splits)
  show ?unconfigured
    by (simp add: connect_external_def authorize_socket_def api_unauthorized_def split: option.splits)
qed

section \<open>Concrete connections\<close>

text \<open>An actor that answers every event without effects, and two registered connections of one actor.\<close>

definition quiet_env :: "unit socket_env" where
  "quiet_env = \<lparr>se_service = (\<lambda>prin i st. (Inr [], st)), se_deliver = (\<lambda>_ w. w), se_uuid = (\<lambda>_. ''u''), se_sink = False,
     se_decode = (\<lambda>s. Inr s), se_encode = (\<lambda>s. s), se_to_vec = (\<lambda>_. Inr ''null'')\<rparr>"

definition room_actor :: actor_key where
  "room_actor = \<lparr>namespace_id = ''n'', actor_type = ''Room'', actor_id = ''r''\<rparr>"

definition room_access :: socket_access where
  "room_access = \<lparr>acc_actor = room_actor, acc_principal = for_external_socket ''h'' ''s'' room_actor ''eu'' 60,
     acc_metadata = Some Null, acc_trigger_id = None\<rparr>"

definition no_sockets :: gateway where
  "no_sockets = \<lparr>gw_entries = Map.empty, gw_queues = Map.empty\<rparr>"

definition room_socket :: "string \<Rightarrow> nat \<Rightarrow> registered_socket" where
  "room_socket i channel = \<lparr>reg_connection = \<lparr>conn_id = i, conn_metadata = Null, conn_tags = []\<rparr>, reg_outbound = channel,
     reg_open = True, reg_trigger_id = None\<rparr>"

definition room :: gateway where
  "room = \<lparr>gw_entries = [room_actor \<mapsto> [(''a'', room_socket ''a'' 1), (''b'', room_socket ''b'' 2)]],
     gw_queues = [1 \<mapsto> [], 2 \<mapsto> [], 3 \<mapsto> []]\<rparr>"

lemma quiet_ok: "service_ok quiet_env" "polls_ok [(id, Inbound (InClose None) True)]" "registry_ok no_sockets"
  by (simp_all add: service_ok_def quiet_env_def polls_ok_def registry_ok_def no_sockets_def)

theorem connections_bounded_witness:
  "registry_ok (fst (snd (run_socket quiet_env (\<lambda>_. Inr Null) None 1 [] ''a'' room_access (no_sockets, ()))))"
proof -
  have polls: "polls_ok []" by (simp add: polls_ok_def)
  have start: "registry_ok (fst (no_sockets, ()))" using quiet_ok(3) by simp
  obtain out st' where run: "run_socket quiet_env (\<lambda>_. Inr Null) None 1 [] ''a'' room_access (no_sockets, ()) = (out, st')" by (rule prod.exhaust)
  from connections_bounded [OF quiet_ok(1) polls start run] run show ?thesis by simp
qed

theorem effects_reach_addressees_witness:
  "gw_queues (registry_apply room_actor [Broadcast (Text ''hi'') [''a''] [], Send ''a'' (Text ''yo'')] room) 1 = Some [OutMessage (Text ''yo'')] \<and>
   gw_queues (registry_apply room_actor [Broadcast (Text ''hi'') [''a''] [], Send ''a'' (Text ''yo'')] room) 2 = Some [OutMessage (Text ''hi'')] \<and>
   gw_queues (registry_apply room_actor [Broadcast (Text ''hi'') [''a''] [], Send ''a'' (Text ''yo'')] room) 3 = Some []"
proof -
  let ?effects = "[Broadcast (Text ''hi'') [''a''] [], Send ''a'' (Text ''yo'')]"
  have ok: "registry_ok room" by (auto simp: registry_ok_def sockets_ok_def room_def room_socket_def split: if_splits)
  have look: "lookup_socket room room_actor i = (if i = ''a'' then Some (room_socket ''a'' 1) else if i = ''b'' then Some (room_socket ''b'' 2) else None)" for i
    by (simp add: lookup_socket_def sockets_of_def room_def)
  have inj: "channels_distinct room room_actor" by (auto simp: channels_distinct_def look room_socket_def split: if_splits)
  have queues: "gw_queues room 1 = Some []" "gw_queues room 2 = Some []" "gw_queues room 3 = Some []" by (simp_all add: room_def)
  have chan: "reg_outbound (room_socket i c) = c" for i c by (simp add: room_socket_def)
  have a: "addressed_all ?effects (room_socket ''a'' 1) = [OutMessage (Text ''yo'')]"
    and b: "addressed_all ?effects (room_socket ''b'' 2) = [OutMessage (Text ''hi'')]"
    by (simp_all add: broadcast_recipient_def room_socket_def)
  note reach = effects_reach_addressees [OF ok inj, of ?effects]
  have "gw_queues (registry_apply room_actor ?effects room) (reg_outbound (room_socket ''a'' 1)) = Some [OutMessage (Text ''yo'')]"
      "gw_queues (registry_apply room_actor ?effects room) (reg_outbound (room_socket ''b'' 2)) = Some [OutMessage (Text ''hi'')]"
    using reach look [of "''a''"] look [of "''b''"] queues(1,2) a b chan by force+
  moreover have "gw_queues (registry_apply room_actor ?effects room) 3 = Some []"
    using reach queues(3) look chan by (auto split: if_splits)
  ultimately show ?thesis by (simp add: chan)
qed

theorem socket_lifecycle_witness:
  "\<exists>d. events_of (snd (run_socket (recording quiet_env) (\<lambda>_. Inr Null) None 1 [(id, Inbound (InClose None) True)] ''a'' room_access
      (no_sockets, (), []))) = [Connect \<lparr>conn_id = ''a'', conn_metadata = Null, conn_tags = []\<rparr>, Disconnect d 1000 [] True] \<and> conn_id d = ''a''"
proof -
  let ?polls = "[(id, Inbound (InClose None) True)]"
  have start: "registry_ok (fst (no_sockets, (), []))" "lookup_socket (fst (no_sockets, (), [])) (acc_actor room_access) ''a'' = None"
    using quiet_ok(3) by (simp_all add: lookup_socket_def sockets_of_def no_sockets_def)
  obtain out st' where run: "run_socket (recording quiet_env) (\<lambda>_. Inr Null) None 1 ?polls ''a'' room_access (no_sockets, (), []) = (out, st')"
    by (rule prod.exhaust)
  have evals: "out = Ended (1000, [], True) \<and> events_of st' = [Connect \<lparr>conn_id = ''a'', conn_metadata = Null, conn_tags = []\<rparr>,
      Disconnect \<lparr>conn_id = ''a'', conn_metadata = Null, conn_tags = []\<rparr> 1000 [] True]"
    using run by (auto simp: run_socket_def initial_metadata_def room_access_def registry_insert_def sockets_of_def no_sockets_def
        dispatch_def prepare_event_def recording_def quiet_env_def validate_socket_effects_def registry_apply_def event_connecting_def
        activate_def update_socket_def on_inbound_def registry_remove_def events_of_def Let_def split: prod.splits)
  from socket_lifecycle [OF quiet_ok(1,2) start run] run evals show ?thesis by auto
qed

end
