(* ===== verification/Host_Service.thy ===== *)
theory Host_Service
  imports Actor_Host Control_Plane
begin

text \<open>
  The host's gRPC service and its wire format (\<^verbatim>\<open>src/grpc/service.rs\<close>, \<^verbatim>\<open>src/grpc/wire.rs\<close>), with the
  control plane's call of it (\<^verbatim>\<open>send_socket_event\<close> of \<^verbatim>\<open>src/control_plane/service.rs\<close>). The JSON
  serializer is a parameter. The lemmas show what survives the wire, which calls reach the actor host,
  and what a socket event meets at a draining host.
\<close>

section \<open>Wire format\<close>

record wire_codec =
  wc_args_to_vec :: "json list \<Rightarrow> string"
  wc_args_from_slice :: "string \<Rightarrow> json list result"
  wc_value_to_vec :: "json \<Rightarrow> string"
  wc_value_from_slice :: "string \<Rightarrow> json result"
  wc_effects_to_vec :: "actor_socket_effect list \<Rightarrow> string"
  wc_effects_from_slice :: "string \<Rightarrow> actor_socket_effect list result"
  wc_event_to_vec :: "actor_socket_event \<Rightarrow> string result"
  wc_event_from_slice :: "string \<Rightarrow> actor_socket_event result"
  wc_connections_to_vec :: "actor_socket_connection list \<Rightarrow> string result"
  wc_connections_from_slice :: "string \<Rightarrow> actor_socket_connection list result"

record proto_actor_key =
  pk_namespace_id :: string
  pk_actor_type :: string
  pk_actor_id :: string

record invoke_actor_request =
  pi_request_id :: string
  pi_actor :: "proto_actor_key option"
  pi_method :: string
  pi_args_json :: string

record host_invoke_actor_request =
  hi_invocation :: "invoke_actor_request option"
  hi_owner_epoch :: u64
  hi_state_read_url :: string
  hi_state_version :: u64

record host_socket_event_request =
  hs_request_id :: string
  hs_actor :: "proto_actor_key option"
  hs_event_json :: string
  hs_connections_json :: string
  hs_owner_epoch :: u64
  hs_state_read_url :: string
  hs_state_version :: u64

datatype invoke_actor_reply = WireCompleted string string | WireFailed string string | WireReroute

definition actor_key_of_proto :: "proto_actor_key \<Rightarrow> actor_key" where
  "actor_key_of_proto k = \<lparr>namespace_id = pk_namespace_id k, actor_type = pk_actor_type k, actor_id = pk_actor_id k\<rparr>"

definition actor_key_to_proto :: "actor_key \<Rightarrow> proto_actor_key" where
  "actor_key_to_proto k = \<lparr>pk_namespace_id = namespace_id k, pk_actor_type = Actor_Protocol.actor_type k, pk_actor_id = actor_id k\<rparr>"

definition invocation_of_proto :: "wire_codec \<Rightarrow> invoke_actor_request \<Rightarrow> actor_invocation result" where
  "invocation_of_proto codec request =
     and_then (ok_or (pi_actor request) ''actor key is required'') (\<lambda>actor.
     and_then (with_context (wc_args_from_slice codec (pi_args_json request)) ''actor arguments must be a JSON array'') (\<lambda>args.
     (let invocation = \<lparr>inv_request_id = pi_request_id request, inv_actor = actor_key_of_proto actor,
            inv_method = pi_method request, inv_args = args\<rparr>
      in and_then (invocation_validate invocation) (\<lambda>_. Inr invocation))))"

definition invocation_to_proto :: "wire_codec \<Rightarrow> actor_invocation \<Rightarrow> invoke_actor_request" where
  "invocation_to_proto codec invocation =
     \<lparr>pi_request_id = inv_request_id invocation, pi_actor = Some (actor_key_to_proto (inv_actor invocation)),
      pi_method = inv_method invocation, pi_args_json = wc_args_to_vec codec (inv_args invocation)\<rparr>"

fun reply_to_proto :: "wire_codec \<Rightarrow> actor_execution_result \<Rightarrow> invoke_actor_reply option" where
  "reply_to_proto codec (Completed res effects) = Some (WireCompleted (wc_value_to_vec codec res) (wc_effects_to_vec codec effects))"
| "reply_to_proto codec (Failed failure) = Some (WireFailed (failure_code failure) (failure_message failure))"
| "reply_to_proto codec Reroute = Some WireReroute"
| "reply_to_proto codec HostUnavailable = Some (WireFailed ''unavailable'' ''actor host is draining'')"

definition reply_of_proto :: "wire_codec \<Rightarrow> invoke_actor_reply option \<Rightarrow> actor_execution_result result" where
  "reply_of_proto codec reply =
     and_then (ok_or reply ''actor reply omitted its result'') (\<lambda>res.
     case res of
       WireCompleted result_json effects_json \<Rightarrow>
         and_then (with_context (wc_value_from_slice codec result_json) ''actor result is not valid JSON'') (\<lambda>value.
         and_then (with_context (wc_effects_from_slice codec effects_json) ''actor socket effects are not valid JSON'') (\<lambda>effects.
         Inr (Completed value effects)))
     | WireFailed code message \<Rightarrow> Inr (Failed \<lparr>failure_code = code, failure_message = message\<rparr>)
     | WireReroute \<Rightarrow> Inr Reroute)"

definition socket_invocation_of_proto :: "wire_codec \<Rightarrow> host_socket_event_request \<Rightarrow> actor_socket_invocation result" where
  "socket_invocation_of_proto codec request =
     and_then (ok_or (hs_actor request) ''actor key is required'') (\<lambda>key.
     (let actor = actor_key_of_proto key in
      and_then (actor_validate actor) (\<lambda>_.
      and_then (with_context (wc_event_from_slice codec (hs_event_json request)) ''actor socket event is not valid JSON'') (\<lambda>event.
      and_then (with_context (wc_connections_from_slice codec (hs_connections_json request)) ''actor socket connections are not valid JSON'') (\<lambda>connections.
      Inr \<lparr>sock_request_id = hs_request_id request, sock_actor = actor, sock_event = event,
           sock_connections = connections, sock_state = None\<rparr>)))))"

section \<open>The service\<close>

definition validate_host_request ::
    "actor_principal \<Rightarrow> host_id \<Rightarrow> actor_key \<Rightarrow> u64 \<Rightarrow> u64 \<Rightarrow> string \<Rightarrow> grpc_status + unit" where
  "validate_host_request prin host actor owner_epoch state_version state_read_url =
     (if \<not> scope_contains (prin_scope prin) actor then Inl (PermissionDenied ''actor invocation crossed namespace scope'')
      else if owner_epoch = 0 \<or> (state_version = 0) \<noteq> (state_read_url = [])
        then Inl (InvalidArgument ''actor ownership capability is incomplete'')
      else if prin_process_role prin \<noteq> Host \<or> prin_host_id prin \<noteq> host
        then Inl (PermissionDenied ''actor invocation credential is not for this host'')
      else (case prin_invocation prin of
              None \<Rightarrow> Inr ()
            | Some capability \<Rightarrow>
                if cap_actor capability \<noteq> actor \<or> cap_host_id capability \<noteq> host \<or> cap_owner_epoch capability \<noteq> owner_epoch
                   \<or> cap_state_version capability \<noteq> state_version \<or> cap_state_read_url capability \<noteq> state_read_url
                then Inl (PermissionDenied ''actor invocation does not match its direct capability'')
                else Inr ()))"

text \<open>\<open>auth\<close> is the service's verifier on the request's metadata.\<close>

definition authorize_invocation ::
    "wire_codec \<Rightarrow> (string result option \<Rightarrow> actor_principal result) \<Rightarrow> host_id \<Rightarrow> string result option \<Rightarrow> host_invoke_actor_request
     \<Rightarrow> grpc_status + (actor_invocation \<times> u64 \<times> u64 \<times> string)" where
  "authorize_invocation codec auth host metadata request =
     and_then (map_error (\<lambda>e. Unauthenticated (show_error e)) (auth metadata)) (\<lambda>prin.
     and_then (case hi_invocation request of
                 None \<Rightarrow> Inl (InvalidArgument ''actor invocation is required'')
               | Some i \<Rightarrow> map_error (\<lambda>e. InvalidArgument (show_error e)) (invocation_of_proto codec i)) (\<lambda>invocation.
     and_then (validate_host_request prin host (inv_actor invocation) (hi_owner_epoch request) (hi_state_version request)
                 (hi_state_read_url request)) (\<lambda>_.
     Inr (invocation, hi_owner_epoch request, hi_state_version request, hi_state_read_url request))))"

text \<open>
  The detached task runs to its end whatever the caller does; \<open>panicked\<close> tells whether it stopped
  without a reply. \<open>wait\<close> is the actor host's admission.
\<close>

definition detached_reply :: "actor_execution_result result \<Rightarrow> actor_execution_result" where
  "detached_reply res =
     (case res of Inr r \<Rightarrow> r
      | Inl _ \<Rightarrow> failed ''unavailable'' ''actor could not start because its state was unavailable'')"

definition invoke_detached ::
    "wire_codec \<Rightarrow> 'w host_env \<Rightarrow> ('w actor_host \<Rightarrow> bool \<times> 'w actor_host) \<Rightarrow> bool \<Rightarrow> actor_invocation \<times> u64 \<times> u64 \<times> string
     \<Rightarrow> 'w actor_host \<Rightarrow> (grpc_status + invoke_actor_reply option) \<times> 'w actor_host" where
  "invoke_detached codec env wait panicked request s =
     (case request of (invocation, owner_epoch, state_version, state_read_url) \<Rightarrow>
        (case invoke_actor_once env wait invocation owner_epoch state_version state_read_url s of
           (res, s') \<Rightarrow>
             (if panicked then Inl (Internal ''actor invocation task stopped'')
              else Inr (reply_to_proto codec (detached_reply res)), s')))"

definition host_invoke ::
    "wire_codec \<Rightarrow> (string result option \<Rightarrow> actor_principal result) \<Rightarrow> 'w host_env \<Rightarrow> ('w actor_host \<Rightarrow> bool \<times> 'w actor_host) \<Rightarrow> bool
     \<Rightarrow> string result option \<Rightarrow> host_invoke_actor_request \<Rightarrow> 'w actor_host \<Rightarrow> (grpc_status + invoke_actor_reply option) \<times> 'w actor_host" where
  "host_invoke codec auth env wait panicked metadata request s =
     (case authorize_invocation codec auth (endpoint_id (ah_endpoint s)) metadata request of
        Inl e \<Rightarrow> (Inl e, s)
      | Inr authorized \<Rightarrow> invoke_detached codec env wait panicked authorized s)"

fun socket_result :: "actor_socket_execution_result \<Rightarrow> actor_execution_result" where
  "socket_result (Handled effects) = Completed Null effects"
| "socket_result (SocketExecFailed failure) = Failed failure"
| "socket_result SocketHostUnavailable = HostUnavailable"

definition host_handle_socket ::
    "wire_codec \<Rightarrow> (string result option \<Rightarrow> actor_principal result) \<Rightarrow> 'w host_env \<Rightarrow> ('w actor_host \<Rightarrow> bool \<times> 'w actor_host)
     \<Rightarrow> string result option \<Rightarrow> host_socket_event_request \<Rightarrow> 'w actor_host \<Rightarrow> (grpc_status + invoke_actor_reply option) \<times> 'w actor_host" where
  "host_handle_socket codec auth env wait metadata request s =
     (case and_then (map_error (\<lambda>e. Unauthenticated (show_error e)) (auth metadata)) (\<lambda>prin.
           and_then (map_error (\<lambda>e. InvalidArgument (show_error e)) (socket_invocation_of_proto codec request)) (\<lambda>invocation.
           and_then (validate_host_request prin (endpoint_id (ah_endpoint s)) (sock_actor invocation) (hs_owner_epoch request)
                       (hs_state_version request) (hs_state_read_url request)) (\<lambda>_.
           Inr invocation))) of
        Inl e \<Rightarrow> (Inl e, s)
      | Inr invocation \<Rightarrow>
          (case handle_socket_event env wait invocation (hs_owner_epoch request) (hs_state_version request) (hs_state_read_url request) s of
             (Inl e, s') \<Rightarrow> (Inl (Unavailable (''actor socket event failed: '' @ show_error e)), s')
           | (Inr res, s') \<Rightarrow> (Inr (reply_to_proto codec (socket_result res)), s')))"

section \<open>The control plane's call\<close>

text \<open>\<open>connect\<close> opens the channel to a route, \<open>call\<close> is the remote procedure with the authorization header.\<close>

definition socket_request :: "wire_codec \<Rightarrow> workflow_actor_target \<Rightarrow> actor_socket_invocation \<Rightarrow> host_socket_event_request result" where
  "socket_request codec target invocation =
     and_then (wc_event_to_vec codec (sock_event invocation)) (\<lambda>event_json.
     and_then (wc_connections_to_vec codec (sock_connections invocation)) (\<lambda>connections_json.
     Inr \<lparr>hs_request_id = sock_request_id invocation, hs_actor = Some (actor_key_to_proto (sock_actor invocation)),
          hs_event_json = event_json, hs_connections_json = connections_json, hs_owner_epoch = wt_owner_epoch target,
          hs_state_read_url = wt_state_read_url target, hs_state_version = wt_state_version target\<rparr>))"

definition send_socket_event ::
    "wire_codec \<Rightarrow> (string \<Rightarrow> 'w \<Rightarrow> unit result) \<Rightarrow> (grpc_status \<Rightarrow> error)
     \<Rightarrow> (string result option \<Rightarrow> host_socket_event_request \<Rightarrow> 'w \<Rightarrow> (grpc_status + invoke_actor_reply option) \<times> 'w)
     \<Rightarrow> workflow_actor_target \<Rightarrow> actor_socket_invocation \<Rightarrow> 'w \<Rightarrow> actor_execution_result result \<times> 'w" where
  "send_socket_event codec connect status_error call target invocation w =
     (case and_then (with_context (connect (wt_route target) w) ''connect to actor host'') (\<lambda>_. socket_request codec target invocation) of
        Inl e \<Rightarrow> (Inl e, w)
      | Inr request \<Rightarrow>
          (case call (Some (Inr (''Bearer '' @ wt_token target))) request w of
             (Inl status, w') \<Rightarrow> (Inl (status_error status), w')
           | (Inr reply, w') \<Rightarrow> (reply_of_proto codec reply, w')))"

section \<open>What survives the wire\<close>

lemma actor_key_roundtrip [simp]: "actor_key_of_proto (actor_key_to_proto k) = k"
  by (simp add: actor_key_of_proto_def actor_key_to_proto_def)

text \<open>The serializer carries the values of one call: what it writes it reads back.\<close>

definition carries_invocation :: "wire_codec \<Rightarrow> actor_invocation \<Rightarrow> bool" where
  "carries_invocation codec i \<longleftrightarrow> wc_args_from_slice codec (wc_args_to_vec codec (inv_args i)) = Inr (inv_args i)"

definition carries_reply :: "wire_codec \<Rightarrow> actor_execution_result \<Rightarrow> bool" where
  "carries_reply codec r \<longleftrightarrow> (case r of
     Completed v effects \<Rightarrow> wc_value_from_slice codec (wc_value_to_vec codec v) = Inr v \<and>
       wc_effects_from_slice codec (wc_effects_to_vec codec effects) = Inr effects
   | _ \<Rightarrow> True)"

definition carries_event :: "wire_codec \<Rightarrow> actor_socket_invocation \<Rightarrow> bool" where
  "carries_event codec i \<longleftrightarrow>
     (\<exists>e c. wc_event_to_vec codec (sock_event i) = Inr e \<and> wc_event_from_slice codec e = Inr (sock_event i) \<and>
        wc_connections_to_vec codec (sock_connections i) = Inr c \<and> wc_connections_from_slice codec c = Inr (sock_connections i))"

lemma socket_request_roundtrip:
  assumes "carries_event codec i" "actor_validate (sock_actor i) = Inr ()"
  obtains request where "socket_request codec target i = Inr request"
    "socket_invocation_of_proto codec request = Inr (i\<lparr>sock_state := None\<rparr>)"
    "hs_owner_epoch request = wt_owner_epoch target" "hs_state_version request = wt_state_version target"
    "hs_state_read_url request = wt_state_read_url target"
  using assms by (auto simp: carries_event_def socket_request_def socket_invocation_of_proto_def Let_def)

text \<open>
  Claim C30. A valid invocation, an event of a valid actor with the target it is sent to, and every result
  but one come over the wire as they were sent; the refusal of a draining host arrives as a failure of the actor.
\<close>

theorem wire_roundtrip:
  assumes "carries_invocation codec i" "invocation_validate i = Inr ()" "carries_reply codec r"
    and "carries_event codec e" "actor_validate (sock_actor e) = Inr ()"
  shows "invocation_of_proto codec (invocation_to_proto codec i) = Inr i \<and>
    reply_of_proto codec (reply_to_proto codec r) =
      Inr (if r = HostUnavailable then failed ''unavailable'' ''actor host is draining'' else r) \<and>
    (\<exists>request. socket_request codec target e = Inr request \<and> socket_invocation_of_proto codec request = Inr (e\<lparr>sock_state := None\<rparr>) \<and>
      hs_owner_epoch request = wt_owner_epoch target \<and> hs_state_version request = wt_state_version target \<and>
      hs_state_read_url request = wt_state_read_url target)"
proof (intro conjI)
  show "invocation_of_proto codec (invocation_to_proto codec i) = Inr i"
    using assms(1,2) by (cases i) (simp add: invocation_of_proto_def invocation_to_proto_def carries_invocation_def Let_def)
  show "reply_of_proto codec (reply_to_proto codec r) =
      Inr (if r = HostUnavailable then failed ''unavailable'' ''actor host is draining'' else r)"
    using assms(3) by (cases r) (simp_all add: reply_of_proto_def carries_reply_def failed_def)
  show "\<exists>request. socket_request codec target e = Inr request \<and> socket_invocation_of_proto codec request = Inr (e\<lparr>sock_state := None\<rparr>) \<and>
      hs_owner_epoch request = wt_owner_epoch target \<and> hs_state_version request = wt_state_version target \<and>
      hs_state_read_url request = wt_state_read_url target"
    by (rule socket_request_roundtrip [OF assms(4,5)]) blast
qed

section \<open>Who is served\<close>

text \<open>A principal may call this host for an actor, epoch and state.\<close>

definition may_call :: "actor_principal \<Rightarrow> host_id \<Rightarrow> actor_key \<Rightarrow> u64 \<Rightarrow> u64 \<Rightarrow> string \<Rightarrow> bool" where
  "may_call prin host actor owner_epoch state_version state_read_url \<longleftrightarrow>
     namespace_id actor = scope_namespace_id (prin_scope prin) \<and> prin_process_role prin = Host \<and> prin_host_id prin = host \<and>
     0 < owner_epoch \<and> (state_version = 0 \<longleftrightarrow> state_read_url = []) \<and>
     prin_invocation prin \<in> {None, Some \<lparr>cap_actor = actor, cap_host_id = host, cap_owner_epoch = owner_epoch,
       cap_state_version = state_version, cap_state_read_url = state_read_url\<rparr>}"

lemma validate_host_request_iff:
  "validate_host_request prin host actor epoch v url = Inr () \<longleftrightarrow> may_call prin host actor epoch v url"
  by (cases "prin_invocation prin")
    (auto simp: validate_host_request_def may_call_def scope_contains_def word_neq_0_conv)

lemma authorize_invocation_Inr:
  assumes "authorize_invocation codec auth host metadata request = Inr (i, epoch, v, url)"
  obtains prin w where "auth metadata = Inr prin" "may_call prin host (inv_actor i) epoch v url" "invocation_validate i = Inr ()"
    "hi_invocation request = Some w" "invocation_of_proto codec w = Inr i"
    "epoch = hi_owner_epoch request" "v = hi_state_version request" "url = hi_state_read_url request"
proof -
  obtain prin where auth: "auth metadata = Inr prin"
    using assms by (cases "auth metadata") (simp_all add: authorize_invocation_def)
  obtain w where w: "hi_invocation request = Some w"
    using assms auth by (cases "hi_invocation request") (simp_all add: authorize_invocation_def)
  obtain j where j: "invocation_of_proto codec w = Inr j"
    using assms auth w by (cases "invocation_of_proto codec w") (simp_all add: authorize_invocation_def)
  let ?check = "validate_host_request prin host (inv_actor j) (hi_owner_epoch request) (hi_state_version request) (hi_state_read_url request)"
  have valid: "?check = Inr ()"
    using assms auth w j by (cases ?check) (simp_all add: authorize_invocation_def)
  have same: "i = j" "epoch = hi_owner_epoch request" "v = hi_state_version request" "url = hi_state_read_url request"
    using assms auth w j valid by (simp_all add: authorize_invocation_def)
  have "invocation_validate i = Inr ()"
    using j unfolding same by (auto simp: invocation_of_proto_def and_then_eq_Inr Let_def)
  with auth valid same w j show thesis by (intro that) (simp_all add: validate_host_request_iff)
qed

text \<open>
  Claim C15. Whoever is served was entitled to it: a call that the host does not refuse, or that touches the
  host's state, came with a token the verifier accepts, of a host process at exactly this host, for an
  actor of the token's namespace, with a positive epoch; and a token with an invocation
  capability carries exactly the actor, epoch, version and URL of the call.
\<close>

theorem served_calls_authorized:
  assumes "host_invoke codec auth env wait panicked metadata request s = (reply, s')" "s' \<noteq> s \<or> is_ok reply"
  shows "\<exists>prin i. auth metadata = Inr prin \<and> invocation_validate i = Inr () \<and>
    Option.bind (hi_invocation request) (\<lambda>w. ok (invocation_of_proto codec w)) = Some i \<and>
    may_call prin (endpoint_id (ah_endpoint s)) (inv_actor i) (hi_owner_epoch request) (hi_state_version request) (hi_state_read_url request)"
proof -
  obtain i epoch v url where authorized: "authorize_invocation codec auth (endpoint_id (ah_endpoint s)) metadata request = Inr (i, epoch, v, url)"
    using assms by (auto simp: host_invoke_def split: sum.splits)
  show ?thesis by (rule authorize_invocation_Inr [OF authorized]) auto
qed

section \<open>A draining host\<close>

lemma host_handle_socket_draining:
  assumes "\<not> ah_accepting s" "\<not> is_disconnect (sock_event i)"
    and "auth metadata = Inr prin" "socket_invocation_of_proto codec request = Inr i"
    and "may_call prin (endpoint_id (ah_endpoint s)) (sock_actor i) (hs_owner_epoch request) (hs_state_version request) (hs_state_read_url request)"
  shows "host_handle_socket codec auth env wait metadata request s = (Inr (reply_to_proto codec HostUnavailable), s)"
proof -
  have "handle_socket_event env wait i e v u s = (Inr SocketHostUnavailable, s)" for e v u
    using assms(1,2) by (simp add: handle_socket_event_def handle_socket_event_once_def validate_operation_def)
  with assms(3-5) show ?thesis
    by (simp add: host_handle_socket_def validate_host_request_iff [symmetric])
qed

text \<open>
  Claim C31. A socket event that meets a draining host fails at once: the control plane's dispatcher, which
  resolves a new target when a host answers that it is unavailable, never sees that answer, because the
  wire turns it into a failure; it reports the failure after one attempt and keeps the target in its cache.
\<close>

theorem draining_host_not_retried:
  assumes target: "socket_target unix_seconds resolve prin (sock_actor e) (s, caches) = (Inr target, s1, caches1)"
    and draining: "\<not> ah_accepting s1" "\<not> is_disconnect (sock_event e)"
    and link: "connect (wt_route target) s1 = Inr ()" "carries_event codec e" "actor_validate (sock_actor e) = Inr ()"
    and token: "auth (Some (Inr (''Bearer '' @ wt_token target))) = Inr hp"
      "may_call hp (endpoint_id (ah_endpoint s1)) (sock_actor e) (wt_owner_epoch target) (wt_state_version target) (wt_state_read_url target)"
  shows "dispatch_socket_event unix_seconds resolve (send_socket_event codec connect status_error (host_handle_socket codec auth env wait))
      prin e (s, caches) =
    (Inl (Bail ''unavailable: actor host is draining''), s1, caches1\<lparr>sc_channels := insert (wt_route target) (sc_channels caches1)\<rparr>)"
proof -
  obtain request where request: "socket_request codec target e = Inr request"
      "socket_invocation_of_proto codec request = Inr (e\<lparr>sock_state := None\<rparr>)"
    and same: "hs_owner_epoch request = wt_owner_epoch target" "hs_state_version request = wt_state_version target"
      "hs_state_read_url request = wt_state_read_url target"
    by (rule socket_request_roundtrip [OF link(2,3)])
  have "host_handle_socket codec auth env wait (Some (Inr (''Bearer '' @ wt_token target))) request s1
      = (Inr (reply_to_proto codec HostUnavailable), s1)"
    by (rule host_handle_socket_draining [where auth = auth, OF draining(1) _ token(1) request(2)]) (use draining(2) token(2) same in simp_all)
  then have "send_socket_event codec connect status_error (host_handle_socket codec auth env wait) target e s1
      = (Inr (failed ''unavailable'' ''actor host is draining''), s1)"
    using link(1) request(1) by (simp add: send_socket_event_def reply_of_proto_def failed_def)
  then show ?thesis using target by (simp add: dispatch_socket_event_def failed_def)
qed

section \<open>Concrete calls\<close>

definition sample_wire :: wire_codec where
  "sample_wire = \<lparr>wc_args_to_vec = (\<lambda>_. ''[]''), wc_args_from_slice = (\<lambda>_. Inr []), wc_value_to_vec = (\<lambda>_. ''null''),
     wc_value_from_slice = (\<lambda>_. Inr Null), wc_effects_to_vec = (\<lambda>_. ''[]''), wc_effects_from_slice = (\<lambda>_. Inr []),
     wc_event_to_vec = (\<lambda>_. Inr ''{}''), wc_event_from_slice = (\<lambda>_. Inr (Message ''c1'' (Text ''hi''))),
     wc_connections_to_vec = (\<lambda>_. Inr ''[]''), wc_connections_from_slice = (\<lambda>_. Inr [])\<rparr>"

definition sample_event :: actor_socket_invocation where
  "sample_event = \<lparr>sock_request_id = ''r1'', sock_actor = inv_actor sample_invocation, sock_event = Message ''c1'' (Text ''hi''),
     sock_connections = [], sock_state = None\<rparr>"

definition sample_target :: workflow_actor_target where
  "sample_target = \<lparr>wt_route = ''https://a'', wt_token = ''tok'', wt_owner_epoch = 1, wt_state_version = 0, wt_state_read_url = [],
     wt_expires_at_ms = 60000\<rparr>"

definition sample_host_principal :: actor_principal where
  "sample_host_principal = \<lparr>prin_scope = \<lparr>scope_namespace_id = ''ns''\<rparr>, prin_host_id = HostId ''host-a'', prin_session_id = ''u1'',
     prin_process_role = Host, prin_region = ''eu-west'', prin_private_routing = False, prin_code_revision = None,
     prin_expires_at = 60, prin_invocation = None\<rparr>"

definition sample_workflow :: actor_principal where
  "sample_workflow = sample_host_principal\<lparr>prin_process_role := Workflow\<rparr>"

lemma sample_event_ok: "carries_event sample_wire sample_event" "actor_validate (sock_actor sample_event) = Inr ()"
    "\<not> is_disconnect (sock_event sample_event)"
proof -
  show "actor_validate (sock_actor sample_event) = Inr ()"
    using sample_invocation_valid by (auto simp: sample_event_def invocation_validate_def and_then_eq_Inr split: if_splits)
qed (simp_all add: carries_event_def sample_wire_def sample_event_def is_disconnect_def)

lemma sample_may_call: "may_call sample_host_principal (HostId ''host-a'') (inv_actor sample_invocation) 1 0 []"
  by (simp add: may_call_def sample_host_principal_def sample_invocation_def)

theorem wire_roundtrip_witness:
  "invocation_of_proto sample_wire (invocation_to_proto sample_wire sample_invocation) = Inr sample_invocation \<and>
   reply_of_proto sample_wire (reply_to_proto sample_wire HostUnavailable) = Inr (failed ''unavailable'' ''actor host is draining'')"
proof -
  have "carries_invocation sample_wire sample_invocation" "carries_reply sample_wire HostUnavailable"
    by (simp_all add: carries_invocation_def carries_reply_def sample_wire_def sample_invocation_def)
  from wire_roundtrip [OF this(1) sample_invocation_valid this(2) sample_event_ok(1,2), of sample_target] show ?thesis by simp
qed

theorem served_calls_authorized_witness:
  "is_ok (fst (host_invoke sample_wire (\<lambda>_. Inr sample_host_principal) sample_env (Pair True) False (Some (Inr ''Bearer tok''))
     \<lparr>hi_invocation = Some (invocation_to_proto sample_wire sample_invocation), hi_owner_epoch = 1, hi_state_read_url = [], hi_state_version = 0\<rparr>
     sample_host)) \<and> may_call sample_host_principal (HostId ''host-a'') (inv_actor sample_invocation) 1 0 []"
proof -
  let ?request = "\<lparr>hi_invocation = Some (invocation_to_proto sample_wire sample_invocation), hi_owner_epoch = 1,
     hi_state_read_url = [], hi_state_version = 0\<rparr>"
  let ?run = "host_invoke sample_wire (\<lambda>_. Inr sample_host_principal) sample_env (Pair True) False (Some (Inr ''Bearer tok'')) ?request sample_host"
  have inv: "invocation_of_proto sample_wire (invocation_to_proto sample_wire sample_invocation) = Inr sample_invocation"
    using sample_invocation_valid
    by (simp add: invocation_of_proto_def invocation_to_proto_def sample_wire_def Let_def) (simp add: sample_invocation_def)
  have "authorize_invocation sample_wire (\<lambda>_. Inr sample_host_principal) (HostId ''host-a'') (Some (Inr ''Bearer tok'')) ?request
      = Inr (sample_invocation, 1, 0, [])"
    using sample_may_call by (simp add: authorize_invocation_def inv validate_host_request_iff [symmetric])
  then have ok: "is_ok (fst ?run)"
    by (simp add: host_invoke_def invoke_detached_def sample_host_def host_new_def split: prod.splits)
  obtain reply s' where run: "?run = (reply, s')" by fastforce
  from served_calls_authorized [OF run] ok run inv show ?thesis
    by (auto simp: sample_host_def host_new_def)
qed

theorem draining_host_not_retried_witness:
  "fst (dispatch_socket_event (Inr 2) (\<lambda>_ _ w. (Inr sample_target, w))
     (send_socket_event sample_wire (\<lambda>_ _. Inr ()) (\<lambda>_. Bail ''rpc'') (host_handle_socket sample_wire (\<lambda>_. Inr sample_host_principal) sample_env (Pair True)))
     sample_workflow sample_event (sample_host\<lparr>ah_accepting := False\<rparr>, \<lparr>sc_targets = Map.empty, sc_channels = {}\<rparr>))
   = Inl (Bail ''unavailable: actor host is draining'')"
proof -
  let ?s = "sample_host\<lparr>ah_accepting := False\<rparr>" and ?c = "\<lparr>sc_targets = Map.empty, sc_channels = {}\<rparr> :: socket_caches"
  have target: "socket_target (Inr 2) (\<lambda>_ _ w. (Inr sample_target, w)) sample_workflow (sock_actor sample_event) (?s, ?c)
      = (Inr sample_target, ?s, ?c\<lparr>sc_targets := [socket_key sample_workflow (sock_actor sample_event) \<mapsto> sample_target]\<rparr>)"
    using sample_event_ok(2)
    by (simp add: socket_target_def workflow_allowed_def sample_workflow_def sample_host_principal_def scope_contains_def)
      (simp add: sample_event_def sample_invocation_def)
  have draining: "\<not> ah_accepting ?s" by simp
  have called: "may_call sample_host_principal (endpoint_id (ah_endpoint ?s)) (sock_actor sample_event)
      (wt_owner_epoch sample_target) (wt_state_version sample_target) (wt_state_read_url sample_target)"
    using sample_may_call by (simp add: sample_host_def host_new_def sample_target_def sample_event_def)
  show ?thesis
    by (subst draining_host_not_retried [OF target draining sample_event_ok(3) _ sample_event_ok(1,2) _ called]) simp_all
qed

end
