(* ===== verification/Socket_Path.thy ===== *)
theory Socket_Path
  imports System Routing Gateway Host_Service
begin

text \<open>
  The whole path of a socket event: the gateway's connection task (\<^verbatim>\<open>Gateway\<close>) hands the event to the control plane's
  dispatcher (\<^verbatim>\<open>Control_Plane\<close>), which resolves a target and calls the host's gRPC handler over the wire
  (\<^verbatim>\<open>Host_Service\<close>); the host runs the actor and publishes its state through the client, the control plane's
  commands, the database and the object store (\<^verbatim>\<open>System\<close>). The components are those of the other theories; here they are
  only put together.
\<close>

section \<open>The composition\<close>

text \<open>
  The world of the gateway is the addressed host, with the system it sees, and the dispatcher's caches. While a
  dispatch is awaited, \<open>others\<close> is what other connections do to the registry; \<open>resolve\<close> is the routing of
  \<^verbatim>\<open>Control_Plane\<close> on the database the host's commits reach.
\<close>

record 'x socket_path =
  sp_unix_seconds :: "i64 result"
  sp_resolve :: "actor_principal \<Rightarrow> actor_key \<Rightarrow> 'x system actor_host \<Rightarrow> workflow_actor_target result \<times> 'x system actor_host"
  sp_connect :: "string \<Rightarrow> 'x system actor_host \<Rightarrow> unit result"
  sp_wire :: wire_codec
  sp_auth :: "string result option \<Rightarrow> actor_principal result"
  sp_wait :: "'x system actor_host \<Rightarrow> bool \<times> 'x system actor_host"
  sp_others :: "gateway \<Rightarrow> gateway"

definition path_send ::
    "'x socket_path \<Rightarrow> 'x system host_env \<Rightarrow> workflow_actor_target \<Rightarrow> actor_socket_invocation \<Rightarrow> 'x system actor_host
     \<Rightarrow> actor_execution_result result \<times> 'x system actor_host" where
  "path_send p env =
     send_socket_event (sp_wire p) (sp_connect p) status_error (host_handle_socket (sp_wire p) (sp_auth p) env (sp_wait p))"

definition path_service ::
    "'x socket_path \<Rightarrow> 'x system host_env \<Rightarrow> actor_principal \<Rightarrow> actor_socket_invocation \<Rightarrow> gateway \<times> 'x system actor_host \<times> socket_caches
     \<Rightarrow> actor_socket_effect list result \<times> gateway \<times> 'x system actor_host \<times> socket_caches" where
  "path_service p env prin invocation st =
     (case st of (g, s, caches) \<Rightarrow>
        (case dispatch_socket_event (sp_unix_seconds p) (sp_resolve p) (path_send p env) prin invocation (s, caches) of
           (r, s', caches') \<Rightarrow> (r, sp_others p g, s', caches')))"

section \<open>What the host sends back\<close>

lemma host_handle_socket_reply:
  assumes "host_handle_socket wire auth env wait metadata request s = (Inr reply, s')"
  obtains i res where "socket_invocation_of_proto wire request = Inr i"
    "handle_socket_event env wait i (hs_owner_epoch request) (hs_state_version request) (hs_state_read_url request) s = (Inr res, s')"
    "reply = reply_to_proto wire (socket_result res)"
  using assms by (auto simp: host_handle_socket_def map_error_def and_then_def split: sum.splits prod.splits)

text \<open>Whatever the host answers, it never comes back as a reroute or as an unavailable host.\<close>

lemma path_send_Inr:
  assumes "path_send p env target invocation s = (Inr answer, s')"
  obtains (completed) i v effects effects' where "answer = Completed v effects'"
      "sock_actor i = sock_actor invocation" "sock_request_id i = sock_request_id invocation"
      "handle_socket_event env (sp_wait p) i (wt_owner_epoch target) (wt_state_version target) (wt_state_read_url target) s = (Inr (Handled effects), s')"
      "wc_effects_from_slice (sp_wire p) (wc_effects_to_vec (sp_wire p) effects) = Inr effects'"
  | (failed) failure where "answer = Failed failure"
proof -
  obtain request reply where request: "socket_request (sp_wire p) target invocation = Inr request"
    and run: "host_handle_socket (sp_wire p) (sp_auth p) env (sp_wait p) (Some (Inr (''Bearer '' @ wt_token target))) request s = (Inr reply, s')"
    and answer: "reply_of_proto (sp_wire p) reply = Inr answer"
    using assms by (auto simp: path_send_def send_socket_event_def and_then_def split: sum.splits prod.splits)
  have req: "hs_owner_epoch request = wt_owner_epoch target" "hs_state_version request = wt_state_version target"
      "hs_state_read_url request = wt_state_read_url target" "hs_request_id request = sock_request_id invocation"
      "hs_actor request = Some (actor_key_to_proto (sock_actor invocation))"
    using request by (auto simp: socket_request_def and_then_eq_Inr)
  obtain i res where i: "socket_invocation_of_proto (sp_wire p) request = Inr i"
    and handled: "handle_socket_event env (sp_wait p) i (wt_owner_epoch target) (wt_state_version target) (wt_state_read_url target) s = (Inr res, s')"
    and reply: "reply = reply_to_proto (sp_wire p) (socket_result res)"
    using host_handle_socket_reply [OF run] req by metis
  have same: "sock_actor i = sock_actor invocation" "sock_request_id i = sock_request_id invocation"
    using i req by (auto simp: socket_invocation_of_proto_def and_then_eq_Inr Let_def)
  show thesis
  proof (cases res)
    case (Handled effects)
    with answer reply obtain v effects' where "answer = Completed v effects'"
        "wc_effects_from_slice (sp_wire p) (wc_effects_to_vec (sp_wire p) effects) = Inr effects'"
      by (auto simp: reply_of_proto_def and_then_eq_Inr)
    with completed [OF _ same handled [unfolded Handled]] show thesis by blast
  qed (use answer reply failed in \<open>auto simp: reply_of_proto_def\<close>)
qed

lemma path_service_Inr:
  assumes run: "path_service p env prin invocation (g, s, caches) = (Inr effects', g', s', caches')"
  obtains i s1 effects and target :: workflow_actor_target where "g' = sp_others p g"
    "s1 = s \<or> s1 = snd (sp_resolve p prin (sock_actor invocation) s)"
    "sock_actor i = sock_actor invocation" "sock_request_id i = sock_request_id invocation"
    "handle_socket_event env (sp_wait p) i (wt_owner_epoch target) (wt_state_version target) (wt_state_read_url target) s1 = (Inr (Handled effects), s')"
    "wc_effects_from_slice (sp_wire p) (wc_effects_to_vec (sp_wire p) effects) = Inr effects'"
proof -
  have d: "dispatch_attempts 1 (sp_unix_seconds p) (sp_resolve p) (path_send p env) prin invocation (s, caches) = (Inr effects', s', caches')"
    and g': "g' = sp_others p g"
    using run by (auto simp: path_service_def dispatch_socket_event_def simp del: dispatch_attempts.simps split: prod.splits)
  obtain r s1 caches1 where target: "socket_target (sp_unix_seconds p) (sp_resolve p) prin (sock_actor invocation) (s, caches) = (r, s1, caches1)"
    by (metis surj_pair)
  have s1: "s1 = s \<or> s1 = snd (sp_resolve p prin (sock_actor invocation) s)"
    using target by (auto simp: socket_target_def Let_def split: sum.splits option.splits if_splits prod.splits)
  obtain t where t: "r = Inr t" using d target by (cases r) (auto simp: Let_def)
  obtain a s2 where send: "path_send p env t invocation s1 = (a, s2)" by (rule prod.exhaust)
  obtain answer where a: "a = Inr answer" using d target t send by (cases a) (auto simp: Let_def)
  from send [unfolded a] show thesis
  proof (cases rule: path_send_Inr)
    case (completed i v effects effects'')
    with d target t send a have "effects'' = effects'" "s2 = s'" by (auto simp: Let_def)
    with that [of s1 i t effects] completed g' s1 show thesis by auto
  next
    case (failed failure)
    with d target t send a show thesis by (simp add: Let_def)
  qed
qed

section \<open>Messages follow the commit\<close>

text \<open>
  A host whose world is sound and whose cache entries are backed by it; routing and waiting tasks leave it so.
\<close>

definition host_sound :: "('sk, 'vk) control_plane \<Rightarrow> snapshot_codec \<Rightarrow> 'x system actor_host \<Rightarrow> bool" where
  "host_sound cp snapshots s \<longleftrightarrow> sys_sound (ah_world s) \<and>
     (\<forall>k c. ah_cached_state s k = Some c \<longrightarrow> cache_backed snapshots (sys_usable (cp_sign cp) (ah_world s)) (sys_objects (ah_world s)) c)"

definition path_sound :: "('sk, 'vk) control_plane \<Rightarrow> snapshot_codec \<Rightarrow> 'x socket_path \<Rightarrow> bool" where
  "path_sound cp snapshots p \<longleftrightarrow>
     (\<forall>prin actor s. host_sound cp snapshots s \<longrightarrow> host_sound cp snapshots (snd (sp_resolve p prin actor s))) \<and>
     (\<forall>s. host_sound cp snapshots s \<longrightarrow> host_sound cp snapshots (snd (sp_wait p (begin_activity s)))) \<and>
     (\<forall>effects effects'. wc_effects_from_slice (sp_wire p) (wc_effects_to_vec (sp_wire p) effects) = Inr effects' \<longrightarrow> effects' = effects)"

text \<open>The effects of an event were returned by the actor, run on this request, with a state that is its old one or is committed under the event's request.\<close>

definition effects_committed ::
    "snapshot_codec \<Rightarrow> 'x executor \<Rightarrow> actor_key \<Rightarrow> string \<Rightarrow> actor_socket_effect list \<Rightarrow> 'x system actor_host \<Rightarrow> bool" where
  "effects_committed snapshots exec actor request_id effects s \<longleftrightarrow>
     (\<exists>c st m x. ah_cached_state s (storage_key actor) = Some c \<and> ca_pending c = None \<and> ca_state c = Some st \<and>
       sock_actor m = actor \<and> sock_request_id m = request_id \<and> fst (exec_handle_socket exec m x) = Inr (SocketHandled st effects) \<and>
       (sock_state m = Some st \<or>
        (\<exists>name snap. sys_committed (ah_world s) (storage_key actor) = Some (ca_state_version c, name, request_id) \<and>
           holds_snapshot snapshots (sys_objects (ah_world s)) name snap \<and> snap_state snap = st)))"

lemma path_service_committed:
  assumes services: "services_faithful cp codec http" and p: "path_sound cp snapshots p" and s: "host_sound cp snapshots s"
    and run: "path_service p (sys_env cp codec client http snapshots base64 exec) prin invocation (g, s, caches) = (Inr effects, g', s', caches')"
  shows "effects_committed snapshots exec (sock_actor invocation) (sock_request_id invocation) effects s'"
  using run
proof (rule path_service_Inr)
  fix i s1 effects' and target :: workflow_actor_target
  assume s1: "s1 = s \<or> s1 = snd (sp_resolve p prin (sock_actor invocation) s)"
    and i: "sock_actor i = sock_actor invocation" "sock_request_id i = sock_request_id invocation"
    and handled: "handle_socket_event (sys_env cp codec client http snapshots base64 exec) (sp_wait p) i
      (wt_owner_epoch target) (wt_state_version target) (wt_state_read_url target) s1 = (Inr (Handled effects'), s')"
    and wire: "wc_effects_from_slice (sp_wire p) (wc_effects_to_vec (sp_wire p) effects') = Inr effects"
  have "host_sound cp snapshots s1" using s s1 p by (auto simp: path_sound_def)
  then have "host_sound cp snapshots (snd (sp_wait p (begin_activity s1)))" using p by (simp add: path_sound_def)
  then have "effects_committed snapshots exec (sock_actor i) (sock_request_id i) effects' s'"
    using system_socket_durable [OF services _ _ handled] unfolding effects_committed_def host_sound_def by blast
  moreover have "effects = effects'" using wire p unfolding path_sound_def by blast
  ultimately show ?thesis using i by simp
qed

lemma dispatch_True:
  assumes "dispatch env actor prin event trigger (g, w) = (True, g', w')"
  obtains effects event' connections g1 g2 w2 where "prepare_event actor event g = ((event', connections), g1)"
    "se_service env prin \<lparr>sock_request_id = se_uuid env w, sock_actor = actor, sock_event = event',
       sock_connections = connections, sock_state = None\<rparr> (g1, w) = (Inr effects, g2, w2)"
    "validate_socket_effects (se_decode env) (se_to_vec env) effects = Inr ()"
    "g' = (case event_connecting event' of None \<Rightarrow> registry_apply actor effects g2
       | Some connection_id \<Rightarrow> activate actor connection_id (registry_apply actor effects g2))"
    "w' = w2 \<or> (\<exists>events. w' = se_deliver env events w2)"
proof -
  obtain event' connections g1 where prepared: "prepare_event actor event g = ((event', connections), g1)" by (metis surj_pair)
  let ?i = "\<lparr>sock_request_id = se_uuid env w, sock_actor = actor, sock_event = event',
     sock_connections = connections, sock_state = None\<rparr>"
  obtain r g2 w2 where served: "se_service env prin ?i (g1, w) = (r, g2, w2)" by (metis surj_pair)
  obtain effects where r: "r = Inr effects" using assms prepared served by (cases r) (simp_all add: dispatch_def)
  have valid: "validate_socket_effects (se_decode env) (se_to_vec env) effects = Inr ()"
    using assms prepared served r
    by (cases "validate_socket_effects (se_decode env) (se_to_vec env) effects") (simp_all add: dispatch_def)
  show thesis
    by (rule that [OF prepared served [unfolded r] valid])
      (use assms prepared served r valid in \<open>auto simp: dispatch_def Let_def split: if_splits\<close>)
qed

text \<open>
  Claim C5. What clients see follows what is stored, from end to end: when the gateway has dispatched a socket event, the
  messages it put into the connections' channels are those of one list of valid effects, and the actor returned that list with
  a state that is the one it had before or that the database's head for the actor names, as a snapshot in the object
  store under this event's request. This holds across the dispatcher's caches, the wire, the host's admission,
  lost calls to the control plane and other connections' statements.
\<close>

theorem socket_messages_follow_commit:
  fixes p :: "'x socket_path" and env :: "('x system actor_host \<times> socket_caches) socket_env"
  assumes "services_faithful cp codec http" "path_sound cp snapshots p" "host_sound cp snapshots s"
    and deliver: "\<And>events w. fst (se_deliver env events w) = fst w"
    and service: "se_service env = path_service p (sys_env cp codec client http snapshots base64 exec)"
    and run: "dispatch env actor prin event trigger (g, s, caches) = (True, g', s', caches')"
  shows "\<exists>effects event' connections g1. prepare_event actor event g = ((event', connections), g1) \<and>
    validate_socket_effects (se_decode env) (se_to_vec env) effects = Inr () \<and>
    gw_queues g' = gw_queues (registry_apply actor effects (sp_others p g1)) \<and>
    effects_committed snapshots exec actor (se_uuid env (s, caches)) effects s'"
  using run
proof (rule dispatch_True)
  fix effects event' connections g1 g2 w2
  let ?i = "\<lparr>sock_request_id = se_uuid env (s, caches), sock_actor = actor, sock_event = event',
     sock_connections = connections, sock_state = None\<rparr>"
  assume prepared: "prepare_event actor event g = ((event', connections), g1)"
    and served: "se_service env prin ?i (g1, s, caches) = (Inr effects, g2, w2)"
    and valid: "validate_socket_effects (se_decode env) (se_to_vec env) effects = Inr ()"
    and g': "g' = (case event_connecting event' of None \<Rightarrow> registry_apply actor effects g2
       | Some connection_id \<Rightarrow> activate actor connection_id (registry_apply actor effects g2))"
    and w': "(s', caches') = w2 \<or> (\<exists>events. (s', caches') = se_deliver env events w2)"
  obtain caches2 where w2: "w2 = (s', caches2)" using w' deliver by (cases w2) (metis fst_conv)
  have run: "path_service p (sys_env cp codec client http snapshots base64 exec) prin ?i (g1, s, caches) = (Inr effects, g2, s', caches2)"
    using served service w2 by simp
  have "g2 = sp_others p g1" using run by (rule path_service_Inr)
  moreover have "gw_queues (activate actor j h) = gw_queues h" for j h
    by (simp add: activate_def update_socket_def split: option.splits)
  ultimately have "gw_queues g' = gw_queues (registry_apply actor effects (sp_others p g1))" using g' by (auto split: option.splits)
  with prepared valid path_service_committed [OF assms(1-3) run] show ?thesis by auto
qed


section \<open>A concrete path\<close>

text \<open>The cluster of \<^verbatim>\<open>System\<close> behind a gateway, with a wire that carries empty lists of effects.\<close>

definition path_wire :: wire_codec where
  "path_wire = sample_wire\<lparr>wc_effects_to_vec := (\<lambda>effects. if effects = [] then ''[]'' else ''?''),
     wc_effects_from_slice := (\<lambda>b. if b = ''[]'' then Inr [] else Inl (Bail ''unsupported''))\<rparr>"

definition cluster_path :: "unit socket_path" where
  "cluster_path = \<lparr>sp_unix_seconds = Inr 2, sp_resolve = (\<lambda>_ _ s. (Inr sample_target, s)), sp_connect = (\<lambda>_ _. Inr ()),
     sp_wire = path_wire, sp_auth = (\<lambda>_. Inr cluster_principal), sp_wait = Pair True, sp_others = id\<rparr>"

definition cluster_workflow :: actor_principal where
  "cluster_workflow = cluster_principal\<lparr>prin_process_role := Workflow\<rparr>"

definition cluster_gateway :: "(unit system actor_host \<times> socket_caches) socket_env" where
  "cluster_gateway = \<lparr>se_service = path_service cluster_path cluster_env, se_deliver = (\<lambda>_ w. w), se_uuid = (\<lambda>_. ''r1''), se_sink = False,
     se_decode = (\<lambda>_. Inl (Bail ''base64'')), se_encode = id, se_to_vec = (\<lambda>_. Inr ''null'')\<rparr>"

lemma cluster_path_sound: "path_sound cluster_cp sample_codec cluster_path"
  by (auto simp: path_sound_def cluster_path_def path_wire_def host_sound_def begin_activity_def split: if_splits)

lemma cluster_host_sound: "host_sound cluster_cp sample_codec cluster_actor_host"
  using cluster_world_sound by (simp add: host_sound_def cluster_actor_host_def host_new_def)

lemma cluster_send:
  "\<exists>s'. path_send cluster_path cluster_env sample_target cluster_event cluster_actor_host = (Inr (Completed Null []), s')"
proof -
  obtain s' where run: "handle_socket_event cluster_env (Pair True) cluster_event 1 0 [] cluster_actor_host = (Inr (Handled []), s')"
    using cluster_socket_run by blast
  obtain request where request: "socket_request path_wire sample_target cluster_event = Inr request"
      "socket_invocation_of_proto path_wire request = Inr (cluster_event\<lparr>sock_state := None\<rparr>)"
    and same: "hs_owner_epoch request = wt_owner_epoch sample_target" "hs_state_version request = wt_state_version sample_target"
      "hs_state_read_url request = wt_state_read_url sample_target"
  proof (rule socket_request_roundtrip)
    show "carries_event path_wire cluster_event" by (simp add: carries_event_def path_wire_def sample_wire_def cluster_event_def)
    show "actor_validate (sock_actor cluster_event) = Inr ()" using sample_actor_valid by (simp add: cluster_event_def)
  qed blast
  have state: "cluster_event\<lparr>sock_state := None\<rparr> = cluster_event" by (simp add: cluster_event_def)
  have allowed: "validate_host_request cluster_principal (endpoint_id (ah_endpoint cluster_actor_host)) (sock_actor cluster_event) 1 0 [] = Inr ()"
    by (simp add: validate_host_request_iff may_call_def cluster_principal_def cluster_actor_host_def host_new_def cluster_event_def)
  have "host_handle_socket path_wire (\<lambda>_. Inr cluster_principal) cluster_env (Pair True) m request cluster_actor_host
      = (Inr (reply_to_proto path_wire (Completed Null [])), s')" for m
    using request(2) allowed run same by (simp add: host_handle_socket_def state sample_target_def)
  then show ?thesis using request(1)
    by (simp add: path_send_def send_socket_event_def cluster_path_def reply_of_proto_def) (simp add: path_wire_def sample_wire_def)
qed

theorem socket_messages_follow_commit_witness:
  "\<exists>g' s' caches' effects. dispatch cluster_gateway sample_actor cluster_workflow (Message ''c1'' (Text ''hi'')) False
       (no_sockets, cluster_actor_host, \<lparr>sc_targets = Map.empty, sc_channels = {}\<rparr>) = (True, g', s', caches') \<and>
     effects_committed sample_codec cluster_executor sample_actor ''r1'' effects s'"
proof -
  let ?caches = "\<lparr>sc_targets = Map.empty, sc_channels = {}\<rparr> :: socket_caches"
  obtain s' where send: "path_send cluster_path cluster_env sample_target cluster_event cluster_actor_host = (Inr (Completed Null []), s')"
    using cluster_send by blast
  have "workflow_allowed cluster_workflow sample_actor = Inr ()"
    using sample_actor_valid by (simp add: workflow_allowed_def cluster_workflow_def cluster_principal_def scope_contains_def)
  then have "\<exists>caches1. socket_target (Inr 2) (sp_resolve cluster_path) cluster_workflow sample_actor (cluster_actor_host, ?caches)
      = (Inr sample_target, cluster_actor_host, caches1)"
    by (simp add: socket_target_def cluster_path_def cluster_workflow_def cluster_principal_def)
  then have "\<exists>caches2. path_service cluster_path cluster_env cluster_workflow cluster_event (no_sockets, cluster_actor_host, ?caches)
      = (Inr [], no_sockets, s', caches2)"
    using send by (auto simp: path_service_def dispatch_socket_event_def Let_def cluster_event_def) (auto simp: cluster_path_def)
  moreover have "prepare_event sample_actor (Message ''c1'' (Text ''hi'')) no_sockets = ((Message ''c1'' (Text ''hi''), []), no_sockets)"
    by (simp add: prepare_event_def registry_connections_def sockets_of_def no_sockets_def)
  ultimately obtain g' caches' where run: "dispatch cluster_gateway sample_actor cluster_workflow (Message ''c1'' (Text ''hi'')) False
       (no_sockets, cluster_actor_host, ?caches) = (True, g', s', caches')"
    by (auto simp: dispatch_def cluster_gateway_def validate_socket_effects_def event_connecting_def registry_apply_def cluster_event_def)
  have service: "se_service cluster_gateway = path_service cluster_path cluster_env" and deliver: "fst (se_deliver cluster_gateway events w) = fst w"
      and uuid: "se_uuid cluster_gateway w = ''r1''" for events w
    by (simp_all add: cluster_gateway_def)
  from socket_messages_follow_commit [OF cluster_services cluster_path_sound cluster_host_sound deliver service run] uuid run show ?thesis by auto
qed


end
