(* ===== verification/Failover.thy ===== *)
theory Failover
  imports System Routing
begin

text \<open>
  What remains of an actor when its host is replaced: the head one host committed, the statements of any other
  connections in between, the routing of the control plane to another host, and the first invocation there, which loads
  the state through the URL of its target (\<^verbatim>\<open>System\<close>, \<^verbatim>\<open>Routing\<close>). The next owner starts from
  the recorded state or a later one, because placements only move forward along every one of these steps.
\<close>

section \<open>The next owner\<close>

text \<open>An object that decodes to a snapshot, as the encoding of one does whose values \<^verbatim>\<open>serde_json\<close> reads back as it wrote them.\<close>

definition readable_snapshot :: "snapshot_codec \<Rightarrow> (string \<rightharpoonup> string) \<Rightarrow> string \<Rightarrow> state_snapshot \<Rightarrow> bool" where
  "readable_snapshot codec objects name snap \<longleftrightarrow> (\<exists>bytes. objects name = Some bytes \<and> snapshot_decode codec bytes = Inr snap)"

text \<open>
  What an acknowledgement leaves behind: the actor's head names a stored snapshot of its version, written under an
  epoch the placement has reached.
\<close>

definition recorded_head :: "snapshot_codec \<Rightarrow> 'x system \<Rightarrow> actor_storage_key \<Rightarrow> state_snapshot \<Rightarrow> bool" where
  "recorded_head snapshots w k snap \<longleftrightarrow>
     (\<exists>p name. head (sys_db w) k = Some p \<and> pl_state_version p = snap_state_version snap \<and> snap_owner_epoch snap \<le> pl_owner_epoch p \<and>
        pl_state_object p = Some name \<and> readable_snapshot snapshots (sys_objects w) name snap)"

text \<open>
  The store's documented answer to a GET: through the URL signed for reading an object, the object's bytes, as long as
  the URL is valid (it expires sixty seconds after it was signed). Signed URLs are HTTPS URLs.
\<close>

definition serves_reads :: "url_signer \<Rightarrow> (string \<Rightarrow> 'y system \<Rightarrow> bool) \<Rightarrow> 'y system http_client \<Rightarrow> bool" where
  "serves_reads sign valid http \<longleftrightarrow>
     (\<forall>r url. sign r = Inr url \<longrightarrow> url \<noteq> [] \<and> validate_url (parse_url http) url = Inr ()) \<and>
     (\<forall>r url w bytes. sign r = Inr url \<longrightarrow> sign_method r = GET \<longrightarrow> valid url w \<longrightarrow> sys_objects w (sign_object r) = Some bytes \<longrightarrow>
        (\<exists>resp. http_send http (HttpGet url) w = (Inr resp, w) \<and> is_success (resp_status resp) \<and> resp_body resp = Inr bytes))"

definition loaded_from :: "u64 \<Rightarrow> state_snapshot \<Rightarrow> cached_actor_state" where
  "loaded_from epoch snap =
     \<lparr>ca_owner_epoch = epoch, ca_state_version = snap_state_version snap, ca_state = Some (snap_state snap),
      ca_last_request_id = Some (snap_request_id snap), ca_last_result = Some (snap_result snap), ca_next_write = None, ca_pending = None\<rparr>"

lemma signed_read:
  assumes reads: "serves_reads (cp_sign cp) valid http" and url: "read_url buckets (cp_sign cp) region name = Inr url"
    and obj: "sys_objects w name = Some bytes" "valid url w"
  shows "url \<noteq> []" "transport_read http url w = (Inr bytes, w)"
proof -
  obtain b where sign: "cp_sign cp \<lparr>sign_bucket = b, sign_object = name, sign_method = GET, sign_ttl_secs = signed_url_ttl_secs,
      sign_headers = [], sign_query = []\<rparr> = Inr url"
    using url by (auto simp: read_url_def and_then_eq_Inr)
  from reads sign show "url \<noteq> []" unfolding serves_reads_def by blast
  from reads sign obj obtain resp where "http_send http (HttpGet url) w = (Inr resp, w)" "is_success (resp_status resp)" "resp_body resp = Inr bytes"
    "validate_url (parse_url http) url = Inr ()"
    unfolding serves_reads_def by (metis signed_url_request.select_convs(2,3))
  then show "transport_read http url w = (Inr bytes, w)" by (simp add: transport_read_def with_context_def)
qed

text \<open>A host without the actor's state loads exactly the snapshot the target's URL was signed for.\<close>

lemma takes_over:
  assumes reads: "serves_reads (cp_sign cp) valid http" and url: "read_url buckets (cp_sign cp) region name = Inr url"
    and snap: "readable_snapshot snapshots (sys_objects (ah_world s)) name snap" "snap_owner_epoch snap \<le> epoch"
    and fresh: "ah_cached_state s k = None" "valid url (ah_world s)"
  shows "take_or_load_state (sys_env cp codec client http snapshots base64 exec) k epoch (snap_state_version snap) url s =
    (Inr (loaded_from epoch snap), s)"
proof -
  obtain bytes where bytes: "sys_objects (ah_world s) name = Some bytes" "snapshot_decode snapshots bytes = Inr snap"
    using snap(1) by (auto simp: readable_snapshot_def split: option.splits)
  note read = signed_read [OF reads url bytes(1) fresh(2)]
  have "snap_state_version snap \<noteq> 0" using bytes(2) by (auto simp: snapshot_decode_Inr snapshot_ok_def)
  moreover have "s\<lparr>ah_cached_state := (ah_cached_state s)(k := None)\<rparr> = s" using fresh(1) by (simp add: fun_upd_idem)
  ultimately show ?thesis using read fresh(1) bytes(2) snap(2)
    by (simp add: take_or_load_state_def take_cached_state_def on_world_def sys_env_def cached_from_loaded_def loaded_from_def
        with_context_def fun_upd_idem)
qed

lemma loaded_replays:
  assumes "ah_accepting s" "invocation_validate inv0 = Inr ()" "namespace_id (inv_actor inv0) = ah_namespace_id s"
    "env_supports env (actor_type (inv_actor inv0))" "inv_request_id inv0 = snap_request_id snap"
    and load: "take_or_load_state env (storage_key (inv_actor inv0)) epoch v url (begin_activity s) = (Inr (loaded_from epoch snap), begin_activity s)"
  shows "\<exists>s'. invoke_actor_once env (Pair True) inv0 epoch v url s = (Inr (Completed (snap_result snap) []), s') \<and> ah_world s' = ah_world s"
proof -
  have "ah_accepting (begin_activity s)" using assms(1) by (simp add: begin_activity_def)
  then show ?thesis
    using assms invocation_admitted [OF assms(1-4)]
    by (simp add: invoke_actor_once_def with_activity_def run_invocation_def finish_pending_commit_def cached_replay_def loaded_from_def Let_def
        store_cached_state_def finish_activity_def begin_activity_def)
qed

text \<open>
  Claim C4. An acknowledged state survives its host. Let an actor's head name a stored snapshot, as an acknowledged invocation
  leaves it. Whatever other connections then do to the database, a workflow that is routed to the actor gets a target of
  at least that version and epoch; and if no later version was committed, any host that does not hold the actor's state loads
  exactly that snapshot through the target while its URL is valid, and answers a retry of the snapshot's request with the
  recorded result, leaving its executor, the store and the database untouched.
\<close>

theorem acknowledged_survives_failover:
  fixes s :: "'y system actor_host" and w :: "'x system"
  assumes recorded: "recorded_head snapshots w (storage_key actor) snap" "db_ok (sys_db w)"
    and route: "\<And>p. routing = Some (Some p) \<Longrightarrow> provisioner_ok p"
      "resolve_workflow_route n cp routing amb (fold db_apply others) prin actor kind (fold db_apply ops (sys_db w), routes)
        = (Some (Inr wt), db', routes')"
    and store: "serves_reads (cp_sign cp) valid http" "valid (wt_state_read_url wt) (ah_world s)" "\<And>name bytes. sys_objects w name = Some bytes \<Longrightarrow> sys_objects (ah_world s) name = Some bytes"
    and host: "ah_accepting s" "ah_cached_state s (storage_key actor) = None" "ah_namespace_id s = namespace_id actor"
      "exec_supports exec (actor_type actor)" "invocation_validate inv0 = Inr ()" "inv_actor inv0 = actor"
  shows "snap_state_version snap \<le> wt_state_version wt \<and> snap_owner_epoch snap \<le> wt_owner_epoch wt \<and>
    (wt_state_version wt = snap_state_version snap \<longrightarrow>
      take_or_load_state (sys_env cp codec client http snapshots base64 exec) (storage_key actor) (wt_owner_epoch wt) (wt_state_version wt)
        (wt_state_read_url wt) s = (Inr (loaded_from (wt_owner_epoch wt) snap), s) \<and>
      (inv_request_id inv0 = snap_request_id snap \<longrightarrow>
        (\<exists>s'. invoke_actor_once (sys_env cp codec client http snapshots base64 exec) (Pair True) inv0 (wt_owner_epoch wt) (wt_state_version wt)
          (wt_state_read_url wt) s = (Inr (Completed (snap_result snap) []), s') \<and> ah_world s' = ah_world s)))"
proof -
  let ?env = "sys_env cp codec client http snapshots base64 exec"
  obtain p name where p: "head (sys_db w) (storage_key actor) = Some p" "pl_state_version p = snap_state_version snap"
      "snap_owner_epoch snap \<le> pl_owner_epoch p" "pl_state_object p = Some name" "readable_snapshot snapshots (sys_objects w) name snap"
    using recorded(1) by (auto simp: recorded_head_def)
  obtain d q session revision where d: "forward (fold db_apply ops (sys_db w)) d" "head d (storage_key actor) = Some q"
      "target_matches cp amb (prin_expires_at prin) actor wt q session revision"
    by (rule resolved_head [OF route(1) db_run_ok [OF recorded(2)] route(2)])
  have "succeeds p q" using forward_trans [OF forward_run [OF recorded(2)] d(1)] p(1) d(2) by (force simp: forward_def)
  note q = this [unfolded succeeds_def] and wt = d(3) [unfolded target_matches_def]
  have version: "snap_state_version snap \<le> wt_state_version wt" "snap_owner_epoch snap \<le> wt_owner_epoch wt"
    using q wt p(2,3) by auto
  have holds: "readable_snapshot snapshots (sys_objects (ah_world s)) name snap"
    using p(5) store(3) by (auto simp: readable_snapshot_def split: option.splits)
  have "take_or_load_state ?env (storage_key actor) (wt_owner_epoch wt) (wt_state_version wt) (wt_state_read_url wt) s1 =
      (Inr (loaded_from (wt_owner_epoch wt) snap), s1)"
    if "wt_state_version wt = snap_state_version snap" "ah_world s1 = ah_world s" "ah_cached_state s1 = ah_cached_state s" for s1
  proof -
    have "read_url (cp_buckets cp) (cp_sign cp) (pl_home_region q) name = Inr (wt_state_read_url wt)"
      using q wt p(2,4) that(1) by auto
    from takes_over [OF store(1) this] that holds version(2) host(2) store(2) show ?thesis by simp
  qed
  note load = this
  have "\<exists>s'. invoke_actor_once ?env (Pair True) inv0 (wt_owner_epoch wt) (wt_state_version wt) (wt_state_read_url wt) s =
      (Inr (Completed (snap_result snap) []), s') \<and> ah_world s' = ah_world s"
    if "wt_state_version wt = snap_state_version snap" "inv_request_id inv0 = snap_request_id snap"
    using load [OF that(1), of "begin_activity s"] host that(2)
    by (intro loaded_replays) (simp_all add: begin_activity_def sys_env_def)
  with version load show ?thesis by blast
qed


section \<open>A concrete failover\<close>

text \<open>The placement of \<^verbatim>\<open>Routing\<close>'s concrete run, which moves from its first owner to another host, with its snapshot in the store.\<close>

definition moved_snapshot :: state_snapshot where
  "moved_snapshot = \<lparr>snap_state_version = 3, snap_owner_epoch = 1, snap_request_id = ''r'', snap_state = JObject [], snap_result = Null\<rparr>"

definition moved_codec :: snapshot_codec where
  "moved_codec = \<lparr>value_to_vec = (\<lambda>_. Inr ''{}''), snapshot_to_vec = (\<lambda>_. Inr ''snapshot''), snapshot_from_slice = (\<lambda>_. Inr moved_snapshot)\<rparr>"

definition moved_world :: "unit system" where
  "moved_world = \<lparr>sys_db = tenants_db, sys_objects = [''snapshots/prod-secret'' \<mapsto> ''snapshot''], sys_calls = [], sys_millis = Inr 2000, sys_executor = ()\<rparr>"

definition moved_executor :: "unit executor" where
  "moved_executor = cluster_executor\<lparr>exec_supports := (\<lambda>t. True)\<rparr>"

lemma moved_recorded: "recorded_head moved_codec moved_world (storage_key acme_actor) moved_snapshot"
  by (simp add: recorded_head_def acme_key moved_world_def tenants_db_def head_def abs_row_def moved_snapshot_def readable_snapshot_def
      snapshot_decode_Inr snapshot_ok_def moved_codec_def is_object_def)

lemma moved_reads: "serves_reads (cp_sign tenants_cp) (\<lambda>_ _. True) cluster_http"
  by (simp add: serves_reads_def tenants_cp_def cluster_http_def validate_url_def is_success_def)

theorem acknowledged_survives_failover_witness:
  "\<exists>wt db' routes'. resolve_workflow_route 1 tenants_cp (Some (Some acme_provisioner)) cluster_ambient id acme_workflow acme_actor ControlPlaneRoute
       (tenants_db, Map.empty) = (Some (Inr wt), db', routes') \<and>
     fst (invoke_actor_once (sys_env tenants_cp cluster_codec cluster_client cluster_http moved_codec sample_decode moved_executor) (Pair True)
       \<lparr>inv_request_id = ''r'', inv_actor = acme_actor, inv_method = ''get'', inv_args = []\<rparr> (wt_owner_epoch wt) (wt_state_version wt)
       (wt_state_read_url wt) (host_new \<lparr>endpoint_id = acme_host, endpoint_route = ''https://h''\<rparr> ''acme'' moved_world)) = Inr (Completed Null [])"
proof -
  obtain wt db' routes' where run: "resolve_workflow_route 1 tenants_cp (Some (Some acme_provisioner)) cluster_ambient id acme_workflow acme_actor
      ControlPlaneRoute (tenants_db, Map.empty) = (Some (Inr wt), db', routes')" and version: "wt_state_version wt = 3" using acme_resolves by blast
  have "invocation_validate \<lparr>inv_request_id = ''r'', inv_actor = acme_actor, inv_method = ''get'', inv_args = []\<rparr> = Inr ()"
    using acme_valid by (simp add: invocation_validate_def validate_component_def component_char_def ascii_defs)
  with acknowledged_survives_failover [OF moved_recorded _ _ _ moved_reads, of "Some (Some acme_provisioner)" 1 cluster_ambient "[]" acme_workflow
      ControlPlaneRoute "[]" Map.empty wt db' routes' "host_new \<lparr>endpoint_id = acme_host, endpoint_route = ''https://h''\<rparr> ''acme'' moved_world"
      moved_executor "\<lparr>inv_request_id = ''r'', inv_actor = acme_actor, inv_method = ''get'', inv_args = []\<rparr>" cluster_codec cluster_client sample_decode]
  run version acme_provisioner_ok show ?thesis
    by (auto simp: moved_world_def host_new_def moved_executor_def moved_snapshot_def id_def [symmetric])
qed


end
