(* ===== verification/Public_Api.thy ===== *)
theory Public_Api
  imports Control_Plane
begin

text \<open>
  The control plane's public HTTP API (\<^verbatim>\<open>src/control_plane/public_api.rs\<close>): registering deployments, issuing
  workflow tokens, publishing the keys and resolving targets, with the status and code of every
  failure. Log lines and timings are left out. The lemmas show what the administrator's credential guards, and
  that an issued workflow token is accepted where it is to be used.
\<close>

record api_error =
  err_status :: nat
  err_code :: string
  err_message :: string

definition api_new :: "nat \<Rightarrow> string \<Rightarrow> string \<Rightarrow> api_error" where
  "api_new status code message = \<lparr>err_status = status, err_code = code, err_message = message\<rparr>"

definition bad_request :: "string \<Rightarrow> api_error" where
  "bad_request message = api_new 400 ''invalid_request'' message"

definition unauthorized :: "string \<Rightarrow> api_error" where
  "unauthorized message = api_new 401 ''unauthenticated'' message"

definition forbidden :: "string \<Rightarrow> api_error" where
  "forbidden message = api_new 403 ''forbidden'' message"

definition conflict :: "string \<Rightarrow> api_error" where
  "conflict message = api_new 409 ''conflict'' message"

definition unavailable :: "string \<Rightarrow> api_error" where
  "unavailable message = api_new 503 ''unavailable'' message"

definition internal :: "string \<Rightarrow> api_error" where
  "internal message = api_new 500 ''internal'' message"

definition guard :: "bool \<Rightarrow> api_error \<Rightarrow> api_error + unit" where
  "guard b e = (if b then Inr () else Inl e)"

text \<open>The authorization header is absent, not text, or text.\<close>

definition authorization :: "string result option \<Rightarrow> api_error + string" where
  "authorization header =
     (case header of
        None \<Rightarrow> Inl (unauthorized ''bearer credential is required'')
      | Some (Inl _) \<Rightarrow> Inl (unauthorized ''bearer credential is invalid'')
      | Some (Inr value) \<Rightarrow> Inr value)"

definition authorized_admin :: "('sk, 'vk) admin_service \<Rightarrow> string result option \<Rightarrow> api_error + unit" where
  "authorized_admin admin header =
     and_then (authorization header) (\<lambda>value.
     map_error (\<lambda>_. unauthorized ''admin credential was rejected'') (admin_authenticate admin value))"

definition authorized_workflow ::
    "(string \<Rightarrow> actor_principal result) \<Rightarrow> string result option \<Rightarrow> actor_key \<Rightarrow> api_error + actor_principal" where
  "authorized_workflow verify header actor =
     and_then (authorization header) (\<lambda>value.
     and_then (map_error (\<lambda>_. unauthorized ''workflow token was rejected'') (verify value)) (\<lambda>prin.
     and_then (guard (prin_process_role prin = Workflow) (forbidden ''credential is not a workflow token'')) (\<lambda>_.
     and_then (guard (scope_contains (prin_scope prin) actor) (forbidden ''workflow token cannot cross namespace scope'')) (\<lambda>_.
     Inr prin))))"

record register_deployment_request =
  rd_code_revision :: string
  rd_image_ref :: string
  rd_working_directory :: string
  rd_actor_entrypoint :: "string option"
  rd_warm_region :: "string option"

text \<open>\<open>register\<close> and \<open>warm\<close> are the service's registration and its warming in the background.\<close>

definition api_register_deployment ::
    "(host_launch_spec \<Rightarrow> database \<Rightarrow> bool result \<times> database) \<Rightarrow> (host_launch_spec \<Rightarrow> string \<Rightarrow> database \<Rightarrow> database)
     \<Rightarrow> ('sk, 'vk) admin_service \<Rightarrow> string result option \<Rightarrow> string \<Rightarrow> register_deployment_request \<Rightarrow> database
     \<Rightarrow> (api_error + bool) \<times> database" where
  "api_register_deployment registering warm admin header namespace request db =
     (case authorized_admin admin header of
        Inl e \<Rightarrow> (Inl e, db)
      | Inr _ \<Rightarrow>
          (let spec = \<lparr>spec_namespace_id = namespace, spec_code_revision = rd_code_revision request,
                 spec_image_ref = rd_image_ref request, spec_working_directory = rd_working_directory request,
                 spec_actor_entrypoint = rd_actor_entrypoint request\<rparr>
           in case registering spec db of
                (Inl e, db') \<Rightarrow> (Inl (bad_request (error_head e)), db')
              | (Inr changed, db') \<Rightarrow>
                  (Inr changed, case rd_warm_region request of None \<Rightarrow> db' | Some region \<Rightarrow> warm spec region db')))"

record issue_workflow_token_request =
  iw_execution_id :: string
  iw_deadline_unix_ms :: i64
  iw_storage_region :: string
  iw_private_routing :: bool

definition api_issue_workflow_token ::
    "('sk, 'vk) jwt_library \<Rightarrow> i64 result \<Rightarrow> string \<Rightarrow> string \<Rightarrow> ('sk, 'vk) admin_service \<Rightarrow> string result option \<Rightarrow> string
     \<Rightarrow> issue_workflow_token_request \<Rightarrow> database \<Rightarrow> api_error + issued_token" where
  "api_issue_workflow_token lib unix_millis process_uuid session_uuid admin header namespace request db =
     and_then (authorized_admin admin header) (\<lambda>_.
     and_then (guard (iw_execution_id request \<noteq> [] \<and> length (iw_execution_id request) \<le> 255)
       (bad_request ''workflow execution ID is invalid'')) (\<lambda>_.
     and_then (guard (0 < iw_deadline_unix_ms request) (bad_request ''workflow deadline is required'')) (\<lambda>_.
     and_then (map_error (\<lambda>e. internal (error_head e)) (deployment_exists namespace db)) (\<lambda>present.
     and_then (guard present (conflict ''project has no registered actor code'')) (\<lambda>_.
     map_error (\<lambda>e. bad_request (error_head e)) (issue_workflow_token lib unix_millis process_uuid session_uuid admin namespace
       (iw_execution_id request) (iw_storage_region request) (iw_deadline_unix_ms request) (iw_private_routing request)))))))"

text \<open>\<open>to_vec\<close> and \<open>from_slice\<close> are the serializer on key sets.\<close>

definition api_jwks ::
    "('vk jwk list \<Rightarrow> string result) \<Rightarrow> (string \<Rightarrow> json result) \<Rightarrow> ('sk, 'vk) admin_service \<Rightarrow> api_error + json" where
  "api_jwks to_vec from_slice admin =
     and_then (map_error (\<lambda>e. internal (error_head e)) (to_vec (jwks (adm_issuer admin)))) (\<lambda>bytes.
     map_error (\<lambda>e. internal (error_head e)) (from_slice bytes))"

text \<open>
  \<open>resolve\<close> is \<^verbatim>\<open>resolve_workflow_route\<close> for an invocation; it may not return.
\<close>

definition api_resolve_actor_target ::
    "(string \<Rightarrow> actor_principal result) \<Rightarrow> (actor_principal \<Rightarrow> actor_key \<Rightarrow> 's \<Rightarrow> workflow_actor_target result option \<times> 's)
     \<Rightarrow> string result option \<Rightarrow> actor_key \<Rightarrow> 's \<Rightarrow> (api_error + workflow_actor_target) option \<times> 's" where
  "api_resolve_actor_target verify resolve header actor st =
     (case and_then (map_error (\<lambda>e. bad_request (error_head e)) (actor_validate actor)) (\<lambda>_. authorized_workflow verify header actor) of
        Inl e \<Rightarrow> (Some (Inl e), st)
      | Inr prin \<Rightarrow>
          (case resolve prin actor st of
             (r, st') \<Rightarrow> (map_option (map_error (\<lambda>e. unavailable (''actor host is unavailable: '' @ show_error e))) r, st')))"

section \<open>The administrator's credential\<close>

lemma guard_Inr [simp]: "guard b e = Inr u \<longleftrightarrow> b"
  by (auto simp: guard_def)

lemma map_error_Inr [simp]: "map_error f r = Inr x \<longleftrightarrow> r = Inr x"
  by (cases r) auto

lemma authorized_admin_Inr:
  "authorized_admin admin header = Inr u \<Longrightarrow> header = Some (Inr (''Bearer '' @ adm_token admin))"
  by (auto simp: authorized_admin_def authorization_def admin_authenticate_def and_then_eq_Inr split: option.splits sum.splits)

lemma authorized_admin_Inl: "authorized_admin admin header = Inl e \<Longrightarrow> err_status e = 401"
  by (auto simp: authorized_admin_def authorization_def and_then_def map_error_def unauthorized_def api_new_def
      split: option.splits sum.splits)

section \<open>Workflow tokens\<close>

lemma api_issue_Inr:
  assumes "api_issue_workflow_token lib (Inr now_ms) pu su admin header namespace request db = Inr tok"
  shows "header = Some (Inr (''Bearer '' @ adm_token admin))" "iw_execution_id request \<noteq> []"
    "scope_validate \<lparr>scope_namespace_id = namespace\<rparr> = Inr ()"
    "issue_workflow lib (Inr now_ms) pu su (adm_issuer admin) namespace (iw_execution_id request) (iw_storage_region request)
       (iw_deadline_unix_ms request) (iw_private_routing request) = Inr tok"
  using assms authorized_admin_Inr [of admin header]
  by (auto simp: api_issue_workflow_token_def issue_workflow_token_def deployment_exists_def launch_spec_def validate_namespace_def
      and_then_eq_Inr)

lemma issue_workflow_Inr:
  assumes "issue_workflow lib (Inr now_ms) pu su issuer namespace execution region deadline private = Inr tok"
    and life: "0 < iss_max_lifetime_ms issuer" and time: "0 \<le> now_ms" "now_ms + int (iss_max_lifetime_ms issuer) \<le> i64_max"
  obtains expires where "expires = min (i64_saturating (deadline + int workflow_deadline_grace_ms)) (now_ms + int (iss_max_lifetime_ms issuer))"
    "now_ms < deadline" "validate_region region = Inr ()"
    "issue lib issuer \<lparr>ic_iss = iss_issuer issuer, ic_aud = [iss_authority_audience issuer, iss_invocation_audience issuer],
       ic_claims = \<lparr>cl_sub = execution, cl_namespace_id = namespace,
         cl_host_id = ''workflow.v1.'' @ namespace @ ''.'' @ pu, cl_session_id = su,
         cl_process_role = Workflow, cl_region = region, cl_private_routing = private,
         cl_code_revision = None, cl_scope = ''actor:invoke'', cl_iat = now_ms div 1000, cl_nbf = now_ms div 1000,
         cl_exp = expires div 1000, cl_invocation = None\<rparr>\<rparr> = Inr tok"
proof -
  have sat: "i64_saturating (now_ms + int (iss_max_lifetime_ms issuer)) = now_ms + int (iss_max_lifetime_ms issuer)"
    using time by (simp add: i64_saturating_def)
  have ms: "duration_millis (iss_max_lifetime_ms issuer) = Inr (int (iss_max_lifetime_ms issuer))"
      "duration_millis workflow_deadline_grace_ms = Inr (int workflow_deadline_grace_ms)"
    using time by (simp_all add: duration_millis_def i64_checked_def i64_ok_def ok_or_def)
  have r: "validate_region region = Inr ()" using assms(1) by (cases "validate_region region") (simp_all add: issue_workflow_def)
  have d: "now_ms < deadline" using assms(1) r by (simp add: issue_workflow_def split: if_splits)
  show thesis by (rule that [OF refl d r]) (use assms(1) r d ms sat in \<open>simp add: issue_workflow_def Let_def\<close>)
qed

text \<open>
  Claim C37. The administrator alone issues workflow tokens, and they work: an issued token was asked for with the
  administrator's credential, and at that time the target endpoint accepts it for every actor of
  its namespace, as a workflow process in the requested region, for no longer than the workflow's
  deadline and its grace period, and for no actor of another namespace.
\<close>

theorem workflow_token_usable:
  assumes lib: "jwt_faithful lib (iss_encoding_key (adm_issuer admin)) vk (now_ms div 1000)"
    and ver: "verifies ver (adm_issuer admin) vk (iss_authority_audience (adm_issuer admin))" "ver_purpose ver = ControlPlane"
      "ver_max_lifetime_ms ver = iss_max_lifetime_ms (adm_issuer admin)"
    and life: "1000 dvd iss_max_lifetime_ms (adm_issuer admin)" "0 < iss_max_lifetime_ms (adm_issuer admin)"
    and time: "0 \<le> now_ms" "now_ms + int (iss_max_lifetime_ms (adm_issuer admin)) \<le> i64_max" and uuid: "uuid_parse lib su"
    and run: "api_issue_workflow_token lib (Inr now_ms) pu su admin header namespace request db = Inr tok"
  shows "header = Some (Inr (''Bearer '' @ adm_token admin)) \<and>
    (\<exists>prin. prin_process_role prin = Workflow \<and> prin_region prin = iw_storage_region request \<and>
      1000 * prin_expires_at prin \<le> iw_deadline_unix_ms request + 30000 \<and>
      (\<forall>actor. authorized_workflow (authenticate_authorization lib (Inr (now_ms div 1000)) ver) (Some (Inr (''Bearer '' @ tok_token tok))) actor =
         (if namespace_id actor = namespace then Inr prin else Inl (forbidden ''workflow token cannot cross namespace scope''))))"
proof -
  let ?m = "int (iss_max_lifetime_ms (adm_issuer admin))" and ?now = "now_ms div 1000"
  note api = api_issue_Inr [OF run]
  obtain expires where expires: "expires = min (i64_saturating (iw_deadline_unix_ms request + int workflow_deadline_grace_ms)) (now_ms + ?m)"
    and deadline: "now_ms < iw_deadline_unix_ms request" and region: "validate_region (iw_storage_region request) = Inr ()"
    and issued: "issue lib (adm_issuer admin) \<lparr>ic_iss = iss_issuer (adm_issuer admin),
       ic_aud = [iss_authority_audience (adm_issuer admin), iss_invocation_audience (adm_issuer admin)],
       ic_claims = \<lparr>cl_sub = iw_execution_id request, cl_namespace_id = namespace,
         cl_host_id = ''workflow.v1.'' @ namespace @ ''.'' @ pu, cl_session_id = su,
         cl_process_role = Workflow, cl_region = iw_storage_region request, cl_private_routing = iw_private_routing request,
         cl_code_revision = None, cl_scope = ''actor:invoke'', cl_iat = ?now, cl_nbf = ?now,
         cl_exp = expires div 1000, cl_invocation = None\<rparr>\<rparr> = Inr tok" (is "issue _ _ ?c = _")
    by (rule issue_workflow_Inr [OF api(4) life(2) time])
  obtain k where k: "?m = 1000 * k" "0 < k" using life by (auto elim!: dvdE)
  have sat: "min (now_ms + 1000) (i64_max :: int) \<le> i64_saturating (iw_deadline_unix_ms request + 30000)"
    using deadline time by (auto simp: i64_saturating_def)
  have window: "now_ms + 1000 \<le> expires" "expires \<le> now_ms + ?m"
    using sat k time by (auto simp: expires)
  then have secs: "?now < expires div 1000" "expires div 1000 \<le> ?now + k" using k by linarith+
  have "i64_saturating (iw_deadline_unix_ms request + 30000) \<le> iw_deadline_unix_ms request + 30000"
    using deadline time by (auto simp: i64_saturating_def)
  then have grace: "1000 * (expires div 1000) \<le> iw_deadline_unix_ms request + 30000" by (simp add: expires)
  have words: "split_ascii_whitespace [] ''actor:invoke'' = [''actor:invoke'']" by (simp add: is_ascii_whitespace_def)
  have small: "?now \<le> i64_max - 5" "k \<le> i64_max" using k time by auto
  have "claims_ok lib ?now ver (ic_claims ?c)"
    unfolding claims_ok_def using ver(2,3) api(2,3) uuid region secs k words small time
    by (auto simp: i64_ok_def i64_saturating_def process_prefix_def principal_of_def starts_with_def)
  then have "validate_claims lib (Inr ?now) ver (ic_claims ?c) = Inr (principal_of (ic_claims ?c))" by (simp add: validate_claims_iff)
  moreover have "authenticate_authorization lib (Inr ?now) ver (''Bearer '' @ tok_token tok) = validate_claims lib (Inr ?now) ver (ic_claims ?c)"
    by (rule issue_authenticates [OF lib ver(1) issued]) (use secs in auto)
  ultimately have "authenticate_authorization lib (Inr ?now) ver (''Bearer '' @ tok_token tok) = Inr (principal_of (ic_claims ?c))" by simp
  then show ?thesis using api(1) grace
    by (intro conjI exI [of _ "principal_of (ic_claims ?c)"])
      (auto simp: authorized_workflow_def authorization_def guard_def principal_of_def scope_contains_def)
qed

definition sample_admin :: "(unit, unit) admin_service" where
  "sample_admin = \<lparr>adm_token = ''admin'', adm_issuer = sample_issuer\<rparr>"

definition sample_token_request :: issue_workflow_token_request where
  "sample_token_request = \<lparr>iw_execution_id = ''e1'', iw_deadline_unix_ms = 20000, iw_storage_region = ''eu-west'', iw_private_routing = False\<rparr>"

definition sample_workflow_claims :: issued_claims where
  "sample_workflow_claims = \<lparr>ic_iss = ''iss'', ic_aud = [''cp'', ''host''],
     ic_claims = \<lparr>cl_sub = ''e1'', cl_namespace_id = ''ns'', cl_host_id = ''workflow.v1.ns.p1'', cl_session_id = ''u1'',
       cl_process_role = Workflow, cl_region = ''eu-west'', cl_private_routing = False, cl_code_revision = None, cl_scope = ''actor:invoke'',
       cl_iat = 5, cl_nbf = 5, cl_exp = 50, cl_invocation = None\<rparr>\<rparr>"

definition deployed_db :: database where
  "deployed_db = snd (ensure_namespace_and_register_deployment sample_spec empty_database)"

lemma sample_token_issued:
  "api_issue_workflow_token (sample_lib sample_workflow_claims) (Inr 5000) ''p1'' ''u1'' sample_admin (Some (Inr ''Bearer admin'')) ''ns''
     sample_token_request deployed_db = Inr \<lparr>tok_token = ''tok'', tok_expires_at_ms = 50000\<rparr>"
proof -
  have admin: "authorized_admin sample_admin (Some (Inr ''Bearer admin'')) = Inr ()"
  proof -
    have "is_trimmed ''admin''" by code_simp
    then show ?thesis by (simp add: authorized_admin_def authorization_def admin_authenticate_def sample_admin_def strip_prefix_def ok_or_def)
  qed
  have present: "deployment_exists ''ns'' deployed_db = Inr True"
    using sample_spec_valid by (simp add: deployed_db_def deployment_exists_def launch_spec_def ensure_namespace_and_register_deployment_def
        register_spec_statement_def empty_database_def validate_namespace_def scope_validate_def validate_component_def component_char_def
        ascii_defs Let_def) (simp add: sample_spec_def)
  have region: "validate_region ''eu-west'' = Inr ()" by (simp add: validate_region_def region_char_def ascii_defs)
  show ?thesis using admin present region
    by (simp add: api_issue_workflow_token_def sample_token_request_def guard_def issue_workflow_token_def issue_workflow_def sample_admin_def
        sample_issuer_def duration_millis_def i64_checked_def i64_ok_def i64_saturating_def ok_or_def issue_def sample_lib_def
        sample_workflow_claims_def Let_def)
qed

theorem workflow_token_usable_witness:
  "is_ok (authorized_workflow (authenticate_authorization (sample_lib sample_workflow_claims) (Inr 5) (sample_verifier ControlPlane ''cp''))
     (Some (Inr ''Bearer tok'')) \<lparr>namespace_id = ''ns'', actor_type = ''T'', actor_id = ''a''\<rparr>)"
proof -
  have issuer: "adm_issuer sample_admin = sample_issuer" by (simp add: sample_admin_def)
  show ?thesis
    using workflow_token_usable [OF _ _ _ _ _ _ _ _ _ sample_token_issued, of "()" "sample_verifier ControlPlane ''cp''"]
      sample_lib_faithful [of sample_workflow_claims "()" "()" 5] sample_verifies [of ControlPlane "''cp''"]
    by (auto simp: issuer sample_issuer_def sample_verifier_def sample_lib_def Let_def)
qed

end
