(* ===== verification/Well_Formed.thy ===== *)
theory Well_Formed
  imports System Routing Public_Api
begin

text \<open>
  The database as all entry points of the control plane leave it: the commands of hosts, the routing of workflows, the
  registration of deployments, and the statements of other connections in between. The lemmas show that every
  table keeps its constraints, so that no stored row is ever refused when it is read back.
\<close>

section \<open>Routing and deployments\<close>

lemma claim_db_ok: "db_ok db \<Longrightarrow> db_ok (env db) \<Longrightarrow> db_ok (snd (claim env k e h r db))"
  using claim_step [of db env k e h r, OF _ _ surjective_pairing] by auto

lemma route_turn_db_ok:
  assumes env: "\<And>d. db_ok d \<Longrightarrow> db_ok (env d)" and prov: "\<And>p. provisioner = Some p \<Longrightarrow> provisioner_ok p" and ok: "db_ok db"
  shows "db_ok (snd (route_turn buckets provisioner now env actor region spec db))"
proof -
  have ensured: "db_ok (snd (prov_ensure_host p spec rg (env (env db))))" if "provisioner = Some p" for p rg
    using prov [OF that] env ok by (simp add: provisioner_ok_def)
  have claimed: "db_ok (snd (claim env k e h rg (env d)))" if "db_ok d" for k e h rg d
    using claim_db_ok env that by blast
  show ?thesis
    using ok env ensured claimed
    by (auto simp: route_turn_def Let_def result_simps ok_or_def split: sum.splits option.splits prod.splits)
      (metis snd_conv)+
qed

lemma route_loop_db_ok:
  assumes "\<And>d. db_ok d \<Longrightarrow> db_ok (env d)" "\<And>p. provisioner = Some p \<Longrightarrow> provisioner_ok p"
  shows "db_ok db \<Longrightarrow> db_ok (snd (route_loop n buckets provisioner now env actor region spec db))"
proof (induction n arbitrary: db)
  case (Suc n)
  obtain r db' where turn: "route_turn buckets provisioner now env actor region spec db = (r, db')" by (rule prod.exhaust)
  have "db_ok (snd (route_turn buckets provisioner now env actor region spec db))" by (intro route_turn_db_ok assms Suc.prems)
  then have "db_ok db'" using turn by simp
  with Suc.IH assms(1) turn show ?case by (auto split: sum.splits option.splits)
qed simp

lemma resolve_db_ok:
  assumes "\<And>d. db_ok d \<Longrightarrow> db_ok (env d)" "\<And>p. routing = Some (Some p) \<Longrightarrow> provisioner_ok p" "db_ok db"
  shows "db_ok (fst (snd (resolve_workflow_route n cp routing amb env prin actor kind (db, routes))))"
proof -
  have "db_ok (snd (route_actor n (cp_buckets cp) routing now env actor region db))" for now region
    using route_loop_db_ok [of env] assms by (auto simp: route_actor_def result_simps split: sum.splits)
  then have "db_ok db'" if "route_actor n (cp_buckets cp) routing now env actor region db = (r, db')" for now region r db'
    using that by (metis snd_conv)
  with assms(3) show ?thesis by (auto simp: resolve_workflow_route_def split: sum.splits option.splits prod.splits)
qed

lemma ensure_deployment_db_ok: "db_ok db \<Longrightarrow> db_ok (snd (ensure_namespace_and_register_deployment spec db))"
  by (auto simp: ensure_namespace_and_register_deployment_def register_spec_statement_def Let_def db_ok_def split: sum.splits)

text \<open>A sandbox command on the database: hosts that start or stop write their leases.\<close>

definition keeps_tables :: "('a \<Rightarrow> 'b \<Rightarrow> database \<Rightarrow> 'c \<times> database) option \<Rightarrow> bool" where
  "keeps_tables f \<longleftrightarrow> (\<forall>g a b d. f = Some g \<longrightarrow> db_ok d \<longrightarrow> db_ok (snd (g a b d)))"

lemma register_deployment_db_ok:
  assumes "\<And>d. db_ok d \<Longrightarrow> db_ok (env d)" "keeps_tables terminate" "db_ok db"
  shows "db_ok (snd (register_deployment terminate buckets env spec db))"
proof -
  have saved: "db_ok d'" if "ensure_namespace_and_register_deployment spec (env db) = (r, d')" for r d'
    using ensure_deployment_db_ok [of "env db" spec] assms that by simp
  have "db_ok (terminate_deployment_hosts terminate buckets p d)" if "db_ok d" for p d
    using assms(2) that by (auto simp: terminate_deployment_hosts_def keeps_tables_def split: option.splits)
  with saved assms(3) show ?thesis by (auto simp: register_deployment_def split: sum.splits prod.splits option.splits)
qed

lemma api_register_db_ok:
  assumes "\<And>d. db_ok d \<Longrightarrow> db_ok (env d)" "keeps_tables terminate" "keeps_tables warm" "db_ok db"
  shows "db_ok (snd (api_register_deployment (register_deployment terminate buckets env) (warm_deployment_image warm buckets)
    admin header namespace request db))"
proof -
  have "db_ok (snd (register_deployment terminate buckets env spec db))" for spec by (intro register_deployment_db_ok assms)
  then have reg: "db_ok d'" if "register_deployment terminate buckets env spec db = (r, d')" for spec r d'
    using that by (metis snd_conv)
  have "db_ok (warm_deployment_image warm buckets spec region d)" if "db_ok d" for spec region d
    using assms(3) that by (auto simp: warm_deployment_image_def keeps_tables_def split: option.splits)
  with reg assms(4) show ?thesis by (auto simp: api_register_deployment_def Let_def split: sum.splits prod.splits option.splits)
qed

section \<open>Every reachable database\<close>

inductive control_plane_step ::
    "('sk, 'vk) control_plane \<Rightarrow> command_codec \<Rightarrow> ('sk, 'vk) admin_service \<Rightarrow> database \<Rightarrow> database \<Rightarrow> bool"
  for cp codec admin where
  command: "control_plane_step cp codec admin db (snd (cp_execute cp codec amb (fold db_apply others) metadata bytes db))"
| route: "(\<And>p. routing = Some (Some p) \<Longrightarrow> provisioner_ok p) \<Longrightarrow> control_plane_step cp codec admin db
    (fst (snd (resolve_workflow_route n cp routing amb (fold db_apply others) prin actor kind (db, routes))))"
| deployment: "keeps_tables terminate \<Longrightarrow> keeps_tables warm \<Longrightarrow> control_plane_step cp codec admin db
    (snd (api_register_deployment (register_deployment terminate (cp_buckets cp) (fold db_apply others))
      (warm_deployment_image warm (cp_buckets cp)) admin header namespace request db))"
| others: "control_plane_step cp codec admin db (db_apply op db)"

lemma control_plane_step_db_ok: "control_plane_step cp codec admin db db' \<Longrightarrow> db_ok db \<Longrightarrow> db_ok db'"
proof (induction rule: control_plane_step.induct)
  case (command db amb others metadata bytes)
  then show ?case by (intro cp_execute_db_ok others_ok)
next
  case (route routing db n amb others prin actor kind routes)
  then show ?case by (intro resolve_db_ok others_ok)
next
  case (deployment terminate warm db others header namespace request)
  then show ?case by (intro api_register_db_ok others_ok)
next
  case (others db op)
  then show ?case using db_run_ok [of db "[op]"] by simp
qed

lemma control_plane_steps_db_ok: "(control_plane_step cp codec admin)\<^sup>*\<^sup>* db db' \<Longrightarrow> db_ok db \<Longrightarrow> db_ok db'"
  by (induction rule: rtranclp_induct) (auto intro: control_plane_step_db_ok)

text \<open>
  Claim C10. Nothing the control plane stores is ever refused when it is read: in every database that its commands, routings and
  deployments reach from an empty one, interleaved with other connections' statements in any way, every placement reads
  back as stored, with a positive epoch, every lease has a status at every time after the epoch, and every
  deployment belongs to a namespace that exists.
\<close>

theorem database_well_formed:
  assumes "(control_plane_step cp codec admin)\<^sup>*\<^sup>* empty_database db"
  shows "(\<forall>k. placement_get k db = Inr (head db k) \<and> (\<forall>p. head db k = Some p \<longrightarrow> 0 < pl_owner_epoch p)) \<and>
    (\<forall>h now. 0 \<le> now \<longrightarrow> is_ok (lease_status now h db)) \<and> dom (db_specs db) \<subseteq> db_namespaces db"
proof -
  have ok: "db_ok db" by (rule control_plane_steps_db_ok [OF assms db_ok_empty])
  have "0 < pl_owner_epoch p" if p: "head db k = Some p" for k p
  proof -
    obtain row where row: "db_placements db (key_str k) = Some row" "p = abs_row k row" using p by (auto simp: head_def)
    then have "uint (pl_owner_epoch p) = pr_owner_epoch row" "0 < pr_owner_epoch row"
      using db_ok_placement [OF ok row(1)] by (simp_all add: placement_row_ok_def abs_row_def uint_word_of_i64)
    then show ?thesis by (simp add: word_less_def)
  qed
  moreover have "is_ok (lease_status now h db)" if "0 \<le> now" for h now
    using that db_ok_lease [OF ok, of "host_str h"]
    by (auto simp: lease_status_def u64_of_i64_def lease_row_ok_def ok_or_def split: option.splits)
  ultimately show ?thesis using ok placement_get_ok by (auto simp: db_ok_def)
qed

theorem database_well_formed_witness:
  "\<exists>db p. (control_plane_step cluster_cp cluster_codec sample_admin)\<^sup>*\<^sup>* empty_database db \<and>
     placement_get (storage_key sample_actor) db = Inr (Some p) \<and> 0 < pl_owner_epoch p"
proof -
  let ?db = "db_apply (ClaimOp (storage_key sample_actor) None cluster_host ''eu-west'') empty_database"
  have reach: "(control_plane_step cluster_cp cluster_codec sample_admin)\<^sup>*\<^sup>* empty_database ?db"
    by (intro r_into_rtranclp control_plane_step.others)
  have "storage_key_validate (storage_key sample_actor) = Inr ()" "validate_region ''eu-west'' = Inr ()"
    by (simp_all add: storage_key_validate_def storage_key_def validate_region_def region_char_def ascii_defs)
  then have "\<exists>p. head ?db (storage_key sample_actor) = Some p"
    by (simp add: claim_def claim_insert_statement_def empty_database_def head_def Let_def split: sum.splits)
  with database_well_formed [OF reach] reach show ?thesis by metis
qed


end
