(* ===== verification/Local_Leases.thy ===== *)
theory Local_Leases
  imports Host_Leases
begin

text \<open>
  The lease store on the local file system (\<^verbatim>\<open>src/host_leases/local.rs\<close>): one JSON file per host under a
  root directory, every operation under one mutex. The crate compiles it for its tests, as the stand-in for the
  PostgreSQL store. The serializer is a parameter; a disk is its files and the faults it will
  report. The lemmas show that the stand-in answers like the store it stands for.
\<close>

section \<open>Files\<close>

text \<open>
  A fault of a write tells how many bytes are left in the file, if the file was opened at all.
\<close>

record disk =
  disk_files :: "string \<rightharpoonup> string"
  disk_read_fault :: "string \<Rightarrow> error option"
  disk_mkdir_fault :: "string \<Rightarrow> error option"
  disk_write_fault :: "string \<Rightarrow> (error \<times> nat option) option"
  disk_remove_fault :: "string \<Rightarrow> error option"

definition fs_read :: "string \<Rightarrow> disk \<Rightarrow> string option result" where
  "fs_read path d = (case disk_read_fault d path of Some e \<Rightarrow> Inl e | None \<Rightarrow> Inr (disk_files d path))"

definition fs_write :: "string \<Rightarrow> string \<Rightarrow> disk \<Rightarrow> unit result \<times> disk" where
  "fs_write path body d =
     (case disk_write_fault d path of
        None \<Rightarrow> (Inr (), d\<lparr>disk_files := (disk_files d)(path \<mapsto> body)\<rparr>)
      | Some (e, None) \<Rightarrow> (Inl e, d)
      | Some (e, Some n) \<Rightarrow> (Inl e, d\<lparr>disk_files := (disk_files d)(path \<mapsto> take n body)\<rparr>))"

text \<open>\<^verbatim>\<open>Path::join\<close>: an absolute path replaces the root.\<close>

definition path_join :: "string \<Rightarrow> string \<Rightarrow> string" where
  "path_join root p =
     (if p \<noteq> [] \<and> List.hd p = CHR ''/'' then p
      else if root = [] \<or> last root = CHR ''/'' then root @ p
      else root @ ''/'' @ p)"

section \<open>The store\<close>

record lease_serializer =
  ls_to_string :: "host_lease \<Rightarrow> string result"
  ls_from_slice :: "string \<Rightarrow> host_lease result"

definition path_for :: "string \<Rightarrow> host_id \<Rightarrow> string" where
  "path_for root ident = path_join root (host_str ident @ ''.json'')"

definition local_store_new :: "string \<Rightarrow> disk \<Rightarrow> string result" where
  "local_store_new root d = (case disk_mkdir_fault d root of Some e \<Rightarrow> Inl e | None \<Rightarrow> Inr root)"

definition local_load :: "lease_serializer \<Rightarrow> string \<Rightarrow> host_id \<Rightarrow> disk \<Rightarrow> host_lease option result" where
  "local_load ser root ident d =
     and_then (fs_read (path_for root ident) d) (\<lambda>body.
     case body of
       None \<Rightarrow> Inr None
     | Some bytes \<Rightarrow> and_then (ls_from_slice ser bytes) (\<lambda>lease. Inr (Some lease)))"

definition local_register ::
    "lease_serializer \<Rightarrow> string \<Rightarrow> u64 result \<Rightarrow> host_lease_request \<Rightarrow> disk \<Rightarrow> host_lease result \<times> disk" where
  "local_register ser root clock request d =
     (case and_then (validate_duration request) (\<lambda>_.
           and_then clock (\<lambda>now_ms.
           and_then (local_load ser root (lreq_id request) d) (\<lambda>current.
           and_then (case current of
                       None \<Rightarrow> Inr ()
                     | Some lease \<Rightarrow> ensure (lease_session_id lease = lreq_session_id request \<or> lease_expires_at_ms lease \<le> now_ms)
                         ''host lease is held by a different active session'') (\<lambda>_.
           and_then (ok_or (checked_add now_ms (lreq_duration_ms request)) ''host lease expiration overflow'') (\<lambda>expires_at_ms.
           (let lease = \<lparr>lease_id = lreq_id request, lease_session_id = lreq_session_id request,
                  lease_route = lreq_route request, lease_expires_at_ms = expires_at_ms\<rparr>
            in and_then (ls_to_string ser lease) (\<lambda>body.
               and_then (case disk_mkdir_fault d (path_for root (lreq_id request)) of None \<Rightarrow> Inr () | Some e \<Rightarrow> Inl e) (\<lambda>_.
               Inr (lease, body))))))))) of
        Inl e \<Rightarrow> (Inl e, d)
      | Inr (lease, body) \<Rightarrow>
          (case fs_write (path_for root (lease_id lease)) body d of
             (r, d') \<Rightarrow> (and_then r (\<lambda>_. Inr lease), d')))"

definition local_unregister :: "lease_serializer \<Rightarrow> string \<Rightarrow> host_id \<Rightarrow> string \<Rightarrow> disk \<Rightarrow> unit result \<times> disk" where
  "local_unregister ser root ident session_id d =
     (case local_load ser root ident d of
        Inl e \<Rightarrow> (Inl e, d)
      | Inr None \<Rightarrow> (Inr (), d)
      | Inr (Some lease) \<Rightarrow>
          if lease_session_id lease \<noteq> session_id then (Inr (), d)
          else (case disk_remove_fault d (path_for root ident) of
                  Some e \<Rightarrow> (Inl e, d)
                | None \<Rightarrow> (Inr (), d\<lparr>disk_files := (disk_files d)(path_for root ident := None)\<rparr>)))"

definition local_lease_status :: "lease_serializer \<Rightarrow> string \<Rightarrow> u64 result \<Rightarrow> host_id \<Rightarrow> disk \<Rightarrow> host_lease_status result" where
  "local_lease_status ser root clock ident d =
     and_then (local_load ser root ident d) (\<lambda>lease.
     and_then clock (\<lambda>now_ms.
     Inr \<lparr>status_lease = lease, status_store_now_ms = now_ms\<rparr>))"


section \<open>The same answers as PostgreSQL\<close>

text \<open>Host ids that name a file of the root directory itself.\<close>

definition plain_id :: "host_id \<Rightarrow> bool" where
  "plain_id ident \<longleftrightarrow> CHR ''/'' \<notin> set (host_str ident)"

definition lease_of_row :: "host_id \<Rightarrow> lease_row \<Rightarrow> host_lease" where
  "lease_of_row ident row = \<lparr>lease_id = ident, lease_session_id = lr_session_id row, lease_route = lr_route row,
     lease_expires_at_ms = word_of_int (lr_expires_at_ms row)\<rparr>"

definition disk_sound :: "disk \<Rightarrow> bool" where
  "disk_sound d \<longleftrightarrow> (\<forall>p. disk_read_fault d p = None \<and> disk_mkdir_fault d p = None \<and> disk_write_fault d p = None \<and> disk_remove_fault d p = None)"

definition serializer_faithful :: "lease_serializer \<Rightarrow> bool" where
  "serializer_faithful ser \<longleftrightarrow> (\<forall>l. \<exists>body. ls_to_string ser l = Inr body \<and> ls_from_slice ser body = Inr l)"

definition same_leases :: "lease_serializer \<Rightarrow> string \<Rightarrow> disk \<Rightarrow> database \<Rightarrow> bool" where
  "same_leases ser root d db \<longleftrightarrow>
     (\<forall>h. plain_id h \<longrightarrow>
        (case disk_files d (path_for root h) of
           None \<Rightarrow> db_leases db (host_str h) = None
         | Some body \<Rightarrow> (\<exists>row. db_leases db (host_str h) = Some row \<and> ls_from_slice ser body = Inr (lease_of_row h row))))"

lemma path_for_eq [simp]:
  assumes "plain_id h" "plain_id h'"
  shows "path_for root h = path_for root h' \<longleftrightarrow> h = h'"
proof -
  have "List.hd (host_str i @ ''.json'') \<noteq> CHR ''/''" if "plain_id i" for i
    using that by (cases "host_str i") (auto simp: plain_id_def)
  with assms show ?thesis by (auto simp: path_for_def path_join_def host_id.expand)
qed

lemma local_load_same:
  assumes "disk_sound d" "same_leases ser root d db" "plain_id h"
  shows "local_load ser root h d = Inr (map_option (lease_of_row h) (db_leases db (host_str h)))"
proof -
  have "case disk_files d (path_for root h) of
      None \<Rightarrow> db_leases db (host_str h) = None
    | Some body \<Rightarrow> (\<exists>row. db_leases db (host_str h) = Some row \<and> ls_from_slice ser body = Inr (lease_of_row h row))"
    using assms(2,3) unfolding same_leases_def by blast
  then show ?thesis using assms(1)
    by (cases "disk_files d (path_for root h)") (auto simp: local_load_def fs_read_def disk_sound_def)
qed

lemma same_leases_write:
  assumes "same_leases ser root d db" "plain_id h" "ls_from_slice ser body = Inr (lease_of_row h row)"
  shows "same_leases ser root (d\<lparr>disk_files := (disk_files d)(path_for root h \<mapsto> body)\<rparr>)
    (db\<lparr>db_leases := (db_leases db)(host_str h \<mapsto> row)\<rparr>)"
  using assms by (auto simp: same_leases_def host_id.expand split: option.splits)

lemma same_leases_delete:
  assumes "same_leases ser root d db" "plain_id h"
  shows "same_leases ser root (d\<lparr>disk_files := (disk_files d)(path_for root h := None)\<rparr>)
    (db\<lparr>db_leases := (db_leases db)(host_str h := None)\<rparr>)"
  using assms by (auto simp: same_leases_def host_id.expand split: option.splits)

text \<open>One operation at a time of both clocks, within the range of the PostgreSQL timestamps.\<close>

fun timed :: "lease_op \<Rightarrow> bool" where
  "timed (RegisterOp nv ng request) \<longleftrightarrow> ng = nv \<and> 0 \<le> nv \<and> nv + 60000 \<le> i64_max"
| "timed (UnregisterOp ident session) \<longleftrightarrow> True"

fun local_apply :: "lease_serializer \<Rightarrow> string \<Rightarrow> lease_op \<Rightarrow> disk \<Rightarrow> host_lease option result \<times> disk" where
  "local_apply ser root (RegisterOp nv ng request) d =
     (case local_register ser root (Inr (word_of_int nv)) request d of (r, d') \<Rightarrow> (and_then r (\<lambda>l. Inr (Some l)), d'))"
| "local_apply ser root (UnregisterOp ident session) d =
     (case local_unregister ser root ident session d of (r, d') \<Rightarrow> (and_then r (\<lambda>_. Inr None), d'))"

fun pg_apply :: "lease_op \<Rightarrow> database \<Rightarrow> host_lease option result \<times> database" where
  "pg_apply (RegisterOp nv ng request) db = (case register nv ng request db of (r, db') \<Rightarrow> (and_then r (\<lambda>l. Inr (Some l)), db'))"
| "pg_apply (UnregisterOp ident session) db = (case unregister ident session db of (r, db') \<Rightarrow> (and_then r (\<lambda>_. Inr None), db'))"

fun run_ops :: "('o \<Rightarrow> 's \<Rightarrow> 'r \<times> 's) \<Rightarrow> 'o list \<Rightarrow> 's \<Rightarrow> 'r list \<times> 's" where
  "run_ops step [] s = ([], s)"
| "run_ops step (x # xs) s = (case step x s of (r, s1) \<Rightarrow> case run_ops step xs s1 of (rs, s2) \<Rightarrow> (r # rs, s2))"

lemma expiry_sum:
  assumes "0 \<le> nv" "nv + 60000 \<le> i64_max" "dur \<le> (60000 :: u64)"
  shows "checked_add (word_of_int nv) dur = Some (word_of_int (nv + uint dur))"
proof -
  have dur: "uint dur \<le> 60000" using assms(3) by (simp add: word_le_def)
  have now: "uint (word_of_int nv :: u64) = nv" using assms by (intro uint_word_of_i64) (auto simp: i64_ok_def)
  have "unat (word_of_int nv :: u64) = nat nv" using now by (simp add: unat_eq_nat_uint)
  moreover have "unat dur \<le> 60000" using assms(3) by (simp add: word_le_nat_alt)
  moreover have "nat nv \<le> 9223372036854715807" using assms(2) by simp
  ultimately have "unat (word_of_int nv :: u64) + unat dur < 2 ^ 64" by simp
  moreover have "(word_of_int nv :: u64) + dur = word_of_int (nv + uint dur)"
    by (simp add: wi_hom_add [symmetric])
  ultimately show ?thesis by (simp add: checked_add_def)
qed

lemma local_register_same:
  assumes d: "disk_sound d" "same_leases ser root d db" and db: "db_ok db" and ser: "serializer_faithful ser"
    and h: "plain_id (lreq_id request)" and time: "0 \<le> nv" "nv + 60000 \<le> i64_max"
    and loc: "local_register ser root (Inr (word_of_int nv)) request d = (r, d')" and pg: "register nv nv request db = (r', db')"
  shows "r = r' \<and> disk_sound d' \<and> same_leases ser root d' db'"
proof (cases "validate_duration request")
  case (Inl e)
  with d loc pg show ?thesis by (simp add: local_register_def register_def)
next
  case (Inr u)
  have dur: "0 < uint (lreq_duration_ms request)" "lreq_duration_ms request \<le> 60000"
    using Inr duration_bounds by (auto simp: validate_duration_def and_then_eq_Inr split: if_splits)
  have bound: "uint (lreq_duration_ms request) \<le> 60000" using dur(2) by (simp add: word_le_def)
  let ?row = "\<lparr>lr_session_id = lreq_session_id request, lr_route = lreq_route request, lr_expires_at_ms = nv + uint (lreq_duration_ms request)\<rparr>"
  let ?lease = "lease_of_row (lreq_id request) ?row"
  obtain body where body: "ls_to_string ser ?lease = Inr body" "ls_from_slice ser body = Inr ?lease"
    using ser by (auto simp: serializer_faithful_def)
  have held: "lease_expires_at_ms (lease_of_row h row) \<le> word_of_int nv \<longleftrightarrow> lr_expires_at_ms row \<le> nv"
    if "db_leases db (host_str (lreq_id request)) = Some row" for h row
    using db_ok_lease [OF db that] time by (simp add: lease_of_row_def word_le_def uint_word_of_i64 lease_row_ok_def i64_ok_def)
  note defs = local_register_def register_def register_statement_def fs_write_def Let_def
  note facts = Inr local_load_same [OF d h] expiry_sum [OF time dur(2)] d(1) body dur bound time
  show ?thesis
  proof (cases "\<exists>row. db_leases db (host_str (lreq_id request)) = Some row \<and> lr_session_id row \<noteq> lreq_session_id request \<and> nv < lr_expires_at_ms row")
    case True
    then obtain row where row: "db_leases db (host_str (lreq_id request)) = Some row"
      and taken: "\<not> (lr_session_id row = lreq_session_id request \<or> lr_expires_at_ms row \<le> nv)" by auto
    have "r = Inl (Bail ''host lease is held by a different active session'') \<and> d' = d"
      using loc facts row taken held [OF row] by (simp add: defs lease_of_row_def)
    moreover have "r' = Inl (Bail ''host lease is held by a different active session'') \<and> db' = db"
      using pg facts row taken by (simp add: defs bigint_add_def check_constraint_def i64_ok_def with_context_def)
    ultimately show ?thesis using d by simp
  next
    case False
    then have free: "lr_session_id row = lreq_session_id request \<or> lr_expires_at_ms row \<le> nv"
      if "db_leases db (host_str (lreq_id request)) = Some row" for row using that by auto
    have "r = Inr ?lease \<and> d' = d\<lparr>disk_files := (disk_files d)(path_for root (lreq_id request) \<mapsto> body)\<rparr>"
      using loc facts free held
      by (cases "db_leases db (host_str (lreq_id request))") (simp_all add: defs disk_sound_def lease_of_row_def)
    moreover have "r' = Inr ?lease \<and> db' = db\<lparr>db_leases := (db_leases db)(host_str (lreq_id request) \<mapsto> ?row)\<rparr>"
      using pg facts free by (cases "db_leases db (host_str (lreq_id request))")
        (simp_all add: defs lease_of_row_def bigint_add_def check_constraint_def i64_ok_def u64_of_i64_def)
    ultimately show ?thesis using same_leases_write [OF d(2) h body(2)] d(1) by (simp add: disk_sound_def)
  qed
qed

lemma local_unregister_same:
  assumes d: "disk_sound d" "same_leases ser root d db" and h: "plain_id ident"
    and loc: "local_unregister ser root ident session d = (r, d')" and pg: "unregister ident session db = (r', db')"
  shows "r = r' \<and> disk_sound d' \<and> same_leases ser root d' db'"
  using loc pg local_load_same [OF d h] same_leases_delete [OF d(2) h] d
  by (auto simp: local_unregister_def unregister_def disk_sound_def lease_of_row_def split: option.splits if_splits)


lemma local_apply_same:
  assumes "disk_sound d" "same_leases ser root d db" "db_ok db" "serializer_faithful ser" "plain_id (op_target x)" "timed x"
    and loc: "local_apply ser root x d = (r, d')" and pg: "pg_apply x db = (r', db')"
  shows "r = r' \<and> disk_sound d' \<and> same_leases ser root d' db' \<and> db_ok db'"
proof (cases x)
  case (RegisterOp nv ng request)
  then obtain q q' where "local_register ser root (Inr (word_of_int nv)) request d = (q, d')" "register nv nv request db = (q', db')"
    and r: "r = and_then q (\<lambda>l. Inr (Some l))" "r' = and_then q' (\<lambda>l. Inr (Some l))"
    using loc pg assms(6) by (auto split: prod.splits)
  with RegisterOp assms(5,6) local_register_same [OF assms(1-4), of request nv q d' q' db'] register_db_ok [OF assms(3), of nv nv request]
  show ?thesis by simp
next
  case (UnregisterOp ident session)
  then obtain q q' where "local_unregister ser root ident session d = (q, d')" "unregister ident session db = (q', db')"
    and r: "r = and_then q (\<lambda>_. Inr None)" "r' = and_then q' (\<lambda>_. Inr None)"
    using loc pg by (auto split: prod.splits)
  with UnregisterOp assms(5) local_unregister_same [OF assms(1,2), of ident session q d' q' db'] unregister_db_ok [OF assms(3), of ident session]
  show ?thesis by simp
qed

lemma local_status_same:
  assumes "disk_sound d" "same_leases ser root d db" "db_ok db" "plain_id h" "0 \<le> now"
  shows "local_lease_status ser root (Inr (word_of_int now)) h d = lease_status now h db"
proof -
  have "u64_of_i64 (lr_expires_at_ms row) = Some (word_of_int (lr_expires_at_ms row))" if "db_leases db (host_str h) = Some row" for row
    using db_ok_lease [OF assms(3) that] by (simp add: u64_of_i64_def lease_row_ok_def)
  with local_load_same [OF assms(1,2,4)] assms(5) show ?thesis
    by (cases "db_leases db (host_str h)") (simp_all add: local_lease_status_def lease_status_def lease_of_row_def u64_of_i64_def)
qed

text \<open>
  Claim C27. The stand-in for the PostgreSQL lease store is one: on a disk without faults, from the same leases, every
  sequence of registrations and unregistrations by hosts whose ids are plain file names gets the same answers, lease for lease
  and refusal for refusal, from the local store as from PostgreSQL at the same times, and afterwards both report the same
  status of every such host.
\<close>

theorem local_store_equivalent:
  assumes "disk_sound d" "same_leases ser root d db" "db_ok db" "serializer_faithful ser"
    and "list_all (\<lambda>x. plain_id (op_target x) \<and> timed x) ops"
    and "run_ops (local_apply ser root) ops d = (answers, d')" "run_ops pg_apply ops db = (answers', db')"
  shows "answers = answers' \<and> (\<forall>h now. plain_id h \<longrightarrow> 0 \<le> now \<longrightarrow>
    local_lease_status ser root (Inr (word_of_int now)) h d' = lease_status now h db')"
  using assms
proof (induction ops arbitrary: d db answers answers')
  case Nil
  then show ?case by (auto intro: local_status_same)
next
  case (Cons x xs)
  obtain r d1 where loc: "local_apply ser root x d = (r, d1)" by (rule prod.exhaust)
  obtain r' db1 where pg: "pg_apply x db = (r', db1)" by (rule prod.exhaust)
  obtain rs where rs: "run_ops (local_apply ser root) xs d1 = (rs, d')" "answers = r # rs"
    using Cons.prems(6) loc by (auto split: prod.splits)
  obtain rs' where rs': "run_ops pg_apply xs db1 = (rs', db')" "answers' = r' # rs'"
    using Cons.prems(7) pg by (auto split: prod.splits)
  have "r = r' \<and> disk_sound d1 \<and> same_leases ser root d1 db1 \<and> db_ok db1"
    using local_apply_same [OF Cons.prems(1-4) _ _ loc pg] Cons.prems(5) by simp
  with Cons.IH [OF _ _ _ Cons.prems(4) _ rs(1) rs'(1)] Cons.prems(5) rs(2) rs'(2) show ?case by simp
qed

definition empty_disk :: disk where
  "empty_disk = \<lparr>disk_files = Map.empty, disk_read_fault = (\<lambda>_. None), disk_mkdir_fault = (\<lambda>_. None),
     disk_write_fault = (\<lambda>_. None), disk_remove_fault = (\<lambda>_. None)\<rparr>"


text \<open>A serializer that writes a lease as its fields, the expiration in unary, for the concrete case.\<close>

definition field :: "string \<Rightarrow> string" where
  "field s = replicate (length s) CHR ''x'' @ ''.'' @ s"

definition unfield :: "string \<Rightarrow> string \<times> string" where
  "unfield t = (let n = length (takeWhile (\<lambda>c. c = CHR ''x'') t) in (take n (drop (Suc n) t), drop (Suc n + n) t))"

definition sample_serializer :: lease_serializer where
  "sample_serializer =
     \<lparr>ls_to_string = (\<lambda>l. Inr (field (host_str (lease_id l)) @ field (lease_session_id l) @ field (lease_route l) @
        replicate (unat (lease_expires_at_ms l)) CHR ''x'')),
      ls_from_slice = (\<lambda>t. case unfield t of (ident, t1) \<Rightarrow> case unfield t1 of (session, t2) \<Rightarrow> case unfield t2 of (route, t3) \<Rightarrow>
        Inr \<lparr>lease_id = HostId ident, lease_session_id = session, lease_route = route, lease_expires_at_ms = word_of_nat (length t3)\<rparr>)\<rparr>"

lemma unfield_field [simp]: "unfield (field s @ rest) = (s, rest)"
proof -
  have "takeWhile (\<lambda>c. c = CHR ''x'') (field s @ rest) = replicate (length s) CHR ''x''"
    by (simp add: field_def takeWhile_append)
  then show ?thesis by (simp add: unfield_def field_def)
qed

lemma sample_serializer_faithful: "serializer_faithful sample_serializer"
  unfolding serializer_faithful_def
proof
  fix l :: host_lease
  show "\<exists>body. ls_to_string sample_serializer l = Inr body \<and> ls_from_slice sample_serializer body = Inr l"
    by (cases l) (simp add: sample_serializer_def)
qed

theorem local_store_equivalent_witness:
  "fst (run_ops (local_apply sample_serializer ''/leases'')
     [RegisterOp 1000 1000 (sample_request ''s1''), RegisterOp 2000 2000 (sample_request ''s2''), UnregisterOp (HostId ''host-a'') ''s1''] empty_disk) =
   [Inr (Some \<lparr>lease_id = HostId ''host-a'', lease_session_id = ''s1'', lease_route = ''https://a'', lease_expires_at_ms = 31000\<rparr>),
    Inl (Bail ''host lease is held by a different active session''), Inr None]"
proof -
  let ?ops = "[RegisterOp 1000 1000 (sample_request ''s1''), RegisterOp 2000 2000 (sample_request ''s2''), UnregisterOp (HostId ''host-a'') ''s1'']"
  have start: "disk_sound empty_disk" "same_leases sample_serializer ''/leases'' empty_disk empty_database"
    by (simp_all add: disk_sound_def same_leases_def empty_disk_def empty_database_def)
  have ops: "list_all (\<lambda>x. plain_id (op_target x) \<and> timed x) ?ops" by (simp add: sample_request_def plain_id_def)
  have "fst (run_ops pg_apply ?ops empty_database) =
     [Inr (Some \<lparr>lease_id = HostId ''host-a'', lease_session_id = ''s1'', lease_route = ''https://a'', lease_expires_at_ms = 31000\<rparr>),
      Inl (Bail ''host lease is held by a different active session''), Inr None]"
    by (simp add: sample_request_def register_def register_statement_def validate_duration_def u64_of_i64_def with_context_def
      i64_ok_def empty_database_def bigint_add_def check_constraint_def word_less_def word_le_def unregister_def)
  with local_store_equivalent [OF start db_ok_empty sample_serializer_faithful ops surjective_pairing surjective_pairing] show ?thesis by simp
qed


end
