(* ===== verification/Lease_Maintenance.thy ===== *)
theory Lease_Maintenance
  imports Host_Leases
begin

text \<open>
  The host's lease renewal (\<^verbatim>\<open>src/host/lease_maintenance.rs\<close>, \<^verbatim>\<open>src/clock.rs\<close>). Instants are
  nanoseconds of the host's monotonic clock; the wall clock the process reads is that clock moved by a
  constant and cut to milliseconds, the store's clock likewise. One poll of the renewal task is a
  function of the instant it happens at; a step relation interleaves polls with the store and with
  other sessions. The lemmas show when the process fences itself, and by how much its window can outlive the
  lease.
\<close>

abbreviation ms_ns :: int where "ms_ns \<equiv> 1000000"

section \<open>The clock\<close>

text \<open>The anchor pairs a wall-clock time, in nanoseconds since 1970, with an instant.\<close>

definition now_ms :: "int \<times> int \<Rightarrow> int \<Rightarrow> u64 result" where
  "now_ms anchor instant =
     (case anchor of (wall, monotonic) \<Rightarrow>
        (let now = wall + max 0 (instant - monotonic)
         in if now < 0 then Inl (Bail ''second time provided was later than self'')
            else if now div ms_ns < 2 ^ 64 then Inr (word_of_int (now div ms_ns))
            else Inl (Bail ''out of range integral type conversion attempted'')))"

section \<open>The maintainer\<close>

record lease_maintainer =
  lm_endpoint :: host_endpoint
  lm_session_id :: string
  lm_lease_duration_ms :: u64
  lm_renew_every :: int

text \<open>Durations are nanoseconds.\<close>

definition maintainer_new :: "host_endpoint \<Rightarrow> string \<Rightarrow> int \<Rightarrow> int \<Rightarrow> lease_maintainer result" where
  "maintainer_new endpoint session_id lease_duration renew_every =
     and_then (if lease_duration div ms_ns < 2 ^ 64 then Inr (word_of_int (lease_duration div ms_ns))
               else Inl (Bail ''out of range integral type conversion attempted'')) (\<lambda>lease_duration_ms :: u64.
     and_then (ensure (lease_duration_ms > 0) ''host lease duration must be positive'') (\<lambda>_.
     and_then (ensure (renew_every \<noteq> 0) ''host lease renewal interval must be positive'') (\<lambda>_.
     and_then (ensure (renew_every < lease_duration) ''host lease renewal interval must be shorter than its duration'') (\<lambda>_.
     and_then (ensure (session_id \<noteq> []) ''host session ID must not be empty'') (\<lambda>_.
     Inr \<lparr>lm_endpoint = endpoint, lm_session_id = session_id, lm_lease_duration_ms = lease_duration_ms,
          lm_renew_every = renew_every\<rparr>)))))"

text \<open>
  \<^verbatim>\<open>renew_once_with_deadline\<close> in its two halves: before the request leaves, at the first reading of the
  clock, and after the store's answer, at the anchor and the second reading.
\<close>

definition renew_request :: "lease_maintainer \<Rightarrow> host_lease_request" where
  "renew_request m = \<lparr>lreq_id = endpoint_id (lm_endpoint m), lreq_session_id = lm_session_id m,
     lreq_route = endpoint_route (lm_endpoint m), lreq_duration_ms = lm_lease_duration_ms m\<rparr>"

definition renew_begin :: "lease_maintainer \<Rightarrow> u64 result \<Rightarrow> u64 result" where
  "renew_begin m local_now =
     and_then local_now (\<lambda>local_now_ms.
     ok_or (checked_add local_now_ms (lm_lease_duration_ms m)) ''host lease expiration overflow'')"

definition instant_add :: "int \<Rightarrow> u64 \<Rightarrow> int option" where
  "instant_add anchor ms =
     (if anchor + uint ms * ms_ns < 2 ^ 63 * 1000000000 then Some (anchor + uint ms * ms_ns) else None)"

definition renew_finish :: "u64 \<Rightarrow> host_lease result \<Rightarrow> int \<Rightarrow> u64 result \<Rightarrow> (host_lease \<times> int) result" where
  "renew_finish local_valid_until_ms registered deadline_anchor now =
     and_then registered (\<lambda>lease.
     and_then now (\<lambda>now_ms.
     (let remaining_ms = saturating_sub local_valid_until_ms now_ms in
      and_then (ensure (remaining_ms > 0) ''host lease expired before its registration response arrived'') (\<lambda>_.
      and_then (ok_or (instant_add deadline_anchor remaining_ms) ''local host lease deadline overflow'') (\<lambda>local_deadline.
      Inr (lease, local_deadline))))))"

definition renew_once_with_deadline ::
    "lease_maintainer \<Rightarrow> u64 result \<Rightarrow> host_lease result \<Rightarrow> int \<Rightarrow> u64 result \<Rightarrow> (host_lease \<times> int) result" where
  "renew_once_with_deadline m local_now registered deadline_anchor now =
     and_then (renew_begin m local_now) (\<lambda>local_valid_until_ms.
     renew_finish local_valid_until_ms registered deadline_anchor now)"

section \<open>The renewal task\<close>

text \<open>
  The task sleeps since an instant, or waits for a renewal: its window's end, and the store's answer once
  it has arrived. A poll tries the branches of the \<^verbatim>\<open>select!\<close> in their order.
\<close>

datatype renewal_phase =
    Sleeping int
  | Renewing "u64 result" "host_lease result option"
  | Stopped

record renewal_task =
  rt_phase :: renewal_phase
  rt_deadline :: int
  rt_shutdown :: bool
  rt_lease_lost :: bool
  rt_failures :: u64

definition renewal_start :: "(host_lease \<times> int) result \<Rightarrow> int \<Rightarrow> renewal_task result" where
  "renewal_start initial instant =
     and_then initial (\<lambda>(lease, local_deadline).
     Inr \<lparr>rt_phase = Sleeping instant, rt_deadline = local_deadline, rt_shutdown = False, rt_lease_lost = False, rt_failures = 0\<rparr>)"

definition lose_lease :: "renewal_task \<Rightarrow> renewal_task" where
  "lose_lease task = task\<lparr>rt_phase := Stopped, rt_lease_lost := True\<rparr>"

definition wait_until_renewal :: "lease_maintainer \<Rightarrow> u64 result \<Rightarrow> int \<Rightarrow> int \<Rightarrow> renewal_task \<Rightarrow> renewal_task" where
  "wait_until_renewal m clock instant since task =
     (if rt_shutdown task then task\<lparr>rt_phase := Stopped\<rparr>
      else if rt_deadline task \<le> instant then lose_lease task
      else if since + lm_renew_every m \<le> instant then task\<lparr>rt_phase := Renewing (renew_begin m clock) None\<rparr>
      else task)"

text \<open>The renewal's own result: none while the answer is outstanding. A registration resets the failure count.\<close>

definition renewal_result :: "u64 result \<Rightarrow> host_lease result option \<Rightarrow> int \<Rightarrow> u64 result \<Rightarrow> (host_lease \<times> int) result option" where
  "renewal_result begun response instant clock =
     (case begun of
        Inl e \<Rightarrow> Some (Inl e)
      | Inr valid_until \<Rightarrow> map_option (\<lambda>registered. renew_finish valid_until registered instant clock) response)"

definition registered_ok :: "u64 result \<Rightarrow> host_lease result option \<Rightarrow> bool" where
  "registered_ok begun response \<longleftrightarrow> is_ok begun \<and> (\<exists>lease. response = Some (Inr lease))"

definition renew_before_deadline ::
    "u64 result \<Rightarrow> int \<Rightarrow> u64 result \<Rightarrow> host_lease result option \<Rightarrow> renewal_task \<Rightarrow> renewal_task" where
  "renew_before_deadline clock instant begun response task =
     (if rt_shutdown task then task\<lparr>rt_phase := Stopped\<rparr>
      else if rt_deadline task \<le> instant then lose_lease task
      else let failures = (if registered_ok begun response then 0 else rt_failures task) in
        (case renewal_result begun response instant clock of
           None \<Rightarrow> task
         | Some (Inr (lease, local_deadline)) \<Rightarrow> task\<lparr>rt_phase := Sleeping instant, rt_deadline := local_deadline, rt_failures := failures\<rparr>
         | Some (Inl e) \<Rightarrow> task\<lparr>rt_phase := Sleeping instant, rt_failures := saturating_add failures 1\<rparr>))"

definition poll_renewal :: "lease_maintainer \<Rightarrow> u64 result \<Rightarrow> int \<Rightarrow> renewal_task \<Rightarrow> renewal_task" where
  "poll_renewal m clock instant task =
     (case rt_phase task of
        Sleeping since \<Rightarrow> wait_until_renewal m clock instant since task
      | Renewing begun response \<Rightarrow> renew_before_deadline clock instant begun response task
      | Stopped \<Rightarrow> task)"

text \<open>
  \<^verbatim>\<open>shutdown\<close> cancels the task; \<open>joined\<close> is how it ended within the timeout, if it did.
\<close>

definition shutdown_renewal :: "unit result option \<Rightarrow> renewal_task \<Rightarrow> unit result \<times> renewal_task" where
  "shutdown_renewal joined task =
     (case joined of
        Some r \<Rightarrow> (r, task\<lparr>rt_shutdown := True\<rparr>)
      | None \<Rightarrow> (Inl (Bail ''host lease renewal did not stop within 2000ms''), task\<lparr>rt_shutdown := True, rt_phase := Stopped\<rparr>))"

definition unregister_lease_of :: "(host_id \<Rightarrow> string \<Rightarrow> 's \<Rightarrow> unit result \<times> 's) \<Rightarrow> lease_maintainer \<Rightarrow> 's \<Rightarrow> unit result \<times> 's" where
  "unregister_lease_of unreg m s = unreg (endpoint_id (lm_endpoint m)) (lm_session_id m) s"

section \<open>The window of a confirmed lease\<close>

text \<open>The store's clock at an instant: a constant away from the host's, in whole milliseconds.\<close>

definition store_ms :: "int \<Rightarrow> int \<Rightarrow> int" where
  "store_ms offset instant = (instant + offset) div ms_ns"

lemma store_ms_mono: "s \<le> t \<Longrightarrow> store_ms offset s \<le> store_ms offset t"
  by (simp add: store_ms_def zdiv_mono1)

lemma store_ms_later: "store_ms offset (t + n * ms_ns) = store_ms offset t + n"
  using div_mult_self1 [of ms_ns "t + offset" n] by (simp add: store_ms_def algebra_simps)

lemma window_arith:
  fixes u :: int
  assumes "u < anchor + ((t1 + c) div ms_ns + d - (t4 + c) div ms_ns) * ms_ns" "t1 \<le> t2" "anchor \<le> t4"
  shows "store_ms offset u \<le> store_ms offset t2 + d + 1"
proof -
  have "(t1 + c) div ms_ns * ms_ns \<le> t1 + c" "t4 + c < (t4 + c) div ms_ns * ms_ns + ms_ns"
    using div_mult_mod_eq [of "t1 + c" ms_ns] div_mult_mod_eq [of "t4 + c" ms_ns]
      pos_mod_bound [of ms_ns "t4 + c"] pos_mod_sign [of ms_ns "t1 + c"] by linarith+
  with assms have "u \<le> t2 + (d + 1) * ms_ns" by (simp add: algebra_simps)
  then have "store_ms offset u \<le> store_ms offset (t2 + (d + 1) * ms_ns)" by (rule store_ms_mono)
  then show ?thesis by (simp only: store_ms_later)
qed

lemma now_ms_Inr:
  "now_ms (wall, monotonic) t = Inr a \<Longrightarrow> monotonic \<le> t \<Longrightarrow> uint a = (t + (wall - monotonic)) div ms_ns"
  by (auto simp: now_ms_def Let_def uint_word_of_int take_bit_int_eq_self_iff algebra_simps split: if_splits)

text \<open>
  A confirmed deadline and the expiry the store stamped: the window of the host ends before the lease,
  but for the two truncations to milliseconds.
\<close>

lemma confirmed_window:
  assumes begun: "renew_begin m (now_ms (wall, monotonic) t1) = Inr valid_until"
    and finished: "renew_finish valid_until registered anchor (now_ms (wall, monotonic) t4) = Inr (lease, deadline)"
    and order: "monotonic \<le> t1" "t1 \<le> t2" "t2 \<le> anchor" "anchor \<le> t4" and u: "u < deadline"
  shows "store_ms offset u \<le> store_ms offset t2 + uint (lm_lease_duration_ms m) + 1"
proof -
  obtain a where a: "now_ms (wall, monotonic) t1 = Inr a" "checked_add a (lm_lease_duration_ms m) = Some valid_until"
    using begun by (auto simp: renew_begin_def result_simps)
  obtain b where b: "now_ms (wall, monotonic) t4 = Inr b" "instant_add anchor (saturating_sub valid_until b) = Some deadline"
      "saturating_sub valid_until b > 0"
    using finished by (auto simp: renew_finish_def result_simps Let_def split: if_splits)
  have vu: "uint valid_until = uint a + uint (lm_lease_duration_ms m)"
    using checked_add_Some [OF a(2)] by (simp only: uint_nat of_nat_add)
  have "uint (saturating_sub valid_until b) = uint valid_until - uint b"
    using b(3) uint_minus_simple_alt [of b valid_until] by (auto simp: saturating_sub_def not_less split: if_splits)
  then have "deadline = anchor + (uint a + uint (lm_lease_duration_ms m) - uint b) * ms_ns"
    using b(2) vu by (auto simp: instant_add_def split: if_splits)
  moreover have "uint a = (t1 + (wall - monotonic)) div ms_ns" "uint b = (t4 + (wall - monotonic)) div ms_ns"
    using now_ms_Inr [OF a(1)] now_ms_Inr [OF b(1)] order by auto
  ultimately have "u < anchor + ((t1 + (wall - monotonic)) div ms_ns + uint (lm_lease_duration_ms m) - (t4 + (wall - monotonic)) div ms_ns) * ms_ns"
    using u by metis
  then show ?thesis using order(2,4) by (rule window_arith)
qed

section \<open>The task against the store\<close>

text \<open>
  The whole: the current instant, the task, the store, the instant the running renewal read the clock at and
  the store's answer on its way. Requests of this session may be executed at any time, also late ones;
  answers may be lost; other sessions operate on the store at its clock.
\<close>

record 's fence =
  fe_time :: int
  fe_task :: renewal_task
  fe_store :: 's
  fe_started :: int
  fe_reply :: "host_lease result option"

fun op_until :: "i64 \<Rightarrow> lease_op \<Rightarrow> bool" where
  "op_until t (RegisterOp nv ng request) = (ng \<le> t)"
| "op_until t (UnregisterOp ident session) = True"

fun apply_lease_op ::
    "(i64 \<Rightarrow> i64 \<Rightarrow> host_lease_request \<Rightarrow> 's \<Rightarrow> host_lease result \<times> 's) \<Rightarrow> (host_id \<Rightarrow> string \<Rightarrow> 's \<Rightarrow> unit result \<times> 's)
     \<Rightarrow> lease_op \<Rightarrow> 's \<Rightarrow> 's" where
  "apply_lease_op reg unreg (RegisterOp nv ng request) s = snd (reg nv ng request s)"
| "apply_lease_op reg unreg (UnregisterOp ident session) s = snd (unreg ident session s)"

definition foreign_op :: "lease_maintainer \<Rightarrow> lease_op \<Rightarrow> bool" where
  "foreign_op m x \<longleftrightarrow> (op_target x = endpoint_id (lm_endpoint m) \<longrightarrow> op_by x \<noteq> lm_session_id m)"

definition is_sleeping :: "renewal_task \<Rightarrow> bool" where
  "is_sleeping task = (case rt_phase task of Sleeping _ \<Rightarrow> True | _ \<Rightarrow> False)"

inductive fence_step ::
    "(i64 \<Rightarrow> i64 \<Rightarrow> host_lease_request \<Rightarrow> 's \<Rightarrow> host_lease result \<times> 's) \<Rightarrow> (host_id \<Rightarrow> string \<Rightarrow> 's \<Rightarrow> unit result \<times> 's)
     \<Rightarrow> lease_maintainer \<Rightarrow> int \<times> int \<Rightarrow> int \<Rightarrow> 's fence \<Rightarrow> 's fence \<Rightarrow> bool"
  for reg unreg m anchor offset where
  tick: "fe_time x \<le> t \<Longrightarrow> fence_step reg unreg m anchor offset x (x\<lparr>fe_time := t\<rparr>)"
| poll: "fe_time x \<le> t \<Longrightarrow> fence_step reg unreg m anchor offset x
    (x\<lparr>fe_time := t, fe_task := poll_renewal m (now_ms anchor t) (fe_time x) (fe_task x),
       fe_started := (if is_sleeping (fe_task x) then t else fe_started x),
       fe_reply := (if is_sleeping (fe_task x) then None else fe_reply x)\<rparr>)"
| renews: "reg (store_ms offset (fe_time x)) (store_ms offset (fe_time x)) (renew_request m) (fe_store x) = (r, s') \<Longrightarrow>
    fence_step reg unreg m anchor offset x (x\<lparr>fe_store := s', fe_reply := Some r\<rparr>)"
| answers: "rt_phase (fe_task x) = Renewing begun None \<Longrightarrow> fe_reply x = Some r \<Longrightarrow>
    fence_step reg unreg m anchor offset x (x\<lparr>fe_task := (fe_task x)\<lparr>rt_phase := Renewing begun (Some r)\<rparr>\<rparr>)"
| fails: "rt_phase (fe_task x) = Renewing begun None \<Longrightarrow>
    fence_step reg unreg m anchor offset x (x\<lparr>fe_task := (fe_task x)\<lparr>rt_phase := Renewing begun (Some (Inl e))\<rparr>\<rparr>)"
| cancel: "fence_step reg unreg m anchor offset x (x\<lparr>fe_task := (fe_task x)\<lparr>rt_shutdown := True\<rparr>\<rparr>)"
| other: "foreign_op m y \<Longrightarrow> op_until (store_ms offset (fe_time x)) y \<Longrightarrow>
    fence_step reg unreg m anchor offset x (x\<lparr>fe_store := apply_lease_op reg unreg y (fe_store x)\<rparr>)"

text \<open>The process starts with a first registration, at \<open>t2\<close>, whose answer it reads at \<open>t3\<close>.\<close>

inductive fence_reachable ::
    "(i64 \<Rightarrow> i64 \<Rightarrow> host_lease_request \<Rightarrow> 's \<Rightarrow> host_lease result \<times> 's) \<Rightarrow> (host_id \<Rightarrow> string \<Rightarrow> 's \<Rightarrow> unit result \<times> 's)
     \<Rightarrow> lease_maintainer \<Rightarrow> int \<times> int \<Rightarrow> int \<Rightarrow> 's fence \<Rightarrow> bool"
  for reg unreg m anchor offset where
  init: "snd anchor \<le> t1 \<Longrightarrow> t1 \<le> t2 \<Longrightarrow> t2 \<le> t3 \<Longrightarrow> t3 \<le> t4 \<Longrightarrow>
    reg (store_ms offset t2) (store_ms offset t2) (renew_request m) s = (r, s') \<Longrightarrow>
    \<forall>y \<in> set ops. foreign_op m y \<and> op_until (store_ms offset t4) y \<Longrightarrow>
    renewal_start (renew_once_with_deadline m (now_ms anchor t1) r t3 (now_ms anchor t4)) t4 = Inr task \<Longrightarrow>
    fence_reachable reg unreg m anchor offset
      \<lparr>fe_time = t4, fe_task = task, fe_store = fold (apply_lease_op reg unreg) ops s', fe_started = t1, fe_reply = None\<rparr>"
| step: "fence_reachable reg unreg m anchor offset x \<Longrightarrow> fence_step reg unreg m anchor offset x y \<Longrightarrow>
    fence_reachable reg unreg m anchor offset y"

inductive_cases fence_stepE: "fence_step reg unreg m anchor offset x y"

text \<open>The session's lease is recorded until \<open>e\<close> at least, or \<open>e\<close> has passed at the store.\<close>

definition covered :: "('s \<Rightarrow> host_id \<Rightarrow> string \<Rightarrow> i64 \<Rightarrow> bool) \<Rightarrow> lease_maintainer \<Rightarrow> 's \<Rightarrow> i64 \<Rightarrow> i64 \<Rightarrow> bool" where
  "covered held m s t e \<longleftrightarrow> (\<exists>e' \<ge> e. held s (endpoint_id (lm_endpoint m)) (lm_session_id m) e') \<or> e \<le> t"

lemma covered_later: "covered held m s t e \<Longrightarrow> t \<le> t' \<Longrightarrow> covered held m s t' e"
  by (auto simp: covered_def)

text \<open>
  \<open>deadline_covered\<close>: the lease covers the deadline of the task. \<open>answer_covered\<close>: a granted answer of the
  running renewal was given after the renewal read the clock.
\<close>

definition deadline_covered ::
    "('s \<Rightarrow> host_id \<Rightarrow> string \<Rightarrow> i64 \<Rightarrow> bool) \<Rightarrow> lease_maintainer \<Rightarrow> int \<Rightarrow> 's \<Rightarrow> int \<Rightarrow> int \<Rightarrow> bool" where
  "deadline_covered held m offset s t deadline \<longleftrightarrow>
     (\<exists>e. covered held m s (store_ms offset t) e \<and> e \<le> store_ms offset t + uint (lm_lease_duration_ms m) \<and>
        (\<forall>u < deadline. store_ms offset u \<le> e + 1))"

definition answer_covered ::
    "('s \<Rightarrow> host_id \<Rightarrow> string \<Rightarrow> i64 \<Rightarrow> bool) \<Rightarrow> lease_maintainer \<Rightarrow> int \<Rightarrow> 's \<Rightarrow> int \<Rightarrow> int \<Rightarrow> bool" where
  "answer_covered held m offset s t started \<longleftrightarrow>
     (\<exists>t2. started \<le> t2 \<and> t2 \<le> t \<and> covered held m s (store_ms offset t) (store_ms offset t2 + uint (lm_lease_duration_ms m)))"

definition granted :: "host_lease result option \<Rightarrow> bool" where
  "granted r = (case r of Some (Inr _) \<Rightarrow> True | _ \<Rightarrow> False)"

definition fence_inv ::
    "('s \<Rightarrow> host_id \<Rightarrow> string \<Rightarrow> i64 \<Rightarrow> bool) \<Rightarrow> lease_maintainer \<Rightarrow> int \<times> int \<Rightarrow> int \<Rightarrow> 's fence \<Rightarrow> bool" where
  "fence_inv held m anchor offset x \<longleftrightarrow>
     snd anchor \<le> fe_time x \<and>
     (rt_phase (fe_task x) \<noteq> Stopped \<longrightarrow> deadline_covered held m offset (fe_store x) (fe_time x) (rt_deadline (fe_task x))) \<and>
     (\<forall>valid_until response. rt_phase (fe_task x) = Renewing (Inr valid_until) response \<longrightarrow>
       snd anchor \<le> fe_started x \<and> fe_started x \<le> fe_time x \<and>
       renew_begin m (now_ms anchor (fe_started x)) = Inr valid_until \<and>
       (granted (fe_reply x) \<or> granted response \<longrightarrow> answer_covered held m offset (fe_store x) (fe_time x) (fe_started x)))"

lemma deadline_covered_later: "deadline_covered held m offset s t d \<Longrightarrow> t \<le> t' \<Longrightarrow> deadline_covered held m offset s t' d"
  unfolding deadline_covered_def by (meson add_right_mono covered_later order_trans store_ms_mono)

lemma answer_covered_later: "answer_covered held m offset s t a \<Longrightarrow> t \<le> t' \<Longrightarrow> answer_covered held m offset s t' a"
  unfolding answer_covered_def by (meson covered_later order_trans store_ms_mono)

text \<open>An answer that covers, once it is confirmed, covers the new deadline.\<close>

lemma answer_covers_deadline:
  assumes "answer_covered held m offset s t1 started" "renew_begin m (now_ms anchor started) = Inr valid_until"
    and "renew_finish valid_until registered t1 (now_ms anchor t) = Inr (lease, deadline)"
    and "snd anchor \<le> started" "t1 \<le> t"
  shows "deadline_covered held m offset s t deadline"
proof -
  obtain t2 where t2: "started \<le> t2" "t2 \<le> t1"
    and cov: "covered held m s (store_ms offset t1) (store_ms offset t2 + uint (lm_lease_duration_ms m))"
    using assms(1) by (auto simp: answer_covered_def)
  have "\<forall>u < deadline. store_ms offset u \<le> store_ms offset t2 + uint (lm_lease_duration_ms m) + 1"
    using confirmed_window [of m "fst anchor" "snd anchor" started, simplified, OF assms(2,3)] assms t2 by auto
  moreover have "covered held m s (store_ms offset t) (store_ms offset t2 + uint (lm_lease_duration_ms m))"
    using cov assms(5) by (auto intro: covered_later store_ms_mono)
  moreover have "store_ms offset t2 \<le> store_ms offset t" using t2 assms(5) by (auto intro: store_ms_mono)
  ultimately show ?thesis by (auto simp: deadline_covered_def)
qed

context lease_registry
begin

lemma apply_lease_op_eq: "apply_lease_op reg unreg x s = apply_op x s"
  by (cases x) simp_all

lemma covered_foreign:
  assumes "covered held m s t e" "foreign_op m x" "op_until t x"
  shows "covered held m (apply_lease_op reg unreg x s) t e"
proof (cases "e \<le> t")
  case False
  then obtain e' where e': "e \<le> e'" "held s (endpoint_id (lm_endpoint m)) (lm_session_id m) e'"
    using assms(1) by (auto simp: covered_def)
  have "op_before e' x" using False e'(1) assms(3) by (cases x) auto
  with e'(2) assms(2) have "held (apply_op x s) (endpoint_id (lm_endpoint m)) (lm_session_id m) e'"
    by (intro apply_op_keeps) (auto simp: foreign_op_def)
  with e'(1) show ?thesis by (auto simp: covered_def apply_lease_op_eq)
qed (simp add: covered_def)

lemma covered_foreign_all:
  "covered held m s t e \<Longrightarrow> \<forall>y \<in> set ops. foreign_op m y \<and> op_until t y \<Longrightarrow>
   covered held m (fold (apply_lease_op reg unreg) ops s) t e"
  by (induction ops arbitrary: s) (simp_all add: covered_foreign)

lemma covered_own:
  assumes "covered held m s t e" "e \<le> t' + uint (lm_lease_duration_ms m)" "reg t' t' (renew_request m) s = (r, s')"
  shows "covered held m s' t e"
proof (cases r)
  case (Inl err)
  with assms(3) have "s' = s" using reg_failed [of t' t' "renew_request m" s] by simp
  with assms(1) show ?thesis by simp
next
  case (Inr lease)
  then show ?thesis using assms(2,3) reg_granted [of t' t' "renew_request m" s]
    by (auto simp: covered_def renew_request_def)
qed

lemma granted_covered:
  "reg t' t' (renew_request m) s = (Inr lease, s') \<Longrightarrow> covered held m s' t (t' + uint (lm_lease_duration_ms m))"
  using reg_granted [of t' t' "renew_request m" s] by (auto simp: covered_def renew_request_def)

lemma fence_inv_init:
  assumes "snd anchor \<le> t1" "t1 \<le> t2" "t2 \<le> t3" "t3 \<le> t4"
    and reg: "reg (store_ms offset t2) (store_ms offset t2) (renew_request m) s = (r, s')"
    and ops: "\<forall>y \<in> set ops. foreign_op m y \<and> op_until (store_ms offset t4) y"
    and started: "renewal_start (renew_once_with_deadline m (now_ms anchor t1) r t3 (now_ms anchor t4)) t4 = Inr task"
  shows "fence_inv held m anchor offset
    \<lparr>fe_time = t4, fe_task = task, fe_store = fold (apply_lease_op reg unreg) ops s', fe_started = t1, fe_reply = None\<rparr>"
proof -
  obtain valid_until lease deadline where begun: "renew_begin m (now_ms anchor t1) = Inr valid_until"
    and finished: "renew_finish valid_until r t3 (now_ms anchor t4) = Inr (lease, deadline)"
    and task: "rt_phase task = Sleeping t4" "rt_deadline task = deadline"
    using started by (auto simp: renewal_start_def renew_once_with_deadline_def result_simps)
  then have r: "r = Inr lease" by (auto simp: renew_finish_def result_simps Let_def split: if_splits)
  have "covered held m (fold (apply_lease_op reg unreg) ops s') (store_ms offset t4) (store_ms offset t2 + uint (lm_lease_duration_ms m))"
    using reg unfolding r by (intro covered_foreign_all granted_covered ops)
  moreover have "store_ms offset t2 \<le> store_ms offset t4" using assms by (simp add: store_ms_mono)
  moreover have "\<forall>u < deadline. store_ms offset u \<le> store_ms offset t2 + uint (lm_lease_duration_ms m) + 1"
    using confirmed_window [of m "fst anchor" "snd anchor" t1, simplified, OF begun finished] assms by auto
  ultimately have "deadline_covered held m offset (fold (apply_lease_op reg unreg) ops s') t4 deadline"
    by (auto simp: deadline_covered_def)
  then show ?thesis using task assms by (simp add: fence_inv_def)
qed

lemma deadline_covered_store:
  assumes "deadline_covered held m offset s t d"
    and "\<And>e. covered held m s (store_ms offset t) e \<Longrightarrow> e \<le> store_ms offset t + uint (lm_lease_duration_ms m) \<Longrightarrow> covered held m s' (store_ms offset t) e"
  shows "deadline_covered held m offset s' t d"
  using assms unfolding deadline_covered_def by blast

lemma answer_covered_store:
  assumes "answer_covered held m offset s t a"
    and "\<And>e. covered held m s (store_ms offset t) e \<Longrightarrow> e \<le> store_ms offset t + uint (lm_lease_duration_ms m) \<Longrightarrow> covered held m s' (store_ms offset t) e"
  shows "answer_covered held m offset s' t a"
  using assms unfolding answer_covered_def by (meson add_right_mono store_ms_mono)

lemma fence_inv_later:
  assumes "fence_inv held m anchor offset x" and t: "fe_time x \<le> t"
  shows "fence_inv held m anchor offset (x\<lparr>fe_time := t\<rparr>)"
  using assms deadline_covered_later [OF _ t, of held m offset "fe_store x"]
    answer_covered_later [OF _ t, of held m offset "fe_store x"]
  by (auto simp: fence_inv_def)

text \<open>A granted renewal's new deadline is covered by the store's lease.\<close>

lemma renewed_deadline_covered:
  assumes inv: "fence_inv held m anchor offset x" and t: "fe_time x \<le> t" and phase: "rt_phase (fe_task x) = Renewing begun response"
    and result: "renewal_result begun response (fe_time x) (now_ms anchor t) = Some (Inr (lease, d))"
  shows "deadline_covered held m offset (fe_store x) t d"
proof -
  obtain valid_until registered where begun: "begun = Inr valid_until" and resp: "response = Some registered"
    and fin: "renew_finish valid_until registered (fe_time x) (now_ms anchor t) = Inr (lease, d)"
    using result by (cases begun; cases response) (auto simp: renewal_result_def)
  have "granted response" using fin resp by (cases registered) (auto simp: granted_def renew_finish_def)
  then show ?thesis using inv t fin phase begun
    by (intro answer_covers_deadline [of held m offset "fe_store x" "fe_time x" "fe_started x" anchor]) (auto simp: fence_inv_def)
qed

lemma fence_inv_poll:
  assumes inv: "fence_inv held m anchor offset x" and t: "fe_time x \<le> t"
  shows "fence_inv held m anchor offset
    (x\<lparr>fe_time := t, fe_task := poll_renewal m (now_ms anchor t) (fe_time x) (fe_task x),
       fe_started := (if is_sleeping (fe_task x) then t else fe_started x),
       fe_reply := (if is_sleeping (fe_task x) then None else fe_reply x)\<rparr>)"
proof (cases "rt_phase (fe_task x)")
  case (Sleeping since)
  then have "deadline_covered held m offset (fe_store x) t (rt_deadline (fe_task x))"
    using inv t by (auto simp: fence_inv_def intro: deadline_covered_later)
  with Sleeping inv t show ?thesis
    by (auto simp: fence_inv_def poll_renewal_def wait_until_renewal_def is_sleeping_def lose_lease_def granted_def)
next
  case (Renewing begun response)
  then have cov: "deadline_covered held m offset (fe_store x) t (rt_deadline (fe_task x))"
    using inv t by (auto simp: fence_inv_def intro: deadline_covered_later)
  note new = renewed_deadline_covered [OF inv t Renewing]
  have same: "fence_inv held m anchor offset (x\<lparr>fe_time := t\<rparr>)" using inv t by (rule fence_inv_later)
  show ?thesis
  proof (cases "rt_shutdown (fe_task x) \<or> rt_deadline (fe_task x) \<le> fe_time x")
    case True
    with inv t Renewing show ?thesis
      by (auto simp: fence_inv_def poll_renewal_def renew_before_deadline_def lose_lease_def)
  next
    case False
    then show ?thesis
    proof (cases "renewal_result begun response (fe_time x) (now_ms anchor t)")
      case None
      with False Renewing same show ?thesis by (simp add: poll_renewal_def renew_before_deadline_def is_sleeping_def)
    next
      case (Some result)
      with False Renewing inv t cov new show ?thesis
        by (cases result) (auto simp: fence_inv_def poll_renewal_def renew_before_deadline_def Let_def is_sleeping_def)
    qed
  qed
next
  case Stopped
  with inv t show ?thesis by (auto simp: fence_inv_def poll_renewal_def)
qed

lemma fence_inv_step:
  assumes inv: "fence_inv held m anchor offset x" and step: "fence_step reg unreg m anchor offset x y"
  shows "fence_inv held m anchor offset y"
  using step
proof (cases rule: fence_step.cases)
  case (tick t)
  then show ?thesis using inv by (simp add: fence_inv_later)
next
  case (poll t)
  then show ?thesis using inv by (simp add: fence_inv_poll)
next
  case (renews r s')
  let ?t = "store_ms offset (fe_time x)"
  have keeps: "covered held m s' ?t e" if "covered held m (fe_store x) ?t e" "e \<le> ?t + uint (lm_lease_duration_ms m)" for e
    using that renews(2) by (rule covered_own)
  have "answer_covered held m offset s' (fe_time x) (fe_started x)" if "granted (Some r)" "fe_started x \<le> fe_time x"
    using that renews(2) unfolding answer_covered_def
    by (intro exI [of _ "fe_time x"]) (auto simp: granted_def intro: granted_covered split: sum.splits)
  with inv keeps renews(1) show ?thesis
    by (auto simp: fence_inv_def intro: deadline_covered_store answer_covered_store)
next
  case (other op)
  have keeps: "covered held m (apply_lease_op reg unreg op (fe_store x)) (store_ms offset (fe_time x)) e"
    if "covered held m (fe_store x) (store_ms offset (fe_time x)) e" for e
    by (rule covered_foreign [OF that other(2,3)])
  with inv other(1) show ?thesis
    by (auto simp: fence_inv_def intro: deadline_covered_store answer_covered_store)
qed (use inv in \<open>auto simp: fence_inv_def granted_def\<close>)

lemma fence_inv_reachable: "fence_reachable reg unreg m anchor offset x \<Longrightarrow> fence_inv held m anchor offset x"
  by (induction rule: fence_reachable.induct) (auto intro: fence_inv_init fence_inv_step)

lemma fenced_in_time:
  assumes "fence_reachable reg unreg m anchor offset x" "rt_phase (fe_task x) \<noteq> Stopped"
    and "fe_time x + 2 * ms_ns < rt_deadline (fe_task x)"
  shows "\<exists>e. held (fe_store x) (endpoint_id (lm_endpoint m)) (lm_session_id m) e \<and> store_ms offset (fe_time x) < e"
proof -
  obtain e where cov: "covered held m (fe_store x) (store_ms offset (fe_time x)) e"
    and window: "store_ms offset (fe_time x + 2 * ms_ns) \<le> e + 1"
    using fence_inv_reachable [OF assms(1)] assms(2,3) by (auto simp: fence_inv_def deadline_covered_def)
  then have "store_ms offset (fe_time x) < e" unfolding store_ms_later by linarith
  with cov show ?thesis by (auto simp: covered_def)
qed

end

section \<open>Self-fencing\<close>

text \<open>
  Claim C8. Self-fencing: in every run of the renewal task against the PostgreSQL store, with lost
  answers, late requests and other sessions, while the task runs and its local deadline is more than two
  milliseconds away, the store records an unexpired lease of this session; and a poll at the deadline or
  later, without a shutdown, stops the task and reports the lease lost.
\<close>

theorem self_fencing:
  assumes "fence_reachable register unregister m anchor offset x" "rt_phase (fe_task x) \<noteq> Stopped"
  shows "(fe_time x + 2 * ms_ns < rt_deadline (fe_task x) \<longrightarrow>
      (\<exists>e. holds_lease (fe_store x) (endpoint_id (lm_endpoint m)) (lm_session_id m) e \<and> store_ms offset (fe_time x) < e)) \<and>
    (rt_deadline (fe_task x) \<le> fe_time x \<and> \<not> rt_shutdown (fe_task x) \<longrightarrow>
      (\<forall>clock. rt_lease_lost (poll_renewal m clock (fe_time x) (fe_task x)) \<and>
        rt_phase (poll_renewal m clock (fe_time x) (fe_task x)) = Stopped))"
proof (intro conjI impI allI)
  assume "fe_time x + 2 * ms_ns < rt_deadline (fe_task x)"
  with assms show "\<exists>e. holds_lease (fe_store x) (endpoint_id (lm_endpoint m)) (lm_session_id m) e \<and> store_ms offset (fe_time x) < e"
    by (rule pg_leases.fenced_in_time)
next
  fix clock
  assume due: "rt_deadline (fe_task x) \<le> fe_time x \<and> \<not> rt_shutdown (fe_task x)"
  show "rt_lease_lost (poll_renewal m clock (fe_time x) (fe_task x))" "rt_phase (poll_renewal m clock (fe_time x) (fe_task x)) = Stopped"
    using due assms(2)
    by (cases "rt_phase (fe_task x)"; simp add: poll_renewal_def wait_until_renewal_def renew_before_deadline_def lose_lease_def)+
qed

definition sample_maintainer :: lease_maintainer where
  "sample_maintainer = \<lparr>lm_endpoint = \<lparr>endpoint_id = HostId ''host-a'', endpoint_route = ''https://a''\<rparr>,
     lm_session_id = ''s1'', lm_lease_duration_ms = 30000, lm_renew_every = 10000000000\<rparr>"

lemmas renewal_evals = sample_maintainer_def renew_request_def renew_begin_def renew_finish_def renew_once_with_deadline_def
  renewal_start_def now_ms_def store_ms_def checked_add_def saturating_sub_def instant_add_def register_def register_statement_def
  validate_duration_def u64_of_i64_def i64_ok_def empty_database_def bigint_add_def check_constraint_def word_less_def word_le_def

definition sample_registered :: "int \<Rightarrow> host_lease result \<times> database" where
  "sample_registered t = register (store_ms 0 t) (store_ms 0 t) (renew_request sample_maintainer) empty_database"

lemma sample_registered: "sample_registered 1000000 =
   (Inr \<lparr>lease_id = HostId ''host-a'', lease_session_id = ''s1'', lease_route = ''https://a'', lease_expires_at_ms = 30001\<rparr>,
    empty_database\<lparr>db_leases := [''host-a'' \<mapsto> \<lparr>lr_session_id = ''s1'', lr_route = ''https://a'', lr_expires_at_ms = 30001\<rparr>]\<rparr>)"
  by (simp add: sample_registered_def renewal_evals)

definition sample_task :: renewal_task where
  "sample_task = \<lparr>rt_phase = Sleeping 1900000, rt_deadline = 30001900000, rt_shutdown = False, rt_lease_lost = False, rt_failures = 0\<rparr>"

lemma sample_started:
  "renew_once_with_deadline sample_maintainer (now_ms (0, 0) 1000000) (fst (sample_registered 1000000)) 1900000 (now_ms (0, 0) 1900000)
     = Inr (\<lparr>lease_id = HostId ''host-a'', lease_session_id = ''s1'', lease_route = ''https://a'', lease_expires_at_ms = 30001\<rparr>, 30001900000)"
  unfolding sample_registered by (simp add: renewal_evals)

definition sample_fence :: "database fence" where
  "sample_fence = \<lparr>fe_time = 1900000, fe_task = sample_task, fe_store = snd (sample_registered 1000000), fe_started = 1000000, fe_reply = None\<rparr>"

lemma sample_fence_reachable: "fence_reachable register unregister sample_maintainer (0, 0) 0 sample_fence"
proof -
  have "fence_reachable register unregister sample_maintainer (0, 0) 0
    \<lparr>fe_time = 1900000, fe_task = sample_task, fe_store = fold (apply_lease_op register unregister) [] (snd (sample_registered 1000000)),
     fe_started = 1000000, fe_reply = None\<rparr>"
    by (rule fence_reachable.init [where r = "fst (sample_registered 1000000)" and s = empty_database and ?t2.0 = 1000000 and ?t3.0 = 1900000])
      (simp_all add: sample_registered_def [symmetric] sample_started sample_task_def renewal_start_def)
  then show ?thesis by (simp add: sample_fence_def)
qed

theorem self_fencing_witness:
  "\<exists>e. holds_lease (fe_store sample_fence) (HostId ''host-a'') ''s1'' e \<and> store_ms 0 (fe_time sample_fence) < e"
  using self_fencing [OF sample_fence_reachable]
  by (simp add: sample_fence_def sample_task_def sample_maintainer_def)

text \<open>
  The window is not always inside the lease: a renewal that reads the clock at the start of a
  millisecond and its answer's time near the end of one is confirmed with a deadline before which the
  store already counts the lease as expired.
\<close>

theorem window_outlives_lease:
  "\<exists>lease deadline u db. register (store_ms 0 1000000) (store_ms 0 1000000) (renew_request sample_maintainer) empty_database = (Inr lease, db) \<and>
     renew_once_with_deadline sample_maintainer (now_ms (0, 0) 1000000) (Inr lease) 1900000 (now_ms (0, 0) 1900000) = Inr (lease, deadline) \<and>
     u < deadline \<and> \<not> (\<exists>e. holds_lease db (HostId ''host-a'') ''s1'' e \<and> store_ms 0 u < e)"
  using sample_registered sample_started unfolding sample_registered_def
  by (intro exI [of _ "30001800000 :: int"] exI conjI) (auto simp: holds_lease_def store_ms_def)

end
