(* ===== verification/Host_Process.thy ===== *)
theory Host_Process
  imports Lease_Maintenance Control_Plane
begin

text \<open>
  The two processes around the components (\<^verbatim>\<open>src/host/process.rs\<close>, \<^verbatim>\<open>src/control_plane/process.rs\<close>): their
  configuration from the environment, what ends a host, the order of its shutdown, and the wait of a drain
  (\<^verbatim>\<open>drain\<close> of \<^verbatim>\<open>src/host/actor_host.rs\<close>). The environment, name resolution, the parsers of addresses and URLs and
  the tasks themselves are parameters. The lemmas show that a configuration that is accepted never
  makes the lease maintenance fail, and what a drain waits for.
\<close>

section \<open>Reading the environment\<close>

type_synonym environment = "string \<Rightarrow> string option"

definition required :: "environment \<Rightarrow> string \<Rightarrow> string result" where
  "required get name =
     and_then (ok_or (get name) (name @ '' is required'')) (\<lambda>value.
     and_then (ensure (value \<noteq> []) (name @ '' must not be empty'')) (\<lambda>_. Inr value))"

definition get_or :: "environment \<Rightarrow> string \<Rightarrow> string \<Rightarrow> string" where
  "get_or get name fallback = (case get name of None \<Rightarrow> fallback | Some value \<Rightarrow> value)"

text \<open>
  \<^verbatim>\<open>str::parse::<u64>\<close>: an optional plus sign and at least one digit, within the range; at each character the digit is
  checked before the overflow.
\<close>

fun parse_digits :: "u64 \<Rightarrow> string \<Rightarrow> u64 result" where
  "parse_digits acc [] = Inr acc"
| "parse_digits acc (c # cs) =
     (if \<not> is_ascii_digit c then Inl (Bail ''invalid digit found in string'')
      else if 10 * uint acc + (of_char c - 48) < 2 ^ 64 then parse_digits (10 * acc + (of_char c - 48)) cs
      else Inl (Bail ''number too large to fit in target type''))"

definition parse_u64 :: "string \<Rightarrow> u64 result" where
  "parse_u64 s =
     (if s = [] then Inl (Bail ''cannot parse integer from empty string'')
      else if s = ''+'' then Inl (Bail ''invalid digit found in string'')
      else parse_digits 0 (if List.hd s = CHR ''+'' then tl s else s))"

definition parsed_or :: "environment \<Rightarrow> string \<Rightarrow> string \<Rightarrow> u64 \<Rightarrow> u64 result" where
  "parsed_or get name message fallback =
     (case get name of None \<Rightarrow> Inr fallback | Some value \<Rightarrow> with_context (parse_u64 value) message)"

definition duration_ms :: "environment \<Rightarrow> string \<Rightarrow> u64 \<Rightarrow> u64 result" where
  "duration_ms get name fallback =
     and_then (parsed_or get name (name @ '' must be an integer number of milliseconds'') fallback) (\<lambda>value.
     and_then (ensure (0 < value) (name @ '' must be positive'')) (\<lambda>_. Inr value))"

definition duration_seconds :: "environment \<Rightarrow> string \<Rightarrow> u64 \<Rightarrow> u64 result" where
  "duration_seconds get name fallback =
     and_then (parsed_or get name (name @ '' must be an integer number of seconds'') fallback) (\<lambda>value.
     and_then (ensure (0 < value) (name @ '' must be positive'')) (\<lambda>_. Inr value))"

section \<open>The host's configuration\<close>

abbreviation max_idle_timeout_ms :: u64 where "max_idle_timeout_ms \<equiv> 86400000"

record 'a actor_host_config =
  hc_control_plane_url :: string
  hc_host_token :: string
  hc_jwt_public_keys :: string
  hc_namespace_id :: string
  hc_host_id :: host_id
  hc_session_id :: string
  hc_executor_socket :: string
  hc_host_bind :: 'a
  hc_host_route :: "string option"
  hc_public_route_file :: "string option"
  hc_private_hostname :: "string option"
  hc_route_file :: "string option"
  hc_jwt_issuer :: string
  hc_invocation_jwt_audience :: string
  hc_jwt_max_lifetime_seconds :: u64
  hc_lease_duration_ms :: u64
  hc_renew_every_ms :: u64
  hc_host_idle_timeout_ms :: u64

record 'a parsers =
  ps_uuid :: "string \<Rightarrow> unit result"
  ps_endpoint :: "string \<Rightarrow> unit result"
  ps_address :: "string \<Rightarrow> 'a result"
  ps_url :: "string \<Rightarrow> (string \<times> string option \<times> string) result"
  ps_buckets :: "string \<Rightarrow> buckets result"
  ps_debug :: "string \<Rightarrow> string"

definition default_bind :: "string option \<Rightarrow> string option \<Rightarrow> string option \<Rightarrow> string" where
  "default_bind private_hostname host_route public_route_file =
     (if private_hostname \<noteq> None then ''[::]:7101''
      else if host_route \<noteq> None \<or> public_route_file \<noteq> None then ''0.0.0.0:7101''
      else ''127.0.0.1:0'')"

definition host_identity :: "'a parsers \<Rightarrow> environment \<Rightarrow> (string \<times> host_id \<times> string) result" where
  "host_identity parse get =
     and_then (required get ''DURABLE_OBJECT_NAMESPACE_ID'') (\<lambda>namespace.
     and_then (scope_validate \<lparr>scope_namespace_id = namespace\<rparr>) (\<lambda>_.
     and_then (required get ''DURABLE_OBJECT_HOST_ID'') (\<lambda>host.
     and_then (ensure (starts_with (''host.v1.'' @ namespace @ ''.'') host)
       ''DURABLE_OBJECT_HOST_ID does not belong to DURABLE_OBJECT_NAMESPACE_ID'') (\<lambda>_.
     and_then (required get ''DURABLE_OBJECT_SESSION_ID'') (\<lambda>session.
     and_then (with_context (ps_uuid parse session) ''DURABLE_OBJECT_SESSION_ID must be a UUID'') (\<lambda>_.
     Inr (namespace, HostId host, session)))))))"

definition host_route_settings ::
    "'a parsers \<Rightarrow> environment \<Rightarrow> (string option \<times> string option \<times> string option \<times> string option) result" where
  "host_route_settings parse get =
     (let host_route = get ''DURABLE_OBJECT_HOST_ROUTE'';
          private_hostname = get ''DURABLE_OBJECT_HOST_PRIVATE_HOSTNAME'';
          route_file = get ''DURABLE_OBJECT_HOST_ROUTE_FILE'';
          public_route_file = get ''DURABLE_OBJECT_HOST_PUBLIC_ROUTE_FILE''
      in and_then (case host_route of
                     None \<Rightarrow> Inr ()
                   | Some route \<Rightarrow> with_context (ps_endpoint parse route) ''DURABLE_OBJECT_HOST_ROUTE must be a valid HTTP or HTTPS URI'') (\<lambda>_.
         and_then (case private_hostname of
                     None \<Rightarrow> Inr ()
                   | Some hostname \<Rightarrow> ensure (hostname \<noteq> [] \<and> is_trimmed hostname)
                       ''DURABLE_OBJECT_HOST_PRIVATE_HOSTNAME must be non-empty without surrounding whitespace'') (\<lambda>_.
         and_then (ensure (host_route = None \<or> private_hostname = None)
           ''DURABLE_OBJECT_HOST_ROUTE and DURABLE_OBJECT_HOST_PRIVATE_HOSTNAME are mutually exclusive'') (\<lambda>_.
         and_then (ensure (public_route_file = None \<or> (host_route = None \<and> private_hostname = None \<and> route_file = None))
           ''DURABLE_OBJECT_HOST_PUBLIC_ROUTE_FILE cannot be combined with other host route settings'') (\<lambda>_.
         Inr (host_route, private_hostname, route_file, public_route_file))))))"

definition host_durations :: "environment \<Rightarrow> (u64 \<times> u64 \<times> u64 \<times> u64) result" where
  "host_durations get =
     and_then (duration_seconds get ''DURABLE_OBJECT_JWT_MAX_TTL_SECONDS'' 1800) (\<lambda>jwt_max_lifetime.
     and_then (duration_ms get ''DURABLE_OBJECT_LEASE_MS'' 30000) (\<lambda>lease_duration.
     and_then (duration_ms get ''DURABLE_OBJECT_RENEW_MS'' 10000) (\<lambda>renew_every.
     and_then (duration_ms get ''DURABLE_OBJECT_HOST_IDLE_TIMEOUT_MS'' 300000) (\<lambda>host_idle_timeout.
     and_then (ensure (host_idle_timeout \<le> max_idle_timeout_ms) ''DURABLE_OBJECT_HOST_IDLE_TIMEOUT_MS is too large'') (\<lambda>_.
     and_then (ensure (lease_duration \<le> max_host_lease_duration_ms) ''DURABLE_OBJECT_LEASE_MS is too large'') (\<lambda>_.
     and_then (ensure (renew_every < lease_duration) ''DURABLE_OBJECT_RENEW_MS must be shorter than DURABLE_OBJECT_LEASE_MS'') (\<lambda>_.
     Inr (jwt_max_lifetime, lease_duration, renew_every, host_idle_timeout))))))))"

definition host_config_from_lookup :: "'a parsers \<Rightarrow> environment \<Rightarrow> 'a actor_host_config result" where
  "host_config_from_lookup parse get =
     and_then (required get ''DURABLE_OBJECT_CONTROL_PLANE_URL'') (\<lambda>control_plane_url.
     and_then (required get ''DURABLE_OBJECT_HOST_TOKEN'') (\<lambda>host_token.
     and_then (required get ''DURABLE_OBJECT_JWT_PUBLIC_KEYS'') (\<lambda>jwt_public_keys.
     and_then (host_identity parse get) (\<lambda>(namespace, host, session).
     and_then (host_route_settings parse get) (\<lambda>(host_route, private_hostname, route_file, public_route_file).
     and_then (with_context (ps_address parse (get_or get ''DURABLE_OBJECT_HOST_BIND'' (default_bind private_hostname host_route public_route_file)))
       ''DURABLE_OBJECT_HOST_BIND must be a socket address'') (\<lambda>host_bind.
     and_then (host_durations get) (\<lambda>(jwt_max_lifetime, lease_duration, renew_every, host_idle_timeout).
     Inr \<lparr>hc_control_plane_url = control_plane_url, hc_host_token = host_token, hc_jwt_public_keys = jwt_public_keys,
          hc_namespace_id = namespace, hc_host_id = host, hc_session_id = session,
          hc_executor_socket = get_or get ''DURABLE_OBJECT_EXECUTOR_SOCKET'' ''/tmp/durable-object-executor.sock'',
          hc_host_bind = host_bind, hc_host_route = host_route, hc_public_route_file = public_route_file,
          hc_private_hostname = private_hostname, hc_route_file = route_file,
          hc_jwt_issuer = get_or get ''DURABLE_OBJECT_JWT_ISSUER'' ''durable-object-control-plane'',
          hc_invocation_jwt_audience = get_or get ''DURABLE_OBJECT_INVOKE_JWT_AUDIENCE'' ''durable-object-invoke'',
          hc_jwt_max_lifetime_seconds = jwt_max_lifetime, hc_lease_duration_ms = lease_duration, hc_renew_every_ms = renew_every,
          hc_host_idle_timeout_ms = host_idle_timeout\<rparr>)))))))"

section \<open>The control plane's configuration\<close>

record sandbox_provider_config =
  sp_provider_name :: string
  sp_command :: string
  sp_environment :: "(string \<times> string) list"
  sp_runtime :: sandbox_runtime_config

record 'a control_plane_config =
  cc_bind :: 'a
  cc_jwt_signing_key :: string
  cc_jwt_key_id :: string
  cc_jwt_issuer :: string
  cc_authority_audience :: string
  cc_invocation_audience :: string
  cc_jwt_max_lifetime_seconds :: u64
  cc_admin_token :: string
  cc_postgres_url :: string
  cc_standard_buckets :: buckets
  cc_sandbox_provider :: "sandbox_provider_config option"
  cc_socket_event_sink :: "(string \<times> string) option"
  cc_socket_authenticator :: "(string \<times> string) option"

text \<open>A URL parses to its scheme, its host and its normal form.\<close>

definition validated_http_url :: "'a parsers \<Rightarrow> string \<Rightarrow> string \<Rightarrow> string result" where
  "validated_http_url parse value name =
     and_then (with_context (ps_url parse value) (name @ '' must be a URL'')) (\<lambda>(scheme, host, normal).
     and_then (ensure ((scheme = ''http'' \<or> scheme = ''https'') \<and> host \<noteq> None) (name @ '' must be HTTP or HTTPS'')) (\<lambda>_.
     Inr normal))"

definition idle_timeout :: "environment \<Rightarrow> string \<Rightarrow> u64 \<Rightarrow> u64 result" where
  "idle_timeout get name fallback =
     and_then (parsed_or get name (name @ '' must be an integer'') fallback) (\<lambda>value.
     and_then (ensure (1 \<le> value \<and> value \<le> max_idle_timeout_ms) (name @ '' is outside the supported range'')) (\<lambda>_. Inr value))"

definition provider_credential :: "environment \<Rightarrow> string \<Rightarrow> string result" where
  "provider_credential get name =
     and_then (required get name) (\<lambda>value.
     and_then (ensure (is_trimmed value) (name @ '' has surrounding whitespace'')) (\<lambda>_. Inr value))"

definition url_and_token :: "'a parsers \<Rightarrow> environment \<Rightarrow> string \<Rightarrow> string \<Rightarrow> (string \<times> string) option result" where
  "url_and_token parse get url_name token_name =
     (case (get url_name, get token_name) of
        (None, None) \<Rightarrow> Inr None
      | (Some url, Some token) \<Rightarrow> and_then (validated_http_url parse url url_name) (\<lambda>normal. Inr (Some (normal, token)))
      | _ \<Rightarrow> Inl (Bail (url_name @ '' and '' @ token_name @ '' must be configured together'')))"

definition socket_authenticator_config :: "'a parsers \<Rightarrow> environment \<Rightarrow> (string \<times> string) option result" where
  "socket_authenticator_config parse get = url_and_token parse get ''DURABLE_OBJECT_SOCKET_AUTH_URL'' ''DURABLE_OBJECT_SOCKET_AUTH_TOKEN''"

definition socket_event_sink_config :: "'a parsers \<Rightarrow> environment \<Rightarrow> (string \<times> string) option result" where
  "socket_event_sink_config parse get = url_and_token parse get ''DURABLE_OBJECT_SOCKET_EVENT_URL'' ''DURABLE_OBJECT_SOCKET_EVENT_TOKEN''"

definition read_sandbox_provider_config :: "'a parsers \<Rightarrow> environment \<Rightarrow> string \<Rightarrow> string \<Rightarrow> sandbox_provider_config option result" where
  "read_sandbox_provider_config parse get jwt_issuer invocation_audience =
     (case get ''DURABLE_OBJECT_SANDBOX_PROVIDER'' of
        None \<Rightarrow>
          and_then (ensure (get ''DURABLE_OBJECT_SANDBOX_COMMAND'' = None) ''sandbox command requires a provider'') (\<lambda>_. Inr None)
      | Some provider_name \<Rightarrow>
          and_then (ensure (provider_name = ''modal'') (''unsupported sandbox provider '' @ ps_debug parse provider_name)) (\<lambda>_.
          and_then (provider_credential get ''MODAL_TOKEN_ID'') (\<lambda>token_id.
          and_then (provider_credential get ''MODAL_TOKEN_SECRET'') (\<lambda>token_secret.
          and_then (required get ''DURABLE_OBJECT_CONTROL_PLANE_URL'') (\<lambda>url.
          and_then (validated_http_url parse url ''DURABLE_OBJECT_CONTROL_PLANE_URL'') (\<lambda>control_plane_url.
          and_then (idle_timeout get ''DURABLE_OBJECT_ACTOR_IDLE_TIMEOUT_MS'' 60000) (\<lambda>actor_idle_timeout_ms.
          and_then (idle_timeout get ''DURABLE_OBJECT_HOST_IDLE_TIMEOUT_MS'' 300000) (\<lambda>host_idle_timeout_ms.
          Inr (Some \<lparr>sp_provider_name = provider_name,
            sp_command = get_or get ''DURABLE_OBJECT_SANDBOX_COMMAND'' ''little-durable-objects-modal'',
            sp_environment = [(''MODAL_TOKEN_ID'', token_id), (''MODAL_TOKEN_SECRET'', token_secret)],
            sp_runtime = \<lparr>rt_control_plane_url = control_plane_url, rt_jwt_issuer = jwt_issuer,
              rt_invocation_jwt_audience = invocation_audience, rt_actor_idle_timeout_ms = actor_idle_timeout_ms,
              rt_host_idle_timeout_ms = host_idle_timeout_ms\<rparr>\<rparr>)))))))))"

definition control_plane_config_from_lookup :: "'a parsers \<Rightarrow> environment \<Rightarrow> 'a control_plane_config result" where
  "control_plane_config_from_lookup parse get =
     and_then (with_context (ps_address parse (get_or get ''DURABLE_OBJECT_CONTROL_PLANE_BIND'' ''127.0.0.1:7100''))
       ''DURABLE_OBJECT_CONTROL_PLANE_BIND must be a socket address'') (\<lambda>bind.
     and_then (required get ''DURABLE_OBJECT_JWT_SIGNING_KEY'') (\<lambda>jwt_signing_key.
     and_then (parsed_or get ''DURABLE_OBJECT_JWT_MAX_TTL_SECONDS'' ''DURABLE_OBJECT_JWT_MAX_TTL_SECONDS must be an integer'' 1800) (\<lambda>lifetime.
     and_then (ensure (lifetime \<noteq> 0) ''DURABLE_OBJECT_JWT_MAX_TTL_SECONDS must be positive'') (\<lambda>_.
     and_then (required get ''DURABLE_OBJECT_ADMIN_TOKEN'') (\<lambda>admin_token.
     and_then (ensure (is_trimmed admin_token) ''DURABLE_OBJECT_ADMIN_TOKEN has surrounding whitespace'') (\<lambda>_.
     and_then (required get ''DURABLE_OBJECT_STANDARD_BUCKETS'') (\<lambda>buckets_json.
     and_then (with_context (ps_buckets parse buckets_json) ''DURABLE_OBJECT_STANDARD_BUCKETS must be a JSON region-to-bucket map'') (\<lambda>buckets.
     and_then (validate_buckets buckets) (\<lambda>_.
     and_then (required get ''DURABLE_OBJECT_POSTGRES_URL'') (\<lambda>postgres_url.
     (let jwt_issuer = get_or get ''DURABLE_OBJECT_JWT_ISSUER'' ''durable-object-control-plane'';
          invocation_audience = get_or get ''DURABLE_OBJECT_INVOKE_JWT_AUDIENCE'' ''durable-object-invoke''
      in and_then (read_sandbox_provider_config parse get jwt_issuer invocation_audience) (\<lambda>sandbox_provider.
         and_then (socket_event_sink_config parse get) (\<lambda>socket_event_sink.
         and_then (socket_authenticator_config parse get) (\<lambda>socket_authenticator.
         Inr \<lparr>cc_bind = bind, cc_jwt_signing_key = jwt_signing_key,
              cc_jwt_key_id = get_or get ''DURABLE_OBJECT_JWT_KEY_ID'' ''primary'', cc_jwt_issuer = jwt_issuer,
              cc_authority_audience = get_or get ''DURABLE_OBJECT_AUTHORITY_JWT_AUDIENCE'' ''durable-object-authority'',
              cc_invocation_audience = invocation_audience, cc_jwt_max_lifetime_seconds = lifetime, cc_admin_token = admin_token,
              cc_postgres_url = postgres_url, cc_standard_buckets = buckets, cc_sandbox_provider = sandbox_provider,
              cc_socket_event_sink = socket_event_sink, cc_socket_authenticator = socket_authenticator\<rparr>))))))))))))))"

section \<open>The route a host advertises\<close>

text \<open>
  What reading the route file yields at each attempt; the loop sleeps between attempts and gives up after
  sixty seconds, here after the attempts that fit. \<open>trim\<close> is \<^verbatim>\<open>str::trim\<close>; \<open>endpoint\<close> parses a URI to its scheme and host.
\<close>

datatype route_read = RouteText string | RouteMissing | RouteError error

fun read_public_route ::
    "(string \<Rightarrow> string) \<Rightarrow> (string \<Rightarrow> (string option \<times> string option) result) \<Rightarrow> route_read list \<Rightarrow> string result option" where
  "read_public_route trim endpoint [] = None"
| "read_public_route trim endpoint (RouteError e # reads) = Some (Inl (Context ''read public host route'' e))"
| "read_public_route trim endpoint (RouteMissing # reads) = read_public_route trim endpoint reads"
| "read_public_route trim endpoint (RouteText text # reads) =
     (if trim text = [] then read_public_route trim endpoint reads
      else Some (and_then (with_context (endpoint (trim text)) ''public host route file must contain a valid HTTPS URI'') (\<lambda>(scheme, host).
             and_then (ensure (scheme = Some ''https'' \<and> host \<noteq> None) ''public host route must use HTTPS'') (\<lambda>_.
             Inr (trim text)))))"

text \<open>An address with its port shows as text; \<open>lookup\<close> resolves a host name, with what is an IPv6 address.\<close>

definition advertised_route ::
    "string result option \<Rightarrow> (string \<Rightarrow> (string \<times> bool) list result) \<Rightarrow> string \<Rightarrow> 'a actor_host_config \<Rightarrow> string result" where
  "advertised_route published lookup bound config =
     (case hc_host_route config of
        Some route \<Rightarrow> Inr route
      | None \<Rightarrow>
          (case hc_public_route_file config of
             Some _ \<Rightarrow> (case published of
                 None \<Rightarrow> Inl (Context ''public host route was not published within 60 seconds'' (Bail ''deadline has elapsed'')) | Some r \<Rightarrow> r)
           | None \<Rightarrow>
               (case hc_private_hostname config of
                  None \<Rightarrow> Inr (''http://'' @ bound)
                | Some hostname \<Rightarrow>
                    and_then (with_context (lookup hostname) (''resolve actor host private hostname '' @ hostname)) (\<lambda>addresses.
                    and_then (ok_or (find snd addresses) (''actor host private hostname '' @ hostname @ '' has no IPv6 address'')) (\<lambda>(address, _).
                    Inr (''http://'' @ address))))))"

section \<open>What ends a host\<close>

text \<open>
  The branches of the \<^verbatim>\<open>select!\<close> of the waiting host, as they become ready, each with the number of active operations
  the activity channel shows when the \<^verbatim>\<open>select!\<close> is entered (the guard of the idle timer is evaluated there) and the
  instant of the event. \<open>LeaseChanged None\<close> and \<open>ActivityChanged None\<close>: the channel closed.
\<close>

datatype host_event =
    ServerEnded "unit result"
  | ExecutorEnded "unit result"
  | JavascriptExited "string result"
  | ShutdownSignal
  | LeaseChanged "bool option"
  | ActivityChanged "u64 option"
  | IdleElapsed

definition host_stop_step :: "int \<Rightarrow> u64 \<times> int \<times> host_event \<Rightarrow> int \<Rightarrow> unit result option \<times> int" where
  "host_stop_step timeout ev idle_deadline =
     (case ev of (entered_active, instant, event) \<Rightarrow>
        (case event of
           ServerEnded r \<Rightarrow> (Some (with_context r ''serve actor host network endpoints''), idle_deadline)
         | ExecutorEnded r \<Rightarrow> (Some (with_context r ''run JavaScript actor executor''), idle_deadline)
         | JavascriptExited (Inl e) \<Rightarrow> (Some (Inl e), idle_deadline)
         | JavascriptExited (Inr status) \<Rightarrow> (Some (Inl (Bail (''JavaScript actor executor exited with '' @ status))), idle_deadline)
         | ShutdownSignal \<Rightarrow> (Some (Inr ()), idle_deadline)
         | LeaseChanged (Some False) \<Rightarrow> (None, idle_deadline)
         | LeaseChanged _ \<Rightarrow> (Some (Inl (Bail ''host lease expired; host self-fenced'')), idle_deadline)
         | ActivityChanged None \<Rightarrow> (Some (Inl (Bail ''actor activity tracker stopped'')), idle_deadline)
         | ActivityChanged (Some active) \<Rightarrow> (None, if active = 0 then instant + timeout else idle_deadline)
         | IdleElapsed \<Rightarrow> (if entered_active = 0 \<and> idle_deadline \<le> instant then Some (Inr ()) else None, idle_deadline)))"

fun wait_for_host_stop :: "int \<Rightarrow> (u64 \<times> int \<times> host_event) list \<Rightarrow> int \<Rightarrow> unit result option" where
  "wait_for_host_stop timeout [] idle_deadline = None"
| "wait_for_host_stop timeout (ev # evs) idle_deadline =
     (case host_stop_step timeout ev idle_deadline of
        (Some r, _) \<Rightarrow> Some r
      | (None, deadline) \<Rightarrow> wait_for_host_stop timeout evs deadline)"

text \<open>
  The end of \<^verbatim>\<open>serve_actor_host\<close>: whatever stopped the host, it is drained, its tasks are stopped, the renewal is
  shut down and only then the lease unregistered; the first failure in that order is reported.
\<close>

record 's host_shutdown =
  sd_drain :: "'s \<Rightarrow> 's"
  sd_stop_tasks :: "'s \<Rightarrow> 's"
  sd_renewal :: "'s \<Rightarrow> unit result \<times> 's"
  sd_unregister :: "'s \<Rightarrow> unit result \<times> 's"

definition stop_host :: "'s host_shutdown \<Rightarrow> unit result \<Rightarrow> 's \<Rightarrow> unit result \<times> 's" where
  "stop_host sd stop_result s =
     (case sd_renewal sd (sd_stop_tasks sd (sd_drain sd s)) of
        (renewed, s1) \<Rightarrow>
          (case sd_unregister sd s1 of
             (unregistered, s2) \<Rightarrow>
               (and_then stop_result (\<lambda>_. and_then renewed (\<lambda>_. unregistered)), s2)))"

section \<open>The drain\<close>

text \<open>
  The drain loads the number of active operations, then creates the future that waits for a notification,
  then awaits it; a notification reaches the futures that exist when it is given, and no others. An operation
  that finishes decrements the counter and, when it was the last one, notifies in a later step (\<open>dr_notifying\<close>).
\<close>

datatype drain_phase = DrainChecking | DrainArming | DrainWaiting bool | DrainDone | DrainTimedOut

record drain_state =
  dr_accepting :: bool
  dr_active :: nat
  dr_notifying :: nat
  dr_phase :: drain_phase

definition drain_start :: "drain_state \<Rightarrow> drain_state" where
  "drain_start s = s\<lparr>dr_accepting := False, dr_phase := DrainChecking\<rparr>"

definition drain_advance :: "drain_state \<Rightarrow> drain_state" where
  "drain_advance s =
     (case dr_phase s of
        DrainChecking \<Rightarrow> s\<lparr>dr_phase := if dr_active s = 0 then DrainDone else DrainArming\<rparr>
      | DrainArming \<Rightarrow> s\<lparr>dr_phase := DrainWaiting False\<rparr>
      | DrainWaiting True \<Rightarrow> s\<lparr>dr_phase := DrainChecking\<rparr>
      | _ \<Rightarrow> s)"

definition drain_timeout :: "drain_state \<Rightarrow> drain_state" where
  "drain_timeout s = (if dr_phase s = DrainDone then s else s\<lparr>dr_phase := DrainTimedOut\<rparr>)"

definition drain_result :: "drain_state \<Rightarrow> unit result option" where
  "drain_result s =
     (case dr_phase s of
        DrainDone \<Rightarrow> Some (Inr ())
      | DrainTimedOut \<Rightarrow> Some (Inl (Context ''actor invocations did not drain before shutdown'' (Bail ''deadline has elapsed'')))
      | _ \<Rightarrow> None)"

definition activity_begins :: "drain_state \<Rightarrow> drain_state" where
  "activity_begins s = s\<lparr>dr_active := dr_active s + 1\<rparr>"

definition activity_finishes :: "drain_state \<Rightarrow> drain_state" where
  "activity_finishes s =
     (let active = dr_active s - 1 in
      s\<lparr>dr_active := active, dr_notifying := if active = 0 then dr_notifying s + 1 else dr_notifying s\<rparr>)"

definition idle_notified :: "drain_state \<Rightarrow> drain_state" where
  "idle_notified s =
     s\<lparr>dr_notifying := dr_notifying s - 1,
       dr_phase := (case dr_phase s of DrainWaiting _ \<Rightarrow> DrainWaiting True | phase \<Rightarrow> phase)\<rparr>"

text \<open>The steps of the drain and of the operations; \<open>quiet_step\<close> has those in which no operation begins.\<close>

inductive quiet_step :: "drain_state \<Rightarrow> drain_state \<Rightarrow> bool" where
  quiet_advance: "quiet_step s (drain_advance s)"
| quiet_timeout: "quiet_step s (drain_timeout s)"
| quiet_finish: "0 < dr_active s \<Longrightarrow> quiet_step s (activity_finishes s)"
| quiet_notify: "0 < dr_notifying s \<Longrightarrow> quiet_step s (idle_notified s)"

inductive drain_step :: "drain_state \<Rightarrow> drain_state \<Rightarrow> bool" where
  drain_quiet: "quiet_step s t \<Longrightarrow> drain_step s t"
| drain_begin: "drain_step s (activity_begins s)"

inductive_cases quiet_stepE: "quiet_step s t"

text \<open>A drain that waits with nothing active and no notification to come waits until its timeout.\<close>

definition wakeup_missed :: "drain_state \<Rightarrow> bool" where
  "wakeup_missed s \<longleftrightarrow> dr_active s = 0 \<and> dr_notifying s = 0 \<and> (dr_phase s = DrainWaiting False \<or> dr_phase s = DrainTimedOut)"

lemma wakeup_missed_step: "quiet_step s t \<Longrightarrow> wakeup_missed s \<Longrightarrow> wakeup_missed t"
  by (auto elim!: quiet_stepE simp: wakeup_missed_def drain_advance_def drain_timeout_def)

lemma wakeup_missed_steps: "quiet_step\<^sup>*\<^sup>* s t \<Longrightarrow> wakeup_missed s \<Longrightarrow> wakeup_missed t"
  by (induction rule: rtranclp_induct) (auto dest: wakeup_missed_step)

lemma wakeup_missed_result:
  "wakeup_missed s \<Longrightarrow> drain_result s = Some r \<Longrightarrow>
   r = Inl (Context ''actor invocations did not drain before shutdown'' (Bail ''deadline has elapsed''))"
  by (auto simp: wakeup_missed_def drain_result_def)

text \<open>
  Claim C38. The drain can miss its wake-up: from a draining host with one active operation there is a run in
  which that operation finishes and notifies between the drain's check and its wait, so that nothing is
  active, and from there, unless another operation begins, the drain never succeeds and can only time out.
\<close>

theorem drain_misses_wakeup:
  "\<exists>s. drain_step\<^sup>*\<^sup>* (drain_start \<lparr>dr_accepting = True, dr_active = 1, dr_notifying = 0, dr_phase = DrainChecking\<rparr>) s \<and>
     dr_active s = 0 \<and> drain_result s = None \<and>
     {r. \<exists>t. quiet_step\<^sup>*\<^sup>* s t \<and> drain_result t = Some r} =
       {Inl (Context ''actor invocations did not drain before shutdown'' (Bail ''deadline has elapsed''))}"
proof -
  let ?s0 = "drain_start \<lparr>dr_accepting = True, dr_active = 1, dr_notifying = 0, dr_phase = DrainChecking\<rparr>"
  let ?s1 = "drain_advance ?s0"
  let ?s2 = "activity_finishes ?s1"
  let ?s3 = "idle_notified ?s2"
  let ?s4 = "drain_advance ?s3"
  have "0 < dr_active ?s1" "0 < dr_notifying ?s2"
    by (simp_all add: drain_start_def drain_advance_def activity_finishes_def)
  then have "drain_step ?s0 ?s1" "drain_step ?s1 ?s2" "drain_step ?s2 ?s3" "drain_step ?s3 ?s4"
    by (blast intro: drain_quiet quiet_step.intros)+
  then have reach: "drain_step\<^sup>*\<^sup>* ?s0 ?s4" by (metis converse_rtranclp_into_rtranclp rtranclp.rtrancl_refl)
  have s4: "?s4 = \<lparr>dr_accepting = False, dr_active = 0, dr_notifying = 0, dr_phase = DrainWaiting False\<rparr>"
    by (simp add: drain_start_def drain_advance_def activity_finishes_def idle_notified_def)
  have missed: "wakeup_missed ?s4" unfolding s4 by (simp add: wakeup_missed_def)
  have "quiet_step\<^sup>*\<^sup>* ?s4 (drain_timeout ?s4)" by (intro r_into_rtranclp quiet_step.intros)
  moreover have "drain_result (drain_timeout ?s4) = Some (Inl (Context ''actor invocations did not drain before shutdown'' (Bail ''deadline has elapsed'')))"
    unfolding s4 by (simp add: drain_timeout_def drain_result_def)
  ultimately have "{r. \<exists>t. quiet_step\<^sup>*\<^sup>* ?s4 t \<and> drain_result t = Some r} =
       {Inl (Context ''actor invocations did not drain before shutdown'' (Bail ''deadline has elapsed''))}"
    using wakeup_missed_result wakeup_missed_steps missed by blast
  moreover have "dr_active ?s4 = 0" "drain_result ?s4 = None" unfolding s4 by (simp_all add: drain_result_def)
  ultimately show ?thesis using reach by blast
qed

section \<open>Accepted configurations\<close>

lemma duration_ms_Inr: "duration_ms get name d = Inr v \<Longrightarrow> 0 < v"
  by (auto simp: duration_ms_def and_then_eq_Inr split: if_splits)

lemma host_durations_Inr:
  assumes "host_durations get = Inr (j, lease, renew, idle)"
  shows "0 < lease" "lease \<le> 60000" "0 < renew" "renew < lease" "0 < idle" "idle \<le> max_idle_timeout_ms"
  using assms by (auto simp: host_durations_def and_then_eq_Inr dest: duration_ms_Inr split: if_splits)

text \<open>
  A host configuration that is accepted fits the rest of the program: its durations are within their
  limits, its identity belongs to its namespace, at most one kind of route is set, and the lease maintainer
  built from it is accepted and only ever asks for lease durations that the lease store accepts.
\<close>

lemma accepted_host_config:
  assumes "host_config_from_lookup parse get = Inr c"
  shows "hc_lease_duration_ms c \<le> max_host_lease_duration_ms \<and> 0 < hc_renew_every_ms c \<and> hc_renew_every_ms c < hc_lease_duration_ms c \<and>
    0 < hc_host_idle_timeout_ms c \<and> hc_host_idle_timeout_ms c \<le> max_idle_timeout_ms \<and>
    starts_with (''host.v1.'' @ hc_namespace_id c @ ''.'') (host_str (hc_host_id c)) \<and>
    (hc_host_route c = None \<or> hc_private_hostname c = None) \<and>
    (\<forall>endpoint. \<exists>m. maintainer_new endpoint (hc_session_id c) (uint (hc_lease_duration_ms c) * ms_ns) (uint (hc_renew_every_ms c) * ms_ns) = Inr m \<and>
       validate_duration (renew_request m) = Inr ())"
proof -
  obtain namespace host session where ident: "host_identity parse get = Inr (namespace, host, session)"
    and c: "hc_namespace_id c = namespace" "hc_host_id c = host" "hc_session_id c = session"
    using assms by (auto simp: host_config_from_lookup_def and_then_eq_Inr)
  have id: "session \<noteq> []" "starts_with (''host.v1.'' @ namespace @ ''.'') (host_str host)"
    using ident by (auto simp: host_identity_def required_def and_then_eq_Inr split: if_splits)
  obtain j where d: "host_durations get = Inr (j, hc_lease_duration_ms c, hc_renew_every_ms c, hc_host_idle_timeout_ms c)"
    using assms by (auto simp: host_config_from_lookup_def and_then_eq_Inr)
  note bounds = host_durations_Inr [OF d]
  have one: "hc_host_route c = None \<or> hc_private_hostname c = None"
    using assms by (auto simp: host_config_from_lookup_def and_then_eq_Inr host_route_settings_def Let_def split: if_splits)
  have nums: "uint (hc_lease_duration_ms c) * ms_ns div ms_ns = uint (hc_lease_duration_ms c)" "uint (hc_lease_duration_ms c) < 2 ^ 64"
      "uint (hc_renew_every_ms c) < uint (hc_lease_duration_ms c)" "0 < uint (hc_renew_every_ms c)"
    using bounds uint_lt2p [of "hc_lease_duration_ms c"] by (simp_all add: word_less_def)
  have "\<exists>m. maintainer_new endpoint (hc_session_id c) (uint (hc_lease_duration_ms c) * ms_ns) (uint (hc_renew_every_ms c) * ms_ns) = Inr m \<and>
       validate_duration (renew_request m) = Inr ()" for endpoint
    using bounds id(1) nums c by (simp add: maintainer_new_def validate_duration_def renew_request_def)
  with bounds id(2) one c show ?thesis by simp
qed

definition host_environment_sample :: environment where
  "host_environment_sample =
     [''DURABLE_OBJECT_CONTROL_PLANE_URL'' \<mapsto> ''http://control'', ''DURABLE_OBJECT_HOST_TOKEN'' \<mapsto> ''token'',
      ''DURABLE_OBJECT_JWT_PUBLIC_KEYS'' \<mapsto> ''[]'', ''DURABLE_OBJECT_NAMESPACE_ID'' \<mapsto> ''ns'',
      ''DURABLE_OBJECT_HOST_ID'' \<mapsto> ''host.v1.ns.a'', ''DURABLE_OBJECT_SESSION_ID'' \<mapsto> ''s'',
      ''DURABLE_OBJECT_LEASE_MS'' \<mapsto> ''+20000'']"

definition sample_parsers :: "string parsers" where
  "sample_parsers =
     \<lparr>ps_uuid = (\<lambda>_. Inr ()), ps_endpoint = (\<lambda>_. Inr ()), ps_address = Inr, ps_url = (\<lambda>s. Inr (''http'', Some s, s)),
      ps_buckets = (\<lambda>_. Inr []), ps_debug = (\<lambda>s. s)\<rparr>"

lemma host_config_sample:
  "map_sum id hc_lease_duration_ms (host_config_from_lookup sample_parsers host_environment_sample) = Inr 20000"
  by code_simp

lemma sample_accepted_host_config:
  "\<exists>c. host_config_from_lookup sample_parsers host_environment_sample = Inr c \<and> hc_lease_duration_ms c = 20000 \<and>
     hc_renew_every_ms c < hc_lease_duration_ms c"
proof -
  obtain c where c: "host_config_from_lookup sample_parsers host_environment_sample = Inr c" "hc_lease_duration_ms c = 20000"
    using host_config_sample by (cases "host_config_from_lookup sample_parsers host_environment_sample") auto
  with accepted_host_config [OF c(1)] show ?thesis by blast
qed

end
