(* ===== verification/Startup.thy ===== *)
theory Startup
  imports Host_Process Gateway Client Actor_Host
begin

text \<open>
  How the processes come up (\<^verbatim>\<open>src/main.rs\<close>, \<^verbatim>\<open>control_plane_routes\<close> of \<^verbatim>\<open>src/control_plane/process.rs\<close>,
  \<^verbatim>\<open>serve_actor_host\<close> and \<^verbatim>\<open>prepare_actor_host\<close> of \<^verbatim>\<open>src/host/process.rs\<close>), and the environment the Modal provider
  gives a host it starts (\<^verbatim>\<open>npm/providers/modal.ts\<close>). Sockets, child processes, the database connection and the
  cryptographic libraries are parameters. The lemmas show that a host started on behalf of a control plane accepts the
  configuration it is given and the tokens that control plane issues for it.
\<close>

section \<open>The entry point\<close>

definition run_process :: "(string \<Rightarrow> string) \<Rightarrow> environment \<Rightarrow> unit result \<Rightarrow> unit result \<Rightarrow> unit result" where
  "run_process debug get control_plane host =
     (let role = get_or get ''DURABLE_OBJECT_PROCESS_ROLE'' ''host'' in
      if role = ''control_plane'' then control_plane
      else if role = ''host'' then host
      else Inl (Bail (''unsupported DURABLE_OBJECT_PROCESS_ROLE '' @ debug role)))"

text \<open>The reads of the parent's pipe: how many bytes each one gave.\<close>

fun wait_for_parent_stdin_close :: "nat result list \<Rightarrow> bool" where
  "wait_for_parent_stdin_close [] = False"
| "wait_for_parent_stdin_close (Inl e # reads) = True"
| "wait_for_parent_stdin_close (Inr n # reads) = (n = 0 \<or> wait_for_parent_stdin_close reads)"

datatype signal_event = CtrlC | ParentRead "nat result"

fun shutdown_signal :: "environment \<Rightarrow> signal_event list \<Rightarrow> bool" where
  "shutdown_signal get [] = False"
| "shutdown_signal get (CtrlC # events) = True"
| "shutdown_signal get (ParentRead r # events) =
     (get ''DURABLE_OBJECT_PARENT_LIFETIME_STDIN'' \<noteq> None \<and> wait_for_parent_stdin_close [r] \<or> shutdown_signal get events)"

section \<open>The control plane\<close>

record ('sk, 'vk, 'd, 'g) control_plane_io =
  io_decode :: "string \<Rightarrow> string result"
  io_load_key :: "string \<Rightarrow> ('sk \<times> 'vk result) result"
  io_keys_to_json :: "'vk jwk list \<Rightarrow> string result"
  io_parse_jwks :: "string \<Rightarrow> 'vk jwk list result"
  io_connect_database :: "string \<Rightarrow> 'd result"
  io_storage_signer :: "buckets \<Rightarrow> 'g result"
  io_parse_scheme :: "string \<Rightarrow> string result"
  io_http_client :: "unit result"

record ('sk, 'vk, 'd, 'g) control_plane_parts =
  part_issuer :: "('sk, 'vk) jwt_issuer"
  part_auth :: "'vk jwt_verifier"
  part_database :: 'd
  part_storage_urls :: 'g
  part_provisioner :: "(string \<times> string \<times> sandbox_runtime_config) option"
  part_socket_events :: "(string \<times> string) option"
  part_socket_authenticator :: "(string \<times> string) option"
  part_admin :: "('sk, 'vk) admin_service"

definition verifier_keys_json :: "('vk jwk list \<Rightarrow> string result) \<Rightarrow> ('sk, 'vk) jwt_issuer \<Rightarrow> string result" where
  "verifier_keys_json to_json issuer = to_json (jwks issuer)"

definition transpose_map :: "('a \<Rightarrow> 'b result) \<Rightarrow> 'a option \<Rightarrow> 'b option result" where
  "transpose_map f x = (case x of None \<Rightarrow> Inr None | Some a \<Rightarrow> and_then (f a) (\<lambda>b. Inr (Some b)))"

definition sandbox_provisioner :: "sandbox_provider_config option \<Rightarrow> (string \<times> string \<times> sandbox_runtime_config) option result" where
  "sandbox_provisioner =
     transpose_map (\<lambda>config.
       and_then (command_provider_new (sp_provider_name config) (sp_command config)) (\<lambda>_.
       Inr (sp_provider_name config, sp_command config, sp_runtime config)))"

definition control_plane_routes ::
    "('sk, 'vk, 'd, 'g) control_plane_io \<Rightarrow> 'a control_plane_config \<Rightarrow> ('sk, 'vk, 'd, 'g) control_plane_parts result" where
  "control_plane_routes io config =
     (let lifetime = 1000 * unat (cc_jwt_max_lifetime_seconds config) in
      and_then (from_base64_pkcs8 (io_decode io) (io_load_key io) (cc_jwt_signing_key config) (cc_jwt_key_id config)
        (cc_jwt_issuer config) (cc_authority_audience config) (cc_invocation_audience config) lifetime) (\<lambda>issuer.
      and_then (verifier_keys_json (io_keys_to_json io) issuer) (\<lambda>keys_json.
      and_then (for_scope (io_parse_jwks io) keys_json (cc_jwt_issuer config) (cc_authority_audience config) ControlPlane lifetime) (\<lambda>auth.
      and_then (io_connect_database io (cc_postgres_url config)) (\<lambda>database.
      and_then (io_storage_signer io (cc_standard_buckets config)) (\<lambda>storage_urls.
      and_then (sandbox_provisioner (cc_sandbox_provider config)) (\<lambda>provisioner.
      and_then (transpose_map (\<lambda>(url, token). event_sink_new (io_parse_scheme io) url token) (cc_socket_event_sink config)) (\<lambda>socket_events.
      and_then (transpose_map (\<lambda>(url, token). socket_authenticator_new (io_parse_scheme io) (io_http_client io) url token)
        (cc_socket_authenticator config)) (\<lambda>socket_authenticator.
      and_then (admin_new (cc_admin_token config) issuer) (\<lambda>admin.
      Inr \<lparr>part_issuer = issuer, part_auth = auth, part_database = database, part_storage_urls = storage_urls,
           part_provisioner = provisioner, part_socket_events = socket_events,
           part_socket_authenticator = socket_authenticator, part_admin = admin\<rparr>))))))))))"

text \<open>\<open>bind\<close> opens the listener and \<open>serve\<close> runs the routes until the shutdown.\<close>

definition serve_control_plane ::
    "('sk, 'vk, 'd, 'g) control_plane_io \<Rightarrow> ('a \<Rightarrow> 'l result) \<Rightarrow> ('l \<Rightarrow> ('sk, 'vk, 'd, 'g) control_plane_parts \<Rightarrow> unit result)
     \<Rightarrow> 'a control_plane_config \<Rightarrow> unit result" where
  "serve_control_plane io bind serve config =
     and_then (control_plane_routes io config) (\<lambda>routes.
     and_then (with_context (bind (cc_bind config)) ''bind durable-object control plane'') (\<lambda>listener.
     with_context (serve listener routes) ''serve durable-object control plane''))"

section \<open>The actor host\<close>

definition invocation_auth :: "(string \<Rightarrow> 'vk jwk list result) \<Rightarrow> 'a actor_host_config \<Rightarrow> 'vk jwt_verifier result" where
  "invocation_auth parse_jwks config =
     for_scope parse_jwks (hc_jwt_public_keys config) (hc_jwt_issuer config) (hc_invocation_jwt_audience config) Invocation
       (1000 * unat (hc_jwt_max_lifetime_seconds config))"

text \<open>\<open>bind\<close> opens the listener and tells its address; \<open>publish\<close> writes the route to a file.\<close>

definition bind_host ::
    "('a \<Rightarrow> ('l \<times> string) result) \<Rightarrow> ('a \<Rightarrow> string) \<Rightarrow> (string \<Rightarrow> 'a actor_host_config \<Rightarrow> string result) \<Rightarrow> (string \<Rightarrow> string \<Rightarrow> unit result)
     \<Rightarrow> 'a actor_host_config \<Rightarrow> ('l \<times> string \<times> host_endpoint) result" where
  "bind_host bind show_address route_of publish config =
     and_then (with_context (bind (hc_host_bind config)) (''bind actor host at '' @ show_address (hc_host_bind config))) (\<lambda>(listener, bound).
     and_then (route_of bound config) (\<lambda>route.
     and_then (case hc_route_file config of
                 None \<Rightarrow> Inr ()
               | Some path \<Rightarrow> with_context (publish path route) (''write actor host route to '' @ path)) (\<lambda>_.
     Inr (listener, route, \<lparr>endpoint_id = hc_host_id config, endpoint_route = route\<rparr>))))"

definition connect_executor :: "'l result \<Rightarrow> 'c result \<Rightarrow> 'e result \<Rightarrow> ('e \<times> 'c) result" where
  "connect_executor bound spawned accepted =
     and_then bound (\<lambda>listener.
     and_then (with_context spawned ''start JavaScript actor executor'') (\<lambda>javascript.
     and_then accepted (\<lambda>connection. Inr (connection, javascript))))"

text \<open>\<^verbatim>\<open>try_join!\<close> runs its futures together and reports the failure that comes \<open>first\<close>.\<close>

definition errors_of :: "'a result \<Rightarrow> error list" where
  "errors_of r = (case r of Inl e \<Rightarrow> [e] | Inr _ \<Rightarrow> [])"

definition connect_host_dependencies :: "(error list \<Rightarrow> error) \<Rightarrow> 'c result \<Rightarrow> 'l result \<Rightarrow> 'e result \<Rightarrow> ('c \<times> 'l \<times> 'e) result" where
  "connect_host_dependencies first control_plane listener executor =
     (case (control_plane, listener, executor) of
        (Inr c, Inr l, Inr e) \<Rightarrow> Inr (c, l, e)
      | _ \<Rightarrow> Inl (first (errors_of control_plane @ errors_of listener @ errors_of executor)))"

record ('a, 'l, 'e, 'c, 'w) host_io =
  hio_first :: "error list \<Rightarrow> error"
  hio_control_plane :: "cp_client result"
  hio_listener :: "('l \<times> string \<times> host_endpoint) result"
  hio_executor :: "('e \<times> 'c) result"
  hio_register :: "cp_client \<Rightarrow> host_lease_request \<Rightarrow> 'w \<Rightarrow> host_lease result \<times> 'w"
  hio_clock :: "u64 result \<times> int \<times> u64 result \<times> int"

record ('vk, 'l, 'e, 'c, 'w) prepared_actor_host =
  pr_invocation_auth :: "'vk jwt_verifier"
  pr_listener :: 'l
  pr_route :: string
  pr_executor_connection :: 'e
  pr_javascript :: 'c
  pr_host :: "'w actor_host"
  pr_lease :: lease_maintainer
  pr_renewal :: renewal_task

text \<open>
  The lease is registered last, once the control plane answers, the listener is bound and the actor process is attached.
  The clock is read before the request and, at an anchor, after the answer; the task starts at the last instant.
\<close>

definition prepare_actor_host ::
    "(string \<Rightarrow> 'vk jwk list result) \<Rightarrow> ('a, 'l, 'e, 'c, 'w) host_io \<Rightarrow> 'a actor_host_config \<Rightarrow> 'w
     \<Rightarrow> ('vk, 'l, 'e, 'c, 'w) prepared_actor_host result \<times> 'w" where
  "prepare_actor_host parse_jwks io config w =
     (case and_then (invocation_auth parse_jwks config) (\<lambda>auth.
           and_then (connect_host_dependencies (hio_first io) (hio_control_plane io) (hio_listener io) (hio_executor io))
             (\<lambda>(client, (listener, route, endpoint), (connection, javascript)).
           and_then (maintainer_new endpoint (hc_session_id config) (uint (hc_lease_duration_ms config) * ms_ns)
             (uint (hc_renew_every_ms config) * ms_ns)) (\<lambda>lease.
           Inr (auth, client, listener, route, endpoint, connection, javascript, lease)))) of
        Inl e \<Rightarrow> (Inl e, w)
      | Inr (auth, client, listener, route, endpoint, connection, javascript, lease) \<Rightarrow>
          (case hio_clock io of (local_now, anchor, now, instant) \<Rightarrow>
             (case renew_begin lease local_now of
                Inl e \<Rightarrow> (Inl e, w)
              | Inr valid_until \<Rightarrow>
                  (case hio_register io client (renew_request lease) w of
                     (registered, w') \<Rightarrow>
                       (and_then (renewal_start (renew_finish valid_until registered anchor now) instant) (\<lambda>renewal.
                        Inr \<lparr>pr_invocation_auth = auth, pr_listener = listener, pr_route = route, pr_executor_connection = connection,
                             pr_javascript = javascript, pr_host = host_new endpoint (hc_namespace_id config) w', pr_lease = lease,
                             pr_renewal = renewal\<rparr>), w')))))"

text \<open>
  \<open>ready\<close> tells the actor process that the host is up; \<open>wait\<close> is the wait for what stops the host. A host that could
  not be prepared or announced returns at once, without stopping anything.
\<close>

definition serve_actor_host ::
    "(string \<Rightarrow> 'vk jwk list result) \<Rightarrow> ('a, 'l, 'e, 'c, 'w) host_io
     \<Rightarrow> (('vk, 'l, 'e, 'c, 'w) prepared_actor_host \<Rightarrow> unit result)
     \<Rightarrow> (('vk, 'l, 'e, 'c, 'w) prepared_actor_host \<Rightarrow> 'w \<Rightarrow> unit result \<times> 'w)
     \<Rightarrow> (('vk, 'l, 'e, 'c, 'w) prepared_actor_host \<Rightarrow> 'w host_shutdown) \<Rightarrow> 'a actor_host_config \<Rightarrow> 'w \<Rightarrow> unit result \<times> 'w" where
  "serve_actor_host parse_jwks io ready wait shutdown config w =
     (case prepare_actor_host parse_jwks io config w of
        (Inl e, w1) \<Rightarrow> (Inl e, w1)
      | (Inr prepared, w1) \<Rightarrow>
          (case ready prepared of
             Inl e \<Rightarrow> (Inl e, w1)
           | Inr _ \<Rightarrow>
               (case wait prepared w1 of (stopped, w2) \<Rightarrow> stop_host (shutdown prepared) stopped w2)))"

section \<open>The environment of a started host\<close>

text \<open>\<^verbatim>\<open>hostEnvironment\<close>: the variables the host reads; \<open>private\<close> when the region has a private network.\<close>

definition host_environment :: "bool \<Rightarrow> ensure_host_request \<Rightarrow> environment" where
  "host_environment private request =
     [''DURABLE_OBJECT_PROCESS_ROLE'' \<mapsto> ''host'',
      ''DURABLE_OBJECT_HOST_TOKEN'' \<mapsto> ehr_host_token request,
      ''DURABLE_OBJECT_JWT_PUBLIC_KEYS'' \<mapsto> ehr_jwt_public_keys request,
      ''DURABLE_OBJECT_NAMESPACE_ID'' \<mapsto> ehr_namespace_id request,
      ''DURABLE_OBJECT_CONTROL_PLANE_URL'' \<mapsto> ehr_control_plane_url request,
      ''DURABLE_OBJECT_JWT_ISSUER'' \<mapsto> ehr_jwt_issuer request,
      ''DURABLE_OBJECT_INVOKE_JWT_AUDIENCE'' \<mapsto> ehr_invocation_jwt_audience request,
      ''DURABLE_OBJECT_HOST_ID'' \<mapsto> host_str (ehr_host_id request),
      ''DURABLE_OBJECT_SESSION_ID'' \<mapsto> ehr_session_id request,
      ''DURABLE_OBJECT_REGION'' \<mapsto> ehr_canonical_region request,
      ''DURABLE_OBJECT_CODE_REVISION'' \<mapsto> ehr_code_revision request,
      ''DURABLE_OBJECT_EXECUTOR_SOCKET'' \<mapsto> ''/tmp/durable-object-executor.sock'',
      ''DURABLE_OBJECT_HOST_READY_FILE'' \<mapsto> ''/tmp/durable-object-ready'',
      ''DURABLE_OBJECT_HOST_BIND'' \<mapsto> (if private then ''[::]:7101'' else ''0.0.0.0:7101''),
      ''DURABLE_OBJECT_ACTOR_IDLE_TIMEOUT_MS'' \<mapsto> show_u64 (ehr_actor_idle_timeout_ms request),
      ''DURABLE_OBJECT_HOST_IDLE_TIMEOUT_MS'' \<mapsto> show_u64 (ehr_host_idle_timeout_ms request)] ++
     (case ehr_actor_entrypoint request of
        None \<Rightarrow> Map.empty
      | Some entrypoint \<Rightarrow> if entrypoint = [] then Map.empty else [''DURABLE_OBJECT_ENTRYPOINT'' \<mapsto> entrypoint]) ++
     (if private
      then [''DURABLE_OBJECT_HOST_PRIVATE_HOSTNAME'' \<mapsto> ''i6pn.modal.local'', ''DURABLE_OBJECT_HOST_ROUTE_FILE'' \<mapsto> ''/tmp/durable-object-route'']
      else [''DURABLE_OBJECT_HOST_PUBLIC_ROUTE_FILE'' \<mapsto> ''/tmp/durable-object-route''])"

section \<open>Numbers in the environment\<close>

lemma parse_digits_append: "parse_digits acc (xs @ ys) = and_then (parse_digits acc xs) (\<lambda>a. parse_digits a ys)"
  by (induction acc xs rule: parse_digits.induct) simp_all

lemma parse_digits_show: "n < 2 ^ 64 \<Longrightarrow> parse_digits 0 (show_nat n) = Inr (word_of_nat n)"
proof (induction n rule: show_nat.induct)
  case (1 n)
  have digit: "parse_digits acc [digit_char d] = Inr (10 * acc + word_of_nat d)" if "d < 10" "10 * uint acc + int d < 2 ^ 64" for acc d
  proof -
    have b: "byte (digit_char d) = 48 + d" using that(1) by (rule byte_digit_char)
    have "(of_char (digit_char d) :: int) = 48 + int d" "(of_char (digit_char d) :: u64) = 48 + word_of_nat d"
      using arg_cong [OF b, of int] arg_cong [OF b, of "word_of_nat :: nat \<Rightarrow> u64"] by (simp_all add: of_nat_of_char)
    moreover have "is_ascii_digit (digit_char d)" using b that(1) by (simp add: is_ascii_digit_def)
    ultimately show ?thesis using that(2) by simp
  qed
  show ?case
  proof (cases "n < 10")
    case True
    with digit [of n 0] show ?thesis by (simp add: show_nat.simps [of n])
  next
    case False
    have small: "n div 10 < 2 ^ 64" using 1(2) by simp
    then have "uint (word_of_nat (n div 10) :: u64) = int (n div 10)" by (simp add: uint_nat unat_of_nat)
    moreover have "10 * int (n div 10) + int (n mod 10) = int n" by presburger
    moreover have "(10 * word_of_nat (n div 10) + word_of_nat (n mod 10) :: u64) = word_of_nat n"
      by (metis of_nat_add of_nat_mult of_nat_numeral mult_div_mod_eq)
    ultimately show ?thesis using 1 False small digit [of "n mod 10" "word_of_nat (n div 10)"]
      by (simp add: show_nat.simps [of n] parse_digits_append)
  qed
qed

lemma parse_u64_show [simp]: "parse_u64 (show_u64 n) = Inr n"
proof -
  have digits: "\<forall>c \<in> set (show_u64 n). is_ascii_digit c" by (rule show_nat_digits)
  obtain c cs where c: "show_u64 n = c # cs" using show_nat_not_Nil [of "unat n"] by (cases "show_u64 n") auto
  have "c \<noteq> CHR ''+''" using digits c by (auto simp: is_ascii_digit_def)
  moreover have "parse_digits 0 (show_u64 n) = Inr n"
    using parse_digits_show [of "unat n"] unsigned_less [of n] by simp
  ultimately show ?thesis by (simp add: parse_u64_def c)
qed


section \<open>What a control plane gives its hosts\<close>

lemma control_plane_parts:
  assumes "control_plane_routes io config = Inr parts"
  obtains provisioned where
    "from_base64_pkcs8 (io_decode io) (io_load_key io) (cc_jwt_signing_key config) (cc_jwt_key_id config)
        (cc_jwt_issuer config) (cc_authority_audience config) (cc_invocation_audience config)
        (1000 * unat (cc_jwt_max_lifetime_seconds config)) = Inr (part_issuer parts)"
    "sandbox_provisioner (cc_sandbox_provider config) = Inr provisioned" "part_provisioner parts = provisioned"
  using assms by (auto simp: control_plane_routes_def Let_def and_then_eq_Inr)

lemma issuer_fields:
  assumes "from_base64_pkcs8 decode load key key_id issuer authority_audience invocation_audience lifetime = Inr i"
  shows "iss_issuer i = issuer" "iss_invocation_audience i = invocation_audience" "issuer \<noteq> []" "invocation_audience \<noteq> []"
    "jwk_key_id (iss_public_key i) = Some (iss_key_id i)" "jwk_algorithm (iss_public_key i) = Some ''EdDSA''"
  using assms by (auto simp: from_base64_pkcs8_def and_then_eq_Inr split: if_splits)

lemma idle_timeout_range: "idle_timeout get name d = Inr v \<Longrightarrow> 0 < v \<and> v \<le> max_idle_timeout_ms"
  by (auto simp: idle_timeout_def and_then_eq_Inr word_le_def word_less_def split: if_splits)

lemma configured_runtime:
  assumes "control_plane_config_from_lookup parse get = Inr config" "cc_sandbox_provider config = Some sp"
  shows "rt_jwt_issuer (sp_runtime sp) = cc_jwt_issuer config" "rt_invocation_jwt_audience (sp_runtime sp) = cc_invocation_audience config"
    "0 < rt_host_idle_timeout_ms (sp_runtime sp)" "rt_host_idle_timeout_ms (sp_runtime sp) \<le> max_idle_timeout_ms"
    "\<exists>url scheme host. ps_url parse url = Inr (scheme, host, rt_control_plane_url (sp_runtime sp))"
proof -
  have sp: "read_sandbox_provider_config parse get (cc_jwt_issuer config) (cc_invocation_audience config) = Inr (Some sp)"
    using assms by (auto simp: control_plane_config_from_lookup_def Let_def and_then_eq_Inr split: if_splits)
  then obtain host_idle u where idle: "idle_timeout get ''DURABLE_OBJECT_HOST_IDLE_TIMEOUT_MS'' 300000 = Inr host_idle"
      "rt_host_idle_timeout_ms (sp_runtime sp) = host_idle"
    and rt: "rt_jwt_issuer (sp_runtime sp) = cc_jwt_issuer config" "rt_invocation_jwt_audience (sp_runtime sp) = cc_invocation_audience config"
    and url: "validated_http_url parse u ''DURABLE_OBJECT_CONTROL_PLANE_URL'' = Inr (rt_control_plane_url (sp_runtime sp))"
    by (auto simp: read_sandbox_provider_config_def and_then_eq_Inr split: option.splits if_splits)
  from rt show "rt_jwt_issuer (sp_runtime sp) = cc_jwt_issuer config"
    "rt_invocation_jwt_audience (sp_runtime sp) = cc_invocation_audience config" by simp_all
  from idle_timeout_range [OF idle(1)] idle(2) show "0 < rt_host_idle_timeout_ms (sp_runtime sp)"
    "rt_host_idle_timeout_ms (sp_runtime sp) \<le> max_idle_timeout_ms" by simp_all
  from url show "\<exists>url scheme host. ps_url parse url = Inr (scheme, host, rt_control_plane_url (sp_runtime sp))"
    by (auto simp: validated_http_url_def and_then_eq_Inr with_context_def split: sum.splits if_splits)
qed

text \<open>
  What the libraries do for a host: its parsers accept the addresses and identifiers it is given, and a key set reads back as it was
  written, in some text.
\<close>

definition host_parses :: "'a parsers \<Rightarrow> string \<Rightarrow> bool" where
  "host_parses parse session \<longleftrightarrow> ps_uuid parse session = Inr () \<and>
     (\<exists>a. ps_address parse ''[::]:7101'' = Inr a) \<and> (\<exists>a. ps_address parse ''0.0.0.0:7101'' = Inr a)"

definition keys_read_back :: "('sk, 'vk, 'd, 'g) control_plane_io \<Rightarrow> ('sk, 'vk) jwt_issuer \<Rightarrow> bool" where
  "keys_read_back io issuer \<longleftrightarrow> (\<forall>json. io_keys_to_json io (jwks issuer) = Inr json \<longrightarrow> json \<noteq> [] \<and> io_parse_jwks io json = Inr (jwks issuer))"

lemma provisioned_request:
  assumes "provision_request lib issuer keys_json runtime now host_uuid session spec region = Inr request"
  obtains issued where "issue_host lib now issuer (spec_namespace_id spec) (launch_host_id spec host_uuid) session (spec_code_revision spec) region = Inr issued"
    "ehr_host_token request = tok_token issued" "keys_json = Inr (ehr_jwt_public_keys request)"
    "ehr_namespace_id request = spec_namespace_id spec" "ehr_host_id request = launch_host_id spec host_uuid"
    "ehr_session_id request = session" "ehr_control_plane_url request = rt_control_plane_url runtime"
    "ehr_jwt_issuer request = rt_jwt_issuer runtime" "ehr_invocation_jwt_audience request = rt_invocation_jwt_audience runtime"
    "ehr_host_idle_timeout_ms request = rt_host_idle_timeout_ms runtime"
  using assms by (auto simp: provision_request_def Let_def and_then_eq_Inr)

text \<open>The host's configuration from the environment of such a request.\<close>

lemma host_environment_config:
  assumes nonempty: "ehr_control_plane_url request \<noteq> []" "ehr_host_token request \<noteq> []" "ehr_jwt_public_keys request \<noteq> []"
      "ehr_session_id request \<noteq> []"
    and ns: "scope_validate \<lparr>scope_namespace_id = ehr_namespace_id request\<rparr> = Inr ()"
    and host: "starts_with (''host.v1.'' @ ehr_namespace_id request @ ''.'') (host_str (ehr_host_id request))"
    and parse: "host_parses parse (ehr_session_id request)"
    and idle: "0 < ehr_host_idle_timeout_ms request" "ehr_host_idle_timeout_ms request \<le> max_idle_timeout_ms"
  obtains config where "host_config_from_lookup parse (host_environment private request) = Inr config"
    "hc_host_id config = ehr_host_id request" "hc_session_id config = ehr_session_id request"
    "hc_jwt_public_keys config = ehr_jwt_public_keys request" "hc_jwt_issuer config = ehr_jwt_issuer request"
    "hc_invocation_jwt_audience config = ehr_invocation_jwt_audience request" "hc_jwt_max_lifetime_seconds config = 1800"
proof -
  let ?get = "host_environment private request"
  have env: "?get ''DURABLE_OBJECT_CONTROL_PLANE_URL'' = Some (ehr_control_plane_url request)" "?get ''DURABLE_OBJECT_HOST_TOKEN'' = Some (ehr_host_token request)"
      "?get ''DURABLE_OBJECT_JWT_PUBLIC_KEYS'' = Some (ehr_jwt_public_keys request)" "?get ''DURABLE_OBJECT_NAMESPACE_ID'' = Some (ehr_namespace_id request)"
      "?get ''DURABLE_OBJECT_HOST_ID'' = Some (host_str (ehr_host_id request))" "?get ''DURABLE_OBJECT_SESSION_ID'' = Some (ehr_session_id request)"
      "?get ''DURABLE_OBJECT_JWT_ISSUER'' = Some (ehr_jwt_issuer request)"
      "?get ''DURABLE_OBJECT_INVOKE_JWT_AUDIENCE'' = Some (ehr_invocation_jwt_audience request)"
      "?get ''DURABLE_OBJECT_HOST_BIND'' = Some (if private then ''[::]:7101'' else ''0.0.0.0:7101'')"
      "?get ''DURABLE_OBJECT_HOST_IDLE_TIMEOUT_MS'' = Some (show_u64 (ehr_host_idle_timeout_ms request))"
      "?get ''DURABLE_OBJECT_HOST_ROUTE'' = None" "?get ''DURABLE_OBJECT_LEASE_MS'' = None" "?get ''DURABLE_OBJECT_RENEW_MS'' = None"
      "?get ''DURABLE_OBJECT_JWT_MAX_TTL_SECONDS'' = None"
      "?get ''DURABLE_OBJECT_HOST_PRIVATE_HOSTNAME'' = (if private then Some ''i6pn.modal.local'' else None)"
      "?get ''DURABLE_OBJECT_HOST_ROUTE_FILE'' = (if private then Some ''/tmp/durable-object-route'' else None)"
      "?get ''DURABLE_OBJECT_HOST_PUBLIC_ROUTE_FILE'' = (if private then None else Some ''/tmp/durable-object-route'')"
    by (auto simp: host_environment_def map_add_def split: option.splits)
  have trimmed: "is_trimmed ''i6pn.modal.local''" by (simp add: graphic_trimmed graphic_def)
  obtain bind where bind: "ps_address parse (if private then ''[::]:7101'' else ''0.0.0.0:7101'') = Inr bind"
    using parse by (cases "private") (auto simp: host_parses_def)
  have "ehr_namespace_id request \<noteq> []" "host_str (ehr_host_id request) \<noteq> []"
    using ns host by (auto simp: scope_validate_def validate_component_def and_then_eq_Inr starts_with_def split: if_splits)
  then have identity: "host_identity parse ?get = Inr (ehr_namespace_id request, ehr_host_id request, ehr_session_id request)"
    using env nonempty ns host parse by (simp add: host_identity_def required_def host_parses_def)
  have routes: "host_route_settings parse ?get = Inr (None, if private then Some ''i6pn.modal.local'' else None,
      if private then Some ''/tmp/durable-object-route'' else None, if private then None else Some ''/tmp/durable-object-route'')"
    using env trimmed by (simp add: host_route_settings_def Let_def)
  have durations: "host_durations ?get = Inr (1800, 30000, 10000, ehr_host_idle_timeout_ms request)"
    using env idle by (simp add: host_durations_def duration_seconds_def duration_ms_def parsed_or_def)
  show thesis
    using env nonempty identity routes durations bind
    by (intro that) (auto simp: host_config_from_lookup_def required_def get_or_def)
qed


lemma own_keys_verify:
  assumes keys: "parse_jwks json = Inr (jwks issuer)" and vk: "jwk_decoding_key (iss_public_key issuer) = Inr vk"
    and jwk: "jwk_key_id (iss_public_key issuer) = Some (iss_key_id issuer)" "jwk_algorithm (iss_public_key issuer) = Some ''EdDSA''"
    and nonempty: "iss_issuer issuer \<noteq> []" "audience \<noteq> []" "lifetime \<noteq> 0"
  shows "\<exists>ver. for_scope parse_jwks json (iss_issuer issuer) audience purpose lifetime = Inr ver \<and> verifies ver issuer vk audience \<and>
    ver_purpose ver = purpose \<and> ver_max_lifetime_ms ver = lifetime"
  using assms by (simp add: for_scope_def decode_public_keys_def jwks_def from_decoded_public_keys_def verifies_def ok_or_def with_context_def)

text \<open>
  Claim C23. A host started for a control plane can work for it: when the control plane's configuration was accepted and it came
  up, the environment that the provider makes of its provisioning request, on a private network or not, is accepted by the host
  process as the configuration of exactly the requested host and session; the verifier built from it exists; and that
  verifier accepts every invocation token the control plane later issues for this host, with exactly the capability the
  token was issued for.
\<close>

theorem provisioned_host_accepts:
  assumes config: "control_plane_config_from_lookup parse get = Inr config" "cc_sandbox_provider config = Some sp"
    and up: "control_plane_routes io config = Inr parts"
    and keys: "keys_read_back io (part_issuer parts)" "jwk_decoding_key (iss_public_key (part_issuer parts)) = Inr vk"
    and urls: "\<And>url scheme host normal. ps_url parse url = Inr (scheme, host, normal) \<Longrightarrow> normal \<noteq> []"
    and request: "provision_request lib (part_issuer parts) (verifier_keys_json (io_keys_to_json io) (part_issuer parts)) (sp_runtime sp)
      (Inr now) host_uuid session spec region = Inr request" "spec_validate spec = Inr ()"
    and session: "session \<noteq> []" "host_parses host_parse session" "uuid_parse lib session"
    and token: "jwt_faithful lib (iss_encoding_key (part_issuer parts)) vk (t div 1000)"
    and time: "0 \<le> t" "t \<le> 9007199254740991"
  shows "\<exists>c ver. host_config_from_lookup host_parse (host_environment private request) = Inr c \<and>
    hc_host_id c = launch_host_id spec host_uuid \<and> hc_session_id c = session \<and> invocation_auth (io_parse_jwks io) c = Inr ver \<and>
    (\<forall>actor revision rg epoch v url wexp tok. namespace_id actor = spec_namespace_id spec \<longrightarrow>
      (if v = 0 then url = [] else validate_url (auth_parse_url lib) url = Inr ()) \<longrightarrow>
      issue_invocation_target lib (Inr t) (part_issuer parts) actor (hc_host_id c) session revision rg epoch v url wexp = Inr tok \<longrightarrow>
      (\<exists>prin. authenticate_authorization lib (Inr (t div 1000)) ver (''Bearer '' @ tok_token tok) = Inr prin \<and>
         prin_invocation prin = Some \<lparr>cap_actor = actor, cap_host_id = hc_host_id c, cap_owner_epoch = epoch,
           cap_state_version = v, cap_state_read_url = url\<rparr>))"
proof -
  let ?issuer = "part_issuer parts"
  obtain key where made: "from_base64_pkcs8 (io_decode io) (io_load_key io) (cc_jwt_signing_key config) (cc_jwt_key_id config)
        (cc_jwt_issuer config) (cc_authority_audience config) (cc_invocation_audience config) key = Inr ?issuer"
    using control_plane_parts [OF up] by blast
  note fields = issuer_fields [OF made] and runtime = configured_runtime [OF config]
  obtain issued where r: "ehr_host_token request = tok_token issued"
      "verifier_keys_json (io_keys_to_json io) ?issuer = Inr (ehr_jwt_public_keys request)"
      "ehr_namespace_id request = spec_namespace_id spec" "ehr_host_id request = launch_host_id spec host_uuid"
      "ehr_session_id request = session" "ehr_control_plane_url request = rt_control_plane_url (sp_runtime sp)"
      "ehr_jwt_issuer request = rt_jwt_issuer (sp_runtime sp)" "ehr_invocation_jwt_audience request = rt_invocation_jwt_audience (sp_runtime sp)"
      "ehr_host_idle_timeout_ms request = rt_host_idle_timeout_ms (sp_runtime sp)"
    and issue: "issue_host lib (Inr now) ?issuer (spec_namespace_id spec) (launch_host_id spec host_uuid) session (spec_code_revision spec) region = Inr issued"
    by (rule provisioned_request [OF request(1)])
  have json: "ehr_jwt_public_keys request \<noteq> []" "io_parse_jwks io (ehr_jwt_public_keys request) = Inr (jwks ?issuer)"
    using keys(1) r(2) by (auto simp: keys_read_back_def verifier_keys_json_def)
  have "tok_token issued \<noteq> []"
    using issue token by (auto simp: issue_host_def issue_def jwt_faithful_def Let_def and_then_eq_Inr)
  moreover have "rt_control_plane_url (sp_runtime sp) \<noteq> []" using runtime(5) urls by blast
  moreover have "scope_validate \<lparr>scope_namespace_id = spec_namespace_id spec\<rparr> = Inr ()"
    using request(2) by (auto simp: spec_validate_def and_then_eq_Inr)
  moreover have prefix: "starts_with (''host.v1.'' @ spec_namespace_id spec @ ''.'') (host_str (launch_host_id spec host_uuid))"
    by (simp add: starts_with_def launch_host_id_def)
  ultimately obtain c where c: "host_config_from_lookup host_parse (host_environment private request) = Inr c"
    "hc_host_id c = launch_host_id spec host_uuid" "hc_session_id c = session"
    "hc_jwt_public_keys c = ehr_jwt_public_keys request" "hc_jwt_issuer c = iss_issuer ?issuer"
    "hc_invocation_jwt_audience c = iss_invocation_audience ?issuer" "hc_jwt_max_lifetime_seconds c = 1800"
    using host_environment_config [of request host_parse "private"] r json(1) session runtime fields by (auto simp: word_less_def)
  obtain ver where ver: "invocation_auth (io_parse_jwks io) c = Inr ver" "verifies ver ?issuer vk (iss_invocation_audience ?issuer)"
      "ver_purpose ver = Invocation" "ver_max_lifetime_ms ver = 1800000"
    using own_keys_verify [of "io_parse_jwks io" "ehr_jwt_public_keys request" ?issuer vk "iss_invocation_audience ?issuer" 1800000 Invocation]
      json(2) keys(2) fields c by (auto simp: invocation_auth_def)
  have "\<exists>prin. authenticate_authorization lib (Inr (t div 1000)) ver (''Bearer '' @ tok_token tok) = Inr prin \<and>
         prin_invocation prin = Some \<lparr>cap_actor = actor, cap_host_id = hc_host_id c, cap_owner_epoch = epoch,
           cap_state_version = v, cap_state_read_url = url\<rparr>"
    if "namespace_id actor = spec_namespace_id spec" "if v = 0 then url = [] else validate_url (auth_parse_url lib) url = Inr ()"
      "issue_invocation_target lib (Inr t) ?issuer actor (hc_host_id c) session revision rg epoch v url wexp = Inr tok"
    for actor revision rg epoch v url wexp tok
    using invocation_token_accepted [OF token ver(2,3) _ time session(3) _ _ that(3)] ver(4) that(1,2) c(2) prefix by (auto split: if_splits)
  with c ver(1) show ?thesis by blast
qed


section \<open>A concrete start\<close>

definition plane_environment :: environment where
  "plane_environment =
     [''DURABLE_OBJECT_JWT_SIGNING_KEY'' \<mapsto> ''key'', ''DURABLE_OBJECT_JWT_KEY_ID'' \<mapsto> ''k1'', ''DURABLE_OBJECT_JWT_ISSUER'' \<mapsto> ''iss'',
      ''DURABLE_OBJECT_AUTHORITY_JWT_AUDIENCE'' \<mapsto> ''cp'', ''DURABLE_OBJECT_INVOKE_JWT_AUDIENCE'' \<mapsto> ''host'',
      ''DURABLE_OBJECT_JWT_MAX_TTL_SECONDS'' \<mapsto> ''3600'', ''DURABLE_OBJECT_ADMIN_TOKEN'' \<mapsto> ''admin'',
      ''DURABLE_OBJECT_STANDARD_BUCKETS'' \<mapsto> ''buckets'', ''DURABLE_OBJECT_POSTGRES_URL'' \<mapsto> ''postgres'',
      ''DURABLE_OBJECT_SANDBOX_PROVIDER'' \<mapsto> ''modal'', ''MODAL_TOKEN_ID'' \<mapsto> ''id'', ''MODAL_TOKEN_SECRET'' \<mapsto> ''secret'',
      ''DURABLE_OBJECT_CONTROL_PLANE_URL'' \<mapsto> ''http://control'']"

definition plane_parsers :: "string parsers" where
  "plane_parsers = sample_parsers\<lparr>ps_url := (\<lambda>s. Inr (''http'', Some s, s @ ''/'')), ps_buckets := (\<lambda>_. Inr [(''europe-west4'', ''bucket-a'')])\<rparr>"

definition plane_runtime :: sandbox_runtime_config where
  "plane_runtime = \<lparr>rt_control_plane_url = ''http://control/'', rt_jwt_issuer = ''iss'', rt_invocation_jwt_audience = ''host'',
     rt_actor_idle_timeout_ms = 60000, rt_host_idle_timeout_ms = 300000\<rparr>"

definition plane_io :: "(unit, unit, unit, unit) control_plane_io" where
  "plane_io = \<lparr>io_decode = Inr, io_load_key = (\<lambda>_. Inr ((), Inr ())), io_keys_to_json = (\<lambda>_. Inr ''keys''),
     io_parse_jwks = (\<lambda>_. Inr (jwks sample_issuer)), io_connect_database = (\<lambda>_. Inr ()), io_storage_signer = (\<lambda>_. Inr ()),
     io_parse_scheme = (\<lambda>_. Inr ''http''), io_http_client = Inr ()\<rparr>"

lemma plane_lifetime: "parse_u64 ''3600'' = Inr 3600"
  by code_simp

lemma plane_trimmed: "is_trimmed ''admin''" "is_trimmed ''id''" "is_trimmed ''secret''" "is_trimmed ''modal''"
  "is_trimmed ''little-durable-objects-modal''" "is_trimmed ''bucket-a''"
  by (simp_all add: graphic_trimmed graphic_def)

lemma plane_buckets: "validate_buckets [(''europe-west4'', ''bucket-a'')] = Inr ()"
  by (simp add: validate_buckets_def validate_bucket_def validate_region_def region_char_def ascii_defs plane_trimmed)

lemmas plane_values = plane_lifetime plane_trimmed plane_buckets

definition plane_config :: "string control_plane_config" where
  "plane_config = \<lparr>cc_bind = ''127.0.0.1:7100'', cc_jwt_signing_key = ''key'', cc_jwt_key_id = ''k1'', cc_jwt_issuer = ''iss'',
     cc_authority_audience = ''cp'', cc_invocation_audience = ''host'', cc_jwt_max_lifetime_seconds = 3600, cc_admin_token = ''admin'',
     cc_postgres_url = ''postgres'', cc_standard_buckets = [(''europe-west4'', ''bucket-a'')],
     cc_sandbox_provider = Some \<lparr>sp_provider_name = ''modal'', sp_command = ''little-durable-objects-modal'',
       sp_environment = [(''MODAL_TOKEN_ID'', ''id''), (''MODAL_TOKEN_SECRET'', ''secret'')], sp_runtime = plane_runtime\<rparr>,
     cc_socket_event_sink = None, cc_socket_authenticator = None\<rparr>"

lemma plane_config_accepted: "control_plane_config_from_lookup plane_parsers plane_environment = Inr plane_config"
  by (simp add: control_plane_config_from_lookup_def read_sandbox_provider_config_def plane_environment_def plane_parsers_def
      sample_parsers_def get_or_def required_def parsed_or_def provider_credential_def validated_http_url_def idle_timeout_def
      url_and_token_def socket_event_sink_config_def socket_authenticator_config_def plane_values plane_config_def plane_runtime_def Let_def)

lemma plane_issuer: "map_sum id part_issuer (control_plane_routes plane_io plane_config) = Inr sample_issuer"
  by (simp add: control_plane_routes_def plane_io_def plane_config_def from_base64_pkcs8_def verifier_keys_json_def for_scope_def
      decode_public_keys_def from_decoded_public_keys_def jwks_def sandbox_provisioner_def transpose_map_def command_provider_new_def
      admin_new_def plane_values sample_issuer_def with_context_def ok_or_def Let_def)

theorem provisioned_host_accepts_witness:
  "\<exists>parts request c. control_plane_routes plane_io plane_config = Inr parts \<and> ehr_namespace_id request = ''ns'' \<and>
     host_config_from_lookup sample_parsers (host_environment True request) = Inr c \<and> hc_session_id c = ''u1'' \<and>
     hc_host_id c = HostId ''host.v1.ns.r1.a''"
proof -
  let ?c = "host_claims sample_issuer ''ns'' host_a ''u1'' ''r1'' ''eu-west'' 5000 3605000"
  let ?lib = "sample_lib ?c"
  obtain parts where parts: "control_plane_routes plane_io plane_config = Inr parts" "part_issuer parts = sample_issuer"
    using plane_issuer by (cases "control_plane_routes plane_io plane_config") auto
  obtain sp where sp: "cc_sandbox_provider plane_config = Some sp" "sp_runtime sp = plane_runtime" by (simp add: plane_config_def)
  have "issue_host ?lib (Inr 5000) sample_issuer ''ns'' host_a ''u1'' ''r1'' ''eu-west'' = Inr \<lparr>tok_token = ''tok'', tok_expires_at_ms = 3605000\<rparr>"
    by (simp add: issue_host_def issue_def sample_lib_def Let_def duration_millis_def i64_checked_def i64_ok_def ok_or_def
        i64_saturating_def) (simp add: sample_issuer_def host_claims_def)
  then obtain request where request: "provision_request ?lib sample_issuer (verifier_keys_json (io_keys_to_json plane_io) sample_issuer)
      plane_runtime (Inr 5000) ''a'' ''u1'' sample_spec ''eu-west'' = Inr request" "ehr_namespace_id request = ''ns''"
    by (simp add: provision_request_def launch_host_id_def sample_spec_def verifier_keys_json_def plane_io_def)
  have "\<exists>c. host_config_from_lookup sample_parsers (host_environment True request) = Inr c \<and>
      hc_host_id c = launch_host_id sample_spec ''a'' \<and> hc_session_id c = ''u1''"
    using provisioned_host_accepts [of plane_parsers plane_environment plane_config sp plane_io parts "()" ?lib 5000 "''a''" "''u1''" sample_spec
        "''eu-west''" request sample_parsers 5000 True] plane_config_accepted sp parts request sample_spec_valid sample_lib_faithful
    by (auto simp: keys_read_back_def plane_io_def host_parses_def sample_parsers_def plane_parsers_def sample_issuer_def jwks_def sample_lib_def Let_def)
  with parts(1) request(2) show ?thesis by (auto simp: launch_host_id_def sample_spec_def)
qed


end
