(* ===== verification/Http_Api.thy ===== *)
theory Http_Api
  imports Public_Api Gateway
begin

text \<open>
  The control plane's HTTP surface as a whole: the routing tables of \<^verbatim>\<open>src/control_plane/public_api.rs\<close> and
  \<^verbatim>\<open>src/control_plane/websocket.rs\<close>, the extraction of path and body, and the handlers of \<^verbatim>\<open>Public_Api\<close> and \<^verbatim>\<open>Gateway\<close> behind
  them, on one state. The matching of paths and the decoding of bodies belong to the web library and are parameters.
  The lemmas show that no request changes anything or is granted anything without the credential of its endpoint.
\<close>

section \<open>Requests and routes\<close>

datatype http_method = MethodGet | MethodHead | MethodPut | MethodPost | OtherMethod

text \<open>
  \<open>rq_upgrade\<close>: whether the request is a websocket handshake, or the status with which the library refuses it.
\<close>

record http_request =
  rq_method :: http_method
  rq_path :: string
  rq_authorization :: "string result option"
  rq_protocols :: "string result option"
  rq_upgrade :: "nat + unit"
  rq_body :: string

datatype endpoint =
    JwksEndpoint
  | DeploymentEndpoint string
  | WorkflowTokensEndpoint string
  | TargetEndpoint actor_key
  | WebsocketEndpoint actor_key
  | ExternalSocketEndpoint string string
  | SocketEffectsEndpoint actor_key

type_synonym route_entry = "http_method \<times> string \<times> (string list \<Rightarrow> endpoint option)"

text \<open>The tuple of path parameters a handler takes.\<close>

definition actor_path :: "(actor_key \<Rightarrow> endpoint) \<Rightarrow> string list \<Rightarrow> endpoint option" where
  "actor_path f params =
     (case params of
        [namespace, type, ident] \<Rightarrow> Some (f \<lparr>namespace_id = namespace, actor_type = type, actor_id = ident\<rparr>)
      | _ \<Rightarrow> None)"

definition namespace_path :: "(string \<Rightarrow> endpoint) \<Rightarrow> string list \<Rightarrow> endpoint option" where
  "namespace_path f params = (case params of [namespace] \<Rightarrow> Some (f namespace) | _ \<Rightarrow> None)"

definition socket_router :: "route_entry list" where
  "socket_router =
     [(MethodGet, ''/v1/namespaces/{namespace_id}/actors/{actor_type}/{actor_id}/websocket'', actor_path WebsocketEndpoint),
      (MethodGet, ''/v1/socket/{trigger_id}/{actor_id}'',
       \<lambda>params. case params of [trigger_id, requested] \<Rightarrow> Some (ExternalSocketEndpoint trigger_id requested) | _ \<Rightarrow> None),
      (MethodPost, ''/v1/namespaces/{namespace_id}/actors/{actor_type}/{actor_id}/socket-effects'', actor_path SocketEffectsEndpoint)]"

definition api_router :: "route_entry list" where
  "api_router =
     [(MethodGet, ''/.well-known/jwks.json'', \<lambda>_. Some JwksEndpoint),
      (MethodPut, ''/v1/namespaces/{namespace_id}/deployment'', namespace_path DeploymentEndpoint),
      (MethodPost, ''/v1/namespaces/{namespace_id}/workflow-tokens'', namespace_path WorkflowTokensEndpoint),
      (MethodPost, ''/v1/namespaces/{namespace_id}/actors/{actor_type}/{actor_id}/target'', actor_path TargetEndpoint)] @ socket_router"

text \<open>A handler for GET also serves HEAD; \<open>matching\<close> gives the parameters of a path that fits a pattern.\<close>

definition serves :: "http_method \<Rightarrow> http_method \<Rightarrow> bool" where
  "serves registered method \<longleftrightarrow> method = registered \<or> registered = MethodGet \<and> method = MethodHead"

fun route_request :: "(string \<Rightarrow> string \<Rightarrow> string list option) \<Rightarrow> route_entry list \<Rightarrow> http_method \<Rightarrow> string \<Rightarrow> nat + endpoint" where
  "route_request matching [] method path = Inl 404"
| "route_request matching ((registered, pattern, handler) # routes) method path =
     (case matching pattern path of
        None \<Rightarrow> route_request matching routes method path
      | Some params \<Rightarrow>
          if \<not> serves registered method then Inl 405
          else (case handler params of None \<Rightarrow> Inl 500 | Some e \<Rightarrow> Inr e))"

abbreviation max_control_plane_message_bytes :: nat where "max_control_plane_message_bytes \<equiv> 16777216"

abbreviation max_socket_effects_request_bytes :: nat where "max_socket_effects_request_bytes \<equiv> 33554432"

text \<open>The body of a request, up to the limit of its router; \<open>decode\<close> is the library's decoding, with the status of its refusal.\<close>

definition extract_body :: "nat \<Rightarrow> (http_request \<Rightarrow> nat + 'b) \<Rightarrow> http_request \<Rightarrow> nat + 'b" where
  "extract_body limit decode request = (if length (rq_body request) > limit then Inl 413 else decode request)"

section \<open>Serving a request\<close>

record http_world =
  hw_database :: database
  hw_routes :: public_routes
  hw_gateway :: gateway

text \<open>What the handlers use: the service and its configuration, the libraries, fresh identifiers, and \<open>he_others\<close>, the statements
  of other connections in between.\<close>

record ('sk, 'vk) http_env =
  he_cp :: "('sk, 'vk) control_plane"
  he_admin :: "('sk, 'vk) admin_service"
  he_routing :: "host_provisioner option option"
  he_terminate :: "(host_launch_spec \<Rightarrow> string list \<Rightarrow> database \<Rightarrow> string list result \<times> database) option"
  he_warm :: "(host_launch_spec \<Rightarrow> string \<Rightarrow> database \<Rightarrow> unit result \<times> database) option"
  he_ambient :: ambient
  he_others :: "database \<Rightarrow> database"
  he_turns :: nat
  he_uuids :: "string \<times> string"
  he_authenticator :: "(socket_authorization_request \<Rightarrow> socket_authorization_error + socket_authorization) option"
  he_matching :: "string \<Rightarrow> string \<Rightarrow> string list option"
  he_deployment :: "http_request \<Rightarrow> nat + register_deployment_request"
  he_token_request :: "http_request \<Rightarrow> nat + issue_workflow_token_request"
  he_effects :: "http_request \<Rightarrow> nat + actor_socket_effect list"
  he_keys_to_vec :: "'vk jwk list \<Rightarrow> string result"
  he_keys_from_slice :: "string \<Rightarrow> json result"
  he_decode :: "string \<Rightarrow> string result"
  he_to_vec :: "json \<Rightarrow> string result"

datatype http_reply =
    LibraryRefused nat
  | ApiFailed api_error
  | SocketFailed socket_api_error
  | KeySet json
  | DeploymentReply bool
  | TokenReply issued_token
  | TargetReply workflow_actor_target
  | Upgraded socket_access
  | EffectsApplied nat

definition authenticate_workflow :: "('sk, 'vk) http_env \<Rightarrow> string \<Rightarrow> actor_principal result" where
  "authenticate_workflow env = authenticate_authorization (cp_lib (he_cp env)) (amb_seconds (he_ambient env)) (cp_verifier (he_cp env))"

definition upgrade_socket :: "socket_api_error + socket_access \<Rightarrow> http_reply" where
  "upgrade_socket access = (case access of Inl e \<Rightarrow> SocketFailed e | Inr a \<Rightarrow> Upgraded a)"

fun serve_endpoint :: "('sk, 'vk) http_env \<Rightarrow> http_request \<Rightarrow> endpoint \<Rightarrow> http_world \<Rightarrow> http_reply option \<times> http_world" where
  "serve_endpoint env request JwksEndpoint w =
     (Some (case api_jwks (he_keys_to_vec env) (he_keys_from_slice env) (he_admin env) of Inl e \<Rightarrow> ApiFailed e | Inr keys \<Rightarrow> KeySet keys), w)"
| "serve_endpoint env request (DeploymentEndpoint namespace) w =
     (case extract_body max_control_plane_message_bytes (he_deployment env) request of
        Inl status \<Rightarrow> (Some (LibraryRefused status), w)
      | Inr body \<Rightarrow>
          (case api_register_deployment (register_deployment (he_terminate env) (cp_buckets (he_cp env)) (he_others env))
              (warm_deployment_image (he_warm env) (cp_buckets (he_cp env))) (he_admin env) (rq_authorization request) namespace body
              (hw_database w) of
             (r, db) \<Rightarrow> (Some (case r of Inl e \<Rightarrow> ApiFailed e | Inr changed \<Rightarrow> DeploymentReply changed), w\<lparr>hw_database := db\<rparr>)))"
| "serve_endpoint env request (WorkflowTokensEndpoint namespace) w =
     (case extract_body max_control_plane_message_bytes (he_token_request env) request of
        Inl status \<Rightarrow> (Some (LibraryRefused status), w)
      | Inr body \<Rightarrow>
          (Some (case api_issue_workflow_token (cp_lib (he_cp env)) (amb_millis (he_ambient env)) (fst (he_uuids env)) (snd (he_uuids env))
               (he_admin env) (rq_authorization request) namespace body (hw_database w) of
             Inl e \<Rightarrow> ApiFailed e | Inr token \<Rightarrow> TokenReply token), w))"
| "serve_endpoint env request (TargetEndpoint actor) w =
     (case api_resolve_actor_target (authenticate_workflow env)
         (\<lambda>prin actor. resolve_workflow_route (he_turns env) (he_cp env) (he_routing env) (he_ambient env) (he_others env) prin actor InvocationRoute)
         (rq_authorization request) actor (hw_database w, hw_routes w) of
        (r, db, routes) \<Rightarrow>
          (map_option (\<lambda>r. case r of Inl e \<Rightarrow> ApiFailed e | Inr target \<Rightarrow> TargetReply target) r, w\<lparr>hw_database := db, hw_routes := routes\<rparr>))"
| "serve_endpoint env request (WebsocketEndpoint actor) w =
     (case rq_upgrade request of
        Inl status \<Rightarrow> (Some (LibraryRefused status), w)
      | Inr _ \<Rightarrow> (Some (upgrade_socket (connect_workflow (authenticate_workflow env) (rq_authorization request) actor)), w))"
| "serve_endpoint env request (ExternalSocketEndpoint trigger_id requested) w =
     (case rq_upgrade request of
        Inl status \<Rightarrow> (Some (LibraryRefused status), w)
      | Inr _ \<Rightarrow> (Some (upgrade_socket (connect_external (he_authenticator env) (fst (he_uuids env)) (snd (he_uuids env)) trigger_id requested
          (rq_authorization request) (rq_protocols request))), w))"
| "serve_endpoint env request (SocketEffectsEndpoint actor) w =
     (case extract_body max_socket_effects_request_bytes (he_effects env) request of
        Inl status \<Rightarrow> (Some (LibraryRefused status), w)
      | Inr effects \<Rightarrow>
          (case apply_effects (authenticate_workflow env) (he_decode env) (he_to_vec env) (rq_authorization request) actor effects (hw_gateway w) of
             (r, g) \<Rightarrow> (Some (case r of Inl e \<Rightarrow> SocketFailed e | Inr status \<Rightarrow> EffectsApplied status), w\<lparr>hw_gateway := g\<rparr>)))"

definition serve_http :: "('sk, 'vk) http_env \<Rightarrow> http_request \<Rightarrow> http_world \<Rightarrow> http_reply option \<times> http_world" where
  "serve_http env request w =
     (case route_request (he_matching env) api_router (rq_method request) (rq_path request) of
        Inl status \<Rightarrow> (Some (LibraryRefused status), w)
      | Inr e \<Rightarrow> serve_endpoint env request e w)"

section \<open>Credentials\<close>

text \<open>What a reply grants: anything but a refusal and the public keys.\<close>

fun granted :: "http_reply \<Rightarrow> bool" where
  "granted (LibraryRefused _) = False"
| "granted (ApiFailed _) = False"
| "granted (SocketFailed _) = False"
| "granted (KeySet _) = False"
| "granted _ = True"

text \<open>A token of a workflow process of the actor's namespace, and the credential each endpoint asks for.\<close>

definition workflow_credential :: "('sk, 'vk) http_env \<Rightarrow> http_request \<Rightarrow> actor_key \<Rightarrow> bool" where
  "workflow_credential env request actor \<longleftrightarrow>
     (\<exists>value prin. rq_authorization request = Some (Inr value) \<and> authenticate_workflow env value = Inr prin \<and>
        prin_process_role prin = Workflow \<and> scope_namespace_id (prin_scope prin) = namespace_id actor)"

fun credential_of :: "('sk, 'vk) http_env \<Rightarrow> http_request \<Rightarrow> endpoint \<Rightarrow> bool" where
  "credential_of env request JwksEndpoint \<longleftrightarrow> False"
| "credential_of env request (DeploymentEndpoint namespace) \<longleftrightarrow> rq_authorization request = Some (Inr (''Bearer '' @ adm_token (he_admin env)))"
| "credential_of env request (WorkflowTokensEndpoint namespace) \<longleftrightarrow> rq_authorization request = Some (Inr (''Bearer '' @ adm_token (he_admin env)))"
| "credential_of env request (TargetEndpoint actor) \<longleftrightarrow> workflow_credential env request actor"
| "credential_of env request (WebsocketEndpoint actor) \<longleftrightarrow> workflow_credential env request actor"
| "credential_of env request (SocketEffectsEndpoint actor) \<longleftrightarrow> workflow_credential env request actor"
| "credential_of env request (ExternalSocketEndpoint trigger_id requested) \<longleftrightarrow>
     (\<exists>credential authorize a. external_credential (rq_authorization request) (rq_protocols request) = Some credential \<and>
        he_authenticator env = Some authorize \<and>
        authorize \<lparr>sar_trigger_id = trigger_id, sar_actor_id = requested, sar_credential = credential\<rparr> = Inr a)"

lemma authorized_workflow_credential:
  "authorized_workflow (authenticate_workflow env) (rq_authorization request) actor = Inr prin \<Longrightarrow> workflow_credential env request actor"
  by (auto simp: authorized_workflow_def authorization_def workflow_credential_def scope_contains_def and_then_eq_Inr split: option.splits sum.splits)

lemma authorize_workflow_credential:
  "authorize_workflow (authenticate_workflow env) (rq_authorization request) actor = Inr prin \<Longrightarrow> workflow_credential env request actor"
  by (auto simp: authorize_workflow_def workflow_credential_def scope_contains_def replace_error_def require_def and_then_eq_Inr
      split: option.splits sum.splits if_splits)

text \<open>Without its credential an endpoint grants nothing and leaves everything as it was.\<close>

definition turned_away :: "http_world \<Rightarrow> http_reply option \<times> http_world \<Rightarrow> bool" where
  "turned_away w answer \<longleftrightarrow> snd answer = w \<and> (\<exists>r. fst answer = Some r \<and> \<not> granted r)"

lemma deployment_refused:
  assumes "\<not> credential_of env request (DeploymentEndpoint namespace)"
  shows "turned_away w (serve_endpoint env request (DeploymentEndpoint namespace) w)"
proof -
  obtain e where "authorized_admin (he_admin env) (rq_authorization request) = Inl e"
    using assms authorized_admin_Inr by (cases "authorized_admin (he_admin env) (rq_authorization request)") auto
  then show ?thesis by (auto simp: api_register_deployment_def turned_away_def split: sum.splits)
qed

lemma tokens_refused:
  assumes "\<not> credential_of env request (WorkflowTokensEndpoint namespace)"
  shows "turned_away w (serve_endpoint env request (WorkflowTokensEndpoint namespace) w)"
proof -
  obtain e where "authorized_admin (he_admin env) (rq_authorization request) = Inl e"
    using assms authorized_admin_Inr by (cases "authorized_admin (he_admin env) (rq_authorization request)") auto
  then show ?thesis by (auto simp: api_issue_workflow_token_def turned_away_def split: sum.splits)
qed

lemma target_refused:
  assumes "\<not> workflow_credential env request actor"
  shows "turned_away w (serve_endpoint env request (TargetEndpoint actor) w)"
proof -
  obtain e where "and_then (map_error (\<lambda>e. bad_request (error_head e)) (actor_validate actor))
      (\<lambda>_. authorized_workflow (authenticate_workflow env) (rq_authorization request) actor) = Inl e"
    using assms authorized_workflow_credential [of env request actor]
    by (cases "authorized_workflow (authenticate_workflow env) (rq_authorization request) actor"; cases "actor_validate actor") auto
  then show ?thesis by (auto simp: api_resolve_actor_target_def turned_away_def)
qed

lemma websocket_refused:
  assumes "\<not> workflow_credential env request actor"
  shows "turned_away w (serve_endpoint env request (WebsocketEndpoint actor) w)"
proof -
  obtain e where "connect_workflow (authenticate_workflow env) (rq_authorization request) actor = Inl e"
    using assms authorize_workflow_credential [of env request actor]
    by (cases "connect_workflow (authenticate_workflow env) (rq_authorization request) actor") (auto simp: connect_workflow_def and_then_eq_Inr)
  then show ?thesis by (auto simp: upgrade_socket_def turned_away_def split: sum.splits)
qed

lemma effects_refused:
  assumes "\<not> workflow_credential env request actor"
  shows "turned_away w (serve_endpoint env request (SocketEffectsEndpoint actor) w)"
proof -
  obtain e where "authorize_workflow (authenticate_workflow env) (rq_authorization request) actor = Inl e"
    using assms authorize_workflow_credential [of env request actor]
    by (cases "authorize_workflow (authenticate_workflow env) (rq_authorization request) actor") auto
  then have "\<exists>e. apply_effects (authenticate_workflow env) (he_decode env) (he_to_vec env) (rq_authorization request) actor effects g = (Inl e, g)" for effects g
    by (cases "actor_validate actor") (auto simp: apply_effects_def replace_error_def)
  note refused = this
  show ?thesis
  proof (cases "extract_body max_socket_effects_request_bytes (he_effects env) request")
    case (Inr effects)
    with refused [of effects "hw_gateway w"] show ?thesis by (auto simp: turned_away_def)
  qed (simp add: turned_away_def)
qed

lemma external_refused:
  assumes "\<not> credential_of env request (ExternalSocketEndpoint trigger_id requested)"
  shows "turned_away w (serve_endpoint env request (ExternalSocketEndpoint trigger_id requested) w)"
proof -
  obtain e where "connect_external (he_authenticator env) (fst (he_uuids env)) (snd (he_uuids env)) trigger_id requested
      (rq_authorization request) (rq_protocols request) = Inl e"
    using assms by (cases "connect_external (he_authenticator env) (fst (he_uuids env)) (snd (he_uuids env)) trigger_id requested
        (rq_authorization request) (rq_protocols request)")
      (auto simp: connect_external_def authorize_socket_def split: option.splits sum.splits)
  then show ?thesis by (auto simp: upgrade_socket_def turned_away_def split: sum.splits)
qed

lemma refused_without_credential: "\<not> credential_of env request e \<Longrightarrow> turned_away w (serve_endpoint env request e w)"
proof (cases e)
  case JwksEndpoint
  then show ?thesis by (auto simp: turned_away_def split: sum.splits)
qed (auto simp only: credential_of.simps intro: deployment_refused tokens_refused target_refused websocket_refused external_refused effects_refused)

lemma other_gateway_entries:
  assumes "serve_endpoint env request e w = (reply, w')" "\<And>actor. e = SocketEffectsEndpoint actor \<Longrightarrow> b \<noteq> actor"
  shows "gw_entries (hw_gateway w') b = gw_entries (hw_gateway w) b"
proof (cases e)
  case (SocketEffectsEndpoint actor)
  have "gw_entries (fold (apply_one actor) effects g) b = gw_entries g b" for effects g
    using assms(2) [OF SocketEffectsEndpoint] by (induction effects arbitrary: g) (auto simp: other_actor_apply_one)
  with assms(1) SocketEffectsEndpoint show ?thesis
    by (auto simp: apply_effects_def registry_apply_def split: sum.splits prod.splits)
qed (use assms(1) in \<open>auto split: sum.splits prod.splits\<close>)

text \<open>
  Claim C16. The control plane's HTTP surface is closed: a request that is granted anything but the public keys, or after which the
  database, the cached routes or the sockets are no longer what they were, reached an endpoint and carried that
  endpoint's credential: the administrator's for deployments and workflow tokens, an accepted token of a workflow process of the
  actor's own namespace for targets, websockets and effects, and one the configured authenticator accepts for an
  external socket. Only a request for effects touches the registered sockets, and only its actor's.
\<close>

theorem http_surface_closed:
  assumes "serve_http env request w = (reply, w')" "w' \<noteq> w \<or> (\<exists>r. reply = Some r \<and> granted r)"
  shows "\<exists>e. route_request (he_matching env) api_router (rq_method request) (rq_path request) = Inr e \<and> credential_of env request e \<and>
    (\<forall>b. gw_entries (hw_gateway w') b = gw_entries (hw_gateway w) b \<or> e = SocketEffectsEndpoint b)"
proof -
  obtain e where e: "route_request (he_matching env) api_router (rq_method request) (rq_path request) = Inr e"
      "serve_endpoint env request e w = (reply, w')"
    using assms by (auto simp: serve_http_def split: sum.splits)
  have "credential_of env request e"
    using refused_without_credential [of env request e w] e(2) assms(2) by (auto simp: turned_away_def)
  with e other_gateway_entries [OF e(2)] show ?thesis by blast
qed

section \<open>A concrete request\<close>

definition sample_http :: "(unit, unit) http_env" where
  "sample_http = \<lparr>he_cp = cluster_cp\<lparr>cp_lib := sample_lib sample_workflow_claims\<rparr>, he_admin = sample_admin, he_routing = None,
     he_terminate = None, he_warm = None, he_ambient = cluster_ambient\<lparr>amb_millis := Inr 5000\<rparr>, he_others = id, he_turns = 1,
     he_uuids = (''p1'', ''u1''), he_authenticator = None,
     he_matching = (\<lambda>pattern path. if pattern = ''/v1/namespaces/{namespace_id}/workflow-tokens'' \<and> path = ''/v1/namespaces/ns/workflow-tokens''
       then Some [''ns''] else None),
     he_deployment = (\<lambda>_. Inl 422), he_token_request = (\<lambda>_. Inr sample_token_request), he_effects = (\<lambda>_. Inl 422),
     he_keys_to_vec = (\<lambda>_. Inr ''keys''), he_keys_from_slice = (\<lambda>_. Inr Null), he_decode = Inr, he_to_vec = (\<lambda>_. Inr ''{}'')\<rparr>"

definition sample_http_request :: http_request where
  "sample_http_request = \<lparr>rq_method = MethodPost, rq_path = ''/v1/namespaces/ns/workflow-tokens'',
     rq_authorization = Some (Inr ''Bearer admin''), rq_protocols = None, rq_upgrade = Inl 400, rq_body = ''{}''\<rparr>"

theorem http_surface_closed_witness:
  "fst (serve_http sample_http sample_http_request \<lparr>hw_database = deployed_db, hw_routes = Map.empty, hw_gateway = no_sockets\<rparr>) =
     Some (TokenReply \<lparr>tok_token = ''tok'', tok_expires_at_ms = 50000\<rparr>) \<and>
   (\<exists>e. route_request (he_matching sample_http) api_router MethodPost (rq_path sample_http_request) = Inr e \<and>
      credential_of sample_http sample_http_request e)"
proof -
  let ?w = "\<lparr>hw_database = deployed_db, hw_routes = Map.empty, hw_gateway = no_sockets\<rparr> :: http_world"
  have route: "route_request (he_matching sample_http) api_router MethodPost (rq_path sample_http_request) = Inr (WorkflowTokensEndpoint ''ns'')"
    by (simp add: sample_http_def sample_http_request_def api_router_def serves_def namespace_path_def)
  have run: "serve_http sample_http sample_http_request ?w = (Some (TokenReply \<lparr>tok_token = ''tok'', tok_expires_at_ms = 50000\<rparr>), ?w)"
    using route sample_token_issued
    by (simp add: serve_http_def sample_http_request_def extract_body_def) (simp add: sample_http_def)
  from http_surface_closed [OF run] run show ?thesis by (auto simp: sample_http_request_def)
qed


end
