(* ===== verification/Spec2Isabelle.thy ===== *)
theory Spec2Isabelle
  imports Executor Socket_Path Failover Well_Formed Local_Leases Startup Http_Api
begin

text \<open>
  A verification of the durable-object runtime under \<^verbatim>\<open>src/src/\<close>, a Rust program of two kinds of processes.

  \<^bold>\<open>The program.\<close> A \<^emph>\<open>control plane\<close> keeps, in PostgreSQL, the leases of hosts, the deployment of every
  namespace and the placement of every actor: its owning host, the epoch of that ownership, and the head of its
  state (version, immutable snapshot object, request). It routes workflows to hosts, starts hosts through a
  sandbox provider, issues and checks the tokens all calls carry, and accepts websockets. An \<^emph>\<open>actor host\<close> holds a
  lease, runs the methods of actors in a JavaScript process, writes each next state as a new object of a store
  through a signed URL, asks the control plane to make it the head, and only then answers. What makes
  the program correct is that this chain never forks or loses an actor's state, whatever hosts
  crash, are replaced, or lose messages, and that no process reaches beyond its namespace.

  \<^bold>\<open>The theories\<close>, with the sources they translate. Structs are records, enums datatypes, \<^verbatim>\<open>anyhow\<close> results the
  sum type \<^verbatim>\<open>result\<close>, every \<^verbatim>\<open>?\<close>, \<^verbatim>\<open>ensure!\<close> and \<^verbatim>\<open>bail!\<close> a branch; integers are words or integers with their range
  checked as the code checks it; strings are their UTF-8 bytes.

  \<^item> \<^verbatim>\<open>Prelude\<close>: results, checked and saturating arithmetic, string predicates, and their lemmas.
  \<^item> \<^verbatim>\<open>Actor_Protocol\<close> (\<^verbatim>\<open>actor/protocol.rs\<close>, \<^verbatim>\<open>actor_state.rs\<close>, \<^verbatim>\<open>host.rs\<close>), \<^verbatim>\<open>Sockets\<close> (\<^verbatim>\<open>actor/socket.rs\<close>), \<^verbatim>\<open>Storage_Urls\<close>
    (\<^verbatim>\<open>storage_urls.rs\<close>), \<^verbatim>\<open>State_Log\<close> (\<^verbatim>\<open>state_log.rs\<close>, \<^verbatim>\<open>state_transport.rs\<close>): identities, messages, limits, object names
    and snapshots. The lemmas characterise every validation.
  \<^item> \<^verbatim>\<open>Database\<close>, \<^verbatim>\<open>Host_Leases\<close> (\<^verbatim>\<open>host_leases.rs\<close>, \<^verbatim>\<open>host_leases/postgres.rs\<close>), \<^verbatim>\<open>Placement\<close> (\<^verbatim>\<open>placement.rs\<close>), \<^verbatim>\<open>Admin\<close>
    (\<^verbatim>\<open>control_plane/admin.rs\<close>): the tables, with one SQL statement one atomic step and other connections' statements in
    between. The contracts of the lease registry, the placement store and the deployment registry are locales, interpreted on
    the PostgreSQL stores, the last two also on the in-memory ones; from them follow that leases exclude each other, that epochs
    fence, that histories never fork, and that the PostgreSQL store refines the in-memory one; \<^verbatim>\<open>Placement\<close> also says what
    a commit and a claim do and answer under interference.
  \<^item> \<^verbatim>\<open>Local_Leases\<close> (\<^verbatim>\<open>host_leases/local.rs\<close>): the lease store on a directory of files that stands in for PostgreSQL in the program's
    tests; it gives the same answers.
  \<^item> \<^verbatim>\<open>Auth\<close> (\<^verbatim>\<open>control_plane/auth.rs\<close>, \<^verbatim>\<open>control_plane/issuer.rs\<close>): exactly which tokens are accepted, and that issued
    tokens are accepted for exactly what they were issued for.
  \<^item> \<^verbatim>\<open>Sandbox\<close> (\<^verbatim>\<open>sandbox.rs\<close>, \<^verbatim>\<open>sandbox/command_process.rs\<close>): the provider's commands and the pool of reused processes,
    with the process at the other end of the pipe (\<^verbatim>\<open>npm/providers/commandProcess.ts\<close>).
  \<^item> \<^verbatim>\<open>Control_Plane\<close> and \<^verbatim>\<open>Routing\<close> (\<^verbatim>\<open>control_plane/service.rs\<close>, \<^verbatim>\<open>control_plane/protocol.rs\<close>): the commands of hosts,
    the routing loop, the targets of workflows. The lemmas confine each command to its
    host and namespace, show that placements only move forward, that routing settles and to what a target is bound.
  \<^item> \<^verbatim>\<open>Public_Api\<close> (\<^verbatim>\<open>control_plane/public_api.rs\<close>) and \<^verbatim>\<open>Gateway\<close> (\<^verbatim>\<open>control_plane/websocket.rs\<close>, \<^verbatim>\<open>socket_auth.rs\<close>,
    \<^verbatim>\<open>event_sink.rs\<close>): the HTTP handlers; the registry of sockets, whom effects reach, and the life of a connection.
  \<^item> \<^verbatim>\<open>Http_Api\<close>: the routing tables of both, and every handler behind them as one function of a request; no request
    is granted or changes anything without the credential of its endpoint.
  \<^item> \<^verbatim>\<open>Client\<close> (\<^verbatim>\<open>control_plane/client.rs\<close>): the host's side of the commands.
  \<^item> \<^verbatim>\<open>Execution_Gate\<close> (\<^verbatim>\<open>actor_state/actor.rs\<close>): a step relation over tasks; mutual exclusion and progress.
  \<^item> \<^verbatim>\<open>Actor_Host\<close> (\<^verbatim>\<open>host/actor_host.rs\<close>): invocations and socket events; the locale \<^verbatim>\<open>state_authority\<close> is what
    the host relies on, and its interpretation in \<^verbatim>\<open>System\<close> is the composed program.
  \<^item> \<^verbatim>\<open>Executor\<close> (\<^verbatim>\<open>actor/executor_connection.rs\<close>): framing, the multiplexer as a step relation, and the residency
    protocol together with the process at its other end (\<^verbatim>\<open>npm/host/worker/\<close>).
  \<^item> \<^verbatim>\<open>Lease_Maintenance\<close> (\<^verbatim>\<open>host/lease_maintenance.rs\<close>, \<^verbatim>\<open>clock.rs\<close>): the renewal task over instants, and self-fencing.
  \<^item> \<^verbatim>\<open>Host_Service\<close> (\<^verbatim>\<open>grpc/service.rs\<close>, \<^verbatim>\<open>grpc/wire.rs\<close>): the host's endpoints and the wire format.
  \<^item> \<^verbatim>\<open>Host_Process\<close> (\<^verbatim>\<open>host/process.rs\<close>, \<^verbatim>\<open>control_plane/process.rs\<close>): configurations, what stops a host, and the drain.
  \<^item> \<^verbatim>\<open>Startup\<close> (\<^verbatim>\<open>main.rs\<close>, the same two files, \<^verbatim>\<open>npm/providers/modal.ts\<close>): how both processes come up; a host started on
    behalf of a control plane accepts its configuration and that control plane's tokens.
  \<^item> \<^verbatim>\<open>System\<close>: host, client, control plane, database and object store composed; an
    acknowledged result is durable, and a socket's effects follow the commit of the state they come from.
  \<^item> \<^verbatim>\<open>Socket_Path\<close>: gateway, dispatcher, wire and host composed on top of \<^verbatim>\<open>System\<close>; the messages that reach the clients
    of a socket follow the commit.
  \<^item> \<^verbatim>\<open>Failover\<close>: routing and loading composed on top of \<^verbatim>\<open>System\<close>; the next owner of an actor
    starts from the recorded snapshot and replays its request.
  \<^item> \<^verbatim>\<open>Well_Formed\<close>: all entry points of the control plane as one step relation on the database; every reachable database keeps
    the constraints of its tables, and what is stored reads back.

  \<^bold>\<open>Fuel and bounds.\<close> The routing loop of \<^verbatim>\<open>route_actor\<close> has no bound in the code; \<^verbatim>\<open>route_loop\<close> takes the number of turns
  and yields nothing when they are used up, and \<^verbatim>\<open>Routing\<close> proves that one turn is enough when no other control
  plane claims the actor meanwhile. The loops that read from a connection recurse over what arrives. A composed run
  in \<^verbatim>\<open>System\<close> is driven by the list of its remote calls; when it is exhausted the control plane is unreachable, so
  that every statement covers every length. Message ids of the executor are 64-bit counters; the
  statement about them holds for fewer than \<open>2\<^sup>6\<^sup>4\<close> exchanges on one connection.

  \<^bold>\<open>Parameters.\<close> The JWT, JSON, base64, URL and UUID libraries, the HTTP and gRPC transports, the cloud's URL signing, the clocks
  and the random nonces are arguments of the definitions that use them; what a theorem needs of them is one of
  its hypotheses (for instance \<^verbatim>\<open>jwt_faithful\<close>, or that a JSON document is one line), and its witness
  instantiates them.

  \<^bold>\<open>Not modelled.\<close> Log lines and timings; the opening of sockets, the spawning of processes, whose
  outcomes are arguments of the start-up; the connection pool of \<^verbatim>\<open>postgres.rs\<close>, whose failures appear as failed statements;
  the eviction of cache entries by age and number; the module declarations. Of the JavaScript sources only the
  residency protocol, the command loop of a provider process and the environment of a started host are modelled. The pool of
  \<^verbatim>\<open>deadpool\<close> is the list of its idle processes; the fields of a guard are dropped in one step, as are the steps of the gateway
  between a host's answer and the delivery of its effects.

  \<^bold>\<open>What modelling showed.\<close> The storage key of an actor joins its parts with dots that the parts may contain, so actors of different
  namespaces can share a placement (\<^verbatim>\<open>Routing\<close>); a draining host's refusal is encoded as a
  failure of the actor, so the dispatcher's retry is never reached (\<^verbatim>\<open>Host_Service\<close>); a drain can miss its
  wake-up (\<^verbatim>\<open>Host_Process\<close>); a confirmed lease window can outlive the recorded lease by the
  truncation of clock readings (\<^verbatim>\<open>Lease_Maintenance\<close>).
\<close>

end
